(* ===== verification/Prelude.thy ===== *)
theory Prelude
  imports Main "HOL-Library.Word" "HOL-Library.Monad_Syntax" "HOL-Library.Multiset"
begin

text \<open>
  Shared vocabulary of the development: Rust's integer types as machine words with the
  checked and saturating operations of its standard library, little-endian bytes, the
  \<open>Result\<close> type with the \<open>?\<close> operator, and the few list operations of Rust's \<open>Vec\<close> that
  the program uses. The collection \<open>ok_simps\<close> gathers the rules that turn
  "this step returned \<open>Ok\<close>" into what the step checked and what it produced.
\<close>

named_theorems ok_simps

text \<open>\<open>run_simps\<close> unfolds the operations on a concrete ledger.\<close>

named_theorems run_simps

section \<open>Integers\<close>

type_synonym u8 = "8 word"
type_synonym u16 = "16 word"
type_synonym u32 = "32 word"
type_synonym u64 = "64 word"

text \<open>An \<open>i64\<close> is a 64-bit word read through \<open>sint\<close>.\<close>

type_synonym i64 = "64 word"

text \<open>\<open>usize\<close> values are lengths and sizes; they are natural numbers here.\<close>

definition checked_add :: "'w::len word \<Rightarrow> 'w word \<Rightarrow> 'w word option" where
  "checked_add a b = (if unat a + unat b < 2 ^ LENGTH('w) then Some (a + b) else None)"

definition saturating_add :: "'w::len word \<Rightarrow> 'w word \<Rightarrow> 'w word" where
  "saturating_add a b = (if unat a + unat b < 2 ^ LENGTH('w) then a + b else - 1)"

definition saturating_sub :: "'w::len word \<Rightarrow> 'w word \<Rightarrow> 'w word" where
  "saturating_sub a b = (if b \<le> a then a - b else 0)"

lemma unat_less_2p: "unat a < 2 ^ LENGTH('w)" for a :: "'w::len word"
  by (rule unsigned_less)

lemma unat_u8_less: "unat b < 256" for b :: u8
  using unat_less_2p [of b] by simp

lemma checked_add_Some_iff:
  "checked_add a b = Some c \<longleftrightarrow> unat a + unat b < 2 ^ LENGTH('w) \<and> c = a + b"
  for a b c :: "'w::len word"
  by (auto simp: checked_add_def)

lemma unat_add_lt: "unat (a + b) = unat a + unat b"
  if "unat a + unat b < 2 ^ LENGTH('w)" for a b :: "'w::len word"
  using that by (simp add: unat_word_ariths)

lemma unat_sub_le: "unat (a - b) = unat a - unat b" if "b \<le> a" for a b :: "'w::len word"
  using that by (simp add: unat_sub)

lemma unat_saturating_sub: "unat (saturating_sub a b) = unat a - unat b"
  for a b :: "'w::len word"
  by (auto simp: saturating_sub_def unat_sub_le word_le_nat_alt)

lemma unat_saturating_add:
  "unat (saturating_add a b) = min (unat a + unat b) (2 ^ LENGTH('w) - 1)"
  for a b :: "'w::len word"
proof (cases "unat a + unat b < 2 ^ LENGTH('w)")
  case True
  then show ?thesis by (simp add: saturating_add_def unat_add_lt)
next
  case False
  then have "unat (saturating_add a b) = 2 ^ LENGTH('w) - 1"
    by (simp add: saturating_add_def unsigned_minus_1_eq_mask mask_eq_exp_minus_1)
  with False show ?thesis by simp
qed

lemma saturating_sub_0_iff: "saturating_sub a b = 0 \<longleftrightarrow> a \<le> b" for a b :: "'w::len word"
  by (auto simp: saturating_sub_def)

text \<open>Rust's \<open>as u64\<close> on a \<open>u128\<close> keeps the low 64 bits: \<open>of_nat\<close> into the narrower word.
  A \<open>u128\<close> intermediate is a natural number with its saturation written out.\<close>

definition u128_max :: nat where
  "u128_max = 2 ^ 128 - 1"

definition saturating_mul_u128 :: "nat \<Rightarrow> nat \<Rightarrow> nat" where
  "saturating_mul_u128 a b = min (a * b) u128_max"

definition checked_mul_u128 :: "nat \<Rightarrow> nat \<Rightarrow> nat option" where
  "checked_mul_u128 a b = (if a * b \<le> u128_max then Some (a * b) else None)"

lemma u64_u32_mul_fits: "unat (a :: u64) * unat (b :: u32) \<le> u128_max"
proof -
  have "unat a \<le> 2 ^ 64 - 1" "unat b \<le> 2 ^ 32 - 1"
    using unat_less_2p [of a] unat_less_2p [of b] by simp_all
  then have "unat a * unat b \<le> (2 ^ 64 - 1) * (2 ^ 32 - 1)"
    by (rule mult_le_mono)
  also have "\<dots> \<le> u128_max"
    by (simp add: u128_max_def)
  finally show ?thesis .
qed

lemma saturating_mul_u64_u32 [simp]:
  "saturating_mul_u128 (unat (a :: u64)) (unat (b :: u32)) = unat a * unat b"
  using u64_u32_mul_fits [of a b] by (simp add: saturating_mul_u128_def)

lemma checked_mul_u64_u32 [simp]:
  "checked_mul_u128 (unat (a :: u64)) (unat (b :: u32)) = Some (unat a * unat b)"
  using u64_u32_mul_fits [of a b] by (simp add: checked_mul_u128_def)

section \<open>Little-endian bytes\<close>

text \<open>\<open>to_le_bytes\<close> of an unsigned integer of \<open>n\<close> bytes, and its inverse.\<close>

fun le_bytes :: "nat \<Rightarrow> nat \<Rightarrow> u8 list" where
  "le_bytes 0 x = []"
| "le_bytes (Suc n) x = of_nat (x mod 256) # le_bytes n (x div 256)"

fun of_le_bytes :: "u8 list \<Rightarrow> nat" where
  "of_le_bytes [] = 0"
| "of_le_bytes (b # bs) = unat b + 256 * of_le_bytes bs"

lemma le_bytes_numeral:
  "le_bytes (numeral n) x = of_nat (x mod 256) # le_bytes (pred_numeral n) (x div 256)"
  by (simp only: numeral_eq_Suc le_bytes.simps)

lemma length_le_bytes [simp]: "length (le_bytes n x) = n"
  by (induction n arbitrary: x) auto

lemma unat_of_nat_mod_256 [simp]: "unat (of_nat (x mod 256) :: u8) = x mod 256"
  by (simp add: unat_of_nat)

lemma of_le_bytes_le_bytes: "of_le_bytes (le_bytes n x) = x mod 256 ^ n"
proof (induction n arbitrary: x)
  case 0
  then show ?case by simp
next
  case (Suc n)
  then show ?case
    by (simp add: mod_mult2_eq)
qed

lemma of_le_bytes_less: "of_le_bytes bs < 256 ^ length bs"
proof (induction bs)
  case Nil
  then show ?case by simp
next
  case (Cons b bs)
  have "unat b < 256" by (rule unat_u8_less)
  with Cons show ?case by simp
qed

lemma le_bytes_of_le_bytes: "le_bytes (length bs) (of_le_bytes bs) = bs"
proof (induction bs)
  case Nil
  then show ?case by simp
next
  case (Cons b bs)
  have "unat b < 256" by (rule unat_u8_less)
  then have "(unat b + 256 * of_le_bytes bs) mod 256 = unat b"
    and "(unat b + 256 * of_le_bytes bs) div 256 = of_le_bytes bs"
    by simp_all
  with Cons show ?case by simp
qed

section \<open>Results and the question-mark operator\<close>

text \<open>
  \<open>Result<T, E>\<close> is \<open>'e + 'a\<close> with \<open>Inl\<close> for \<open>Err\<close>. Writing \<open>attempt m (\<lambda>x. k)\<close> for
  \<open>let x = m?; k\<close> keeps the order of the source's checks.
\<close>

definition attempt :: "'e + 'a \<Rightarrow> ('a \<Rightarrow> 'e + 'b) \<Rightarrow> 'e + 'b" where
  "attempt m f = (case m of Inl e \<Rightarrow> Inl e | Inr x \<Rightarrow> f x)"

lemma attempt_simps [simp]:
  "attempt (Inl e) f = Inl e"
  "attempt (Inr x) f = f x"
  by (simp_all add: attempt_def)

lemma attempt_cong [fundef_cong]:
  "m = m' \<Longrightarrow> (\<And>x. m' = Inr x \<Longrightarrow> f x = f' x) \<Longrightarrow> attempt m f = attempt m' f'"
  by (cases m') auto

lemma attempt_weak_cong: "m = m' \<Longrightarrow> attempt m f = attempt m' f"
  by simp

text \<open>A concrete run evaluates one statement at a time, with these congruences.\<close>

lemmas run_congs = attempt_weak_cong let_weak_cong

lemma attempt_Inr_iff [ok_simps]:
  "attempt m f = Inr y \<longleftrightarrow> (\<exists>x. m = Inr x \<and> f x = Inr y)"
  by (cases m) auto

lemma attempt_Inl_iff:
  "attempt m f = Inl e \<longleftrightarrow> m = Inl e \<or> (\<exists>x. m = Inr x \<and> f x = Inl e)"
  by (cases m) auto

text \<open>\<open>opt.ok_or(e)?\<close>\<close>

definition ok_or :: "'e \<Rightarrow> 'a option \<Rightarrow> 'e + 'a" where
  "ok_or e m = (case m of None \<Rightarrow> Inl e | Some x \<Rightarrow> Inr x)"

lemma ok_or_simps [simp]: "ok_or e None = Inl e" "ok_or e (Some x) = Inr x"
  by (simp_all add: ok_or_def)

lemma ok_or_Inr_iff [ok_simps]: "ok_or e m = Inr x \<longleftrightarrow> m = Some x"
  by (cases m) auto

text \<open>\<open>if !c { return Err(e) }\<close>\<close>

definition ensure :: "bool \<Rightarrow> 'e \<Rightarrow> 'e + unit" where
  "ensure c e = (if c then Inr () else Inl e)"

lemma ensure_simps [simp]: "ensure True e = Inr ()" "ensure False e = Inl e"
  by (simp_all add: ensure_def)

lemma ensure_Inr_iff [ok_simps]: "ensure c e = Inr u \<longleftrightarrow> c"
  by (auto simp: ensure_def)

lemma ensure_Inl_iff: "ensure c e = Inl e' \<longleftrightarrow> \<not> c \<and> e' = e"
  by (auto simp: ensure_def)

lemma if_Inl_Inr_iff [ok_simps]:
  "(if c then Inl e else m) = Inr x \<longleftrightarrow> \<not> c \<and> m = Inr x"
  "(if c then m else Inl e) = Inr x \<longleftrightarrow> c \<and> m = Inr x"
  by auto

text \<open>What a successful result holds, for closed evaluations.\<close>

definition is_ok :: "'e + 'a \<Rightarrow> bool" where
  "is_ok r = (case r of Inl _ \<Rightarrow> False | Inr _ \<Rightarrow> True)"

definition ok_value :: "'e + 'a \<Rightarrow> 'a" where
  "ok_value r = projr r"

lemma is_ok_ok_value: "is_ok r \<Longrightarrow> r = Inr (ok_value r)"
  by (cases r) (auto simp: is_ok_def ok_value_def)

lemma is_ok_simps [simp]: "is_ok (Inr x)" "\<not> is_ok (Inl e)" "ok_value (Inr x) = x"
  by (simp_all add: is_ok_def ok_value_def)

lemma is_ok_iff: "is_ok r \<longleftrightarrow> (\<exists>x. r = Inr x)"
  by (cases r) (auto simp: is_ok_def)

lemmas run_arith [run_simps] = Let_def checked_add_def saturating_add_def saturating_sub_def
  checked_mul_u128_def saturating_mul_u128_def u128_max_def

section \<open>Vectors\<close>

text \<open>\<open>iter().position(p)\<close>: the index of the first match.\<close>

fun position :: "('a \<Rightarrow> bool) \<Rightarrow> 'a list \<Rightarrow> nat option" where
  "position p [] = None"
| "position p (x # xs) = (if p x then Some 0 else map_option Suc (position p xs))"

text \<open>\<open>Vec::swap_remove(i)\<close>: the last element takes the place of the removed one.\<close>

definition swap_remove :: "nat \<Rightarrow> 'a list \<Rightarrow> 'a list" where
  "swap_remove i xs = butlast (xs[i := last xs])"

lemma position_None_iff: "position p xs = None \<longleftrightarrow> (\<forall>x\<in>set xs. \<not> p x)"
  by (induction xs) auto

lemma position_Some: "position p xs = Some i \<Longrightarrow> i < length xs \<and> p (xs ! i)"
  by (induction xs arbitrary: i) (auto split: if_splits)

lemma length_swap_remove [simp]: "length (swap_remove i xs) = length xs - 1"
  by (simp add: swap_remove_def)

lemma swap_remove_last: "swap_remove (length xs) (xs @ [x]) = xs"
  by (simp add: swap_remove_def)

lemma swap_remove_inner:
  "i < length xs \<Longrightarrow> swap_remove i (xs @ [x]) = xs[i := x]"
  by (simp add: swap_remove_def list_update_append)

lemma swap_remove_permutes:
  assumes "i < length xs"
  shows "mset (swap_remove i xs) = mset xs - {#xs ! i#}"
proof -
  from assms have "xs \<noteq> []" by auto
  then obtain ys y where xs: "xs = ys @ [y]" by (metis rev_exhaust)
  show ?thesis
  proof (cases "i < length ys")
    case True
    then show ?thesis
      by (simp add: xs swap_remove_inner nth_append mset_update)
  next
    case False
    with assms xs have "i = length ys" by simp
    then show ?thesis by (simp add: xs swap_remove_last)
  qed
qed

lemma set_swap_remove:
  assumes "distinct xs" "i < length xs"
  shows "set (swap_remove i xs) = set xs - {xs ! i}"
    and "distinct (swap_remove i xs)"
proof -
  have m: "mset (swap_remove i xs) = mset xs - {#xs ! i#}"
    using assms(2) by (rule swap_remove_permutes)
  have r: "mset (remove1 (xs ! i) xs) = mset (swap_remove i xs)"
    by (simp add: m)
  from assms(1) have "set (remove1 (xs ! i) xs) = set xs - {xs ! i}"
    by (rule set_remove1_eq)
  with r show "set (swap_remove i xs) = set xs - {xs ! i}"
    by (metis set_mset_mset)
  from assms(1) have "distinct (remove1 (xs ! i) xs)"
    by (rule distinct_remove1)
  with r show "distinct (swap_remove i xs)"
    by (metis mset_eq_imp_distinct_iff)
qed

section \<open>Counting\<close>

text \<open>A set of machine words in which one element comes or goes.\<close>

lemma card_change_one:
  assumes "\<And>k. k \<noteq> e \<Longrightarrow> k \<in> A' \<longleftrightarrow> k \<in> A"
  shows "card A' + of_bool (e \<in> A) = card A + of_bool (e \<in> (A' :: 'w::len word set))"
proof -
  from assms have "A' - {e} = A - {e}" by blast
  moreover have "card A = card (A - {e}) + of_bool (e \<in> A)"
    using card.remove [of A e] by (cases "e \<in> A") simp_all
  moreover have "card A' = card (A' - {e}) + of_bool (e \<in> A')"
    using card.remove [of A' e] by (cases "e \<in> A'") simp_all
  ultimately show ?thesis by simp
qed

end
