(* ===== verification/Borsh.thy ===== *)
theory Borsh
  imports Prelude
begin

text \<open>
  Serialisation. The \<open>borsh\<close> crate is not part of the repository: the codecs of its
  primitive types are a parameter, the record \<open>borsh\<close>, and the locale \<open>borsh_format\<close>
  states what its format documents (fixed widths, a byte for a \<open>u8\<close>, encode and decode
  inverse to each other). What the program writes with \<open>#[derive(BorshSerialize)]\<close> is
  built from them: fields in declaration order, a \<open>u32\<close> length before the elements of a
  \<open>Vec\<close>, the bare elements of an array.

  The locale \<open>codec\<close> is the contract of one codec with the size of its encoding; the
  combinators keep it, so each account layout inherits it.
\<close>

section \<open>Codecs\<close>

text \<open>\<open>enc\<close> is \<open>serialize\<close> (\<open>None\<close> for an I/O error); \<open>dec\<close> is \<open>deserialize\<close>: the value
  and the unread bytes.\<close>

record 'a codec =
  enc :: "'a \<Rightarrow> u8 list option"
  dec :: "u8 list \<Rightarrow> ('a \<times> u8 list) option"

locale codec =
  fixes c :: "'a codec" and size_of :: "'a \<Rightarrow> nat"
  assumes dec_enc: "enc c x = Some b \<Longrightarrow> dec c (b @ r) = Some (x, r)"
    and enc_dec: "dec c b = Some (x, r) \<Longrightarrow> \<exists>p. enc c x = Some p \<and> b = p @ r"
    and enc_size: "enc c x = Some b \<Longrightarrow> length b = size_of x"

text \<open>\<open>T::try_from_slice\<close> refuses trailing bytes; \<open>T::deserialize\<close> leaves them unread.\<close>

definition try_from_slice :: "'a codec \<Rightarrow> u8 list \<Rightarrow> 'a option" where
  "try_from_slice c bs = (case dec c bs of Some (x, []) \<Rightarrow> Some x | _ \<Rightarrow> None)"

definition deserialize :: "'a codec \<Rightarrow> u8 list \<Rightarrow> 'a option" where
  "deserialize c bs = map_option fst (dec c bs)"

lemma try_from_slice_Some_iff: "try_from_slice c bs = Some x \<longleftrightarrow> dec c bs = Some (x, [])"
  by (auto simp: try_from_slice_def split: option.splits list.splits)

lemma try_from_slice_deserialize: "try_from_slice c bs = Some x \<Longrightarrow> deserialize c bs = Some x"
  by (simp add: try_from_slice_Some_iff deserialize_def)

context codec
begin

lemma try_from_slice_enc: "enc c x = Some b \<Longrightarrow> try_from_slice c b = Some x"
  using dec_enc [of x b "[]"] by (simp add: try_from_slice_Some_iff)

lemma try_from_slice_iff: "try_from_slice c b = Some x \<longleftrightarrow> enc c x = Some b"
proof
  assume "try_from_slice c b = Some x"
  then have "dec c b = Some (x, [])" by (simp add: try_from_slice_Some_iff)
  then show "enc c x = Some b" by (auto dest: enc_dec)
next
  assume "enc c x = Some b"
  then show "try_from_slice c b = Some x" by (rule try_from_slice_enc)
qed

lemma try_from_slice_size: "try_from_slice c b = Some x \<Longrightarrow> length b = size_of x"
  by (simp add: try_from_slice_iff enc_size)

lemma deserialize_iff:
  "deserialize c b = Some x \<longleftrightarrow> (\<exists>p r. enc c x = Some p \<and> b = p @ r)"
  by (auto simp: deserialize_def dec_enc dest: enc_dec)

lemma deserialize_enc: "enc c x = Some b \<Longrightarrow> deserialize c (b @ r) = Some x"
  by (auto simp: deserialize_iff)

lemma enc_inj: "enc c x = Some b \<Longrightarrow> enc c y = Some b \<Longrightarrow> x = y"
  using dec_enc [of x b "[]"] dec_enc [of y b "[]"] by simp

end

section \<open>Combinators\<close>

text \<open>Two fields, one after the other.\<close>

definition pair_codec :: "'a codec \<Rightarrow> 'b codec \<Rightarrow> ('a \<times> 'b) codec" where
  "pair_codec c d = \<lparr>
     enc = (\<lambda>(x, y). do { p \<leftarrow> enc c x; q \<leftarrow> enc d y; Some (p @ q) }),
     dec = (\<lambda>bs. do { (x, r) \<leftarrow> dec c bs; (y, r') \<leftarrow> dec d r; Some ((x, y), r') })\<rparr>"

text \<open>The same bytes read as another type: a struct for the tuple of its fields.\<close>

definition map_codec :: "('a \<Rightarrow> 'b) \<Rightarrow> ('b \<Rightarrow> 'a) \<Rightarrow> 'a codec \<Rightarrow> 'b codec" where
  "map_codec f g c = \<lparr>
     enc = (\<lambda>y. enc c (g y)),
     dec = (\<lambda>bs. map_option (\<lambda>(x, r). (f x, r)) (dec c bs))\<rparr>"

text \<open>Elements without a length (an array), and with one (a \<open>Vec\<close>).\<close>

fun enc_elems :: "'a codec \<Rightarrow> 'a list \<Rightarrow> u8 list option" where
  "enc_elems c [] = Some []"
| "enc_elems c (x # xs) = do { p \<leftarrow> enc c x; q \<leftarrow> enc_elems c xs; Some (p @ q) }"

fun dec_elems :: "'a codec \<Rightarrow> nat \<Rightarrow> u8 list \<Rightarrow> ('a list \<times> u8 list) option" where
  "dec_elems c 0 bs = Some ([], bs)"
| "dec_elems c (Suc n) bs =
     do { (x, r) \<leftarrow> dec c bs; (xs, r') \<leftarrow> dec_elems c n r; Some (x # xs, r') }"

definition array_codec :: "nat \<Rightarrow> 'a codec \<Rightarrow> 'a list codec" where
  "array_codec n c = \<lparr>
     enc = (\<lambda>xs. if length xs = n then enc_elems c xs else None),
     dec = dec_elems c n\<rparr>"

definition vec_codec :: "u32 codec \<Rightarrow> 'a codec \<Rightarrow> 'a list codec" where
  "vec_codec l c = \<lparr>
     enc = (\<lambda>xs. if length xs < 2 ^ 32
                 then do { p \<leftarrow> enc l (of_nat (length xs)); q \<leftarrow> enc_elems c xs; Some (p @ q) }
                 else None),
     dec = (\<lambda>bs. do { (n, r) \<leftarrow> dec l bs; dec_elems c (unat n) r })\<rparr>"

lemma pair_codec_codec:
  assumes "codec c s" "codec d t"
  shows "codec (pair_codec c d) (\<lambda>(x, y). s x + t y)"
proof
  fix x b r
  assume "enc (pair_codec c d) x = Some b"
  then show "dec (pair_codec c d) (b @ r) = Some (x, r)"
    using codec.dec_enc [OF assms(1)] codec.dec_enc [OF assms(2)]
    by (auto simp: pair_codec_def bind_eq_Some_conv split: prod.splits)
next
  fix b x r
  assume "dec (pair_codec c d) b = Some (x, r)"
  then show "\<exists>p. enc (pair_codec c d) x = Some p \<and> b = p @ r"
    by (force simp: pair_codec_def bind_eq_Some_conv split: prod.splits
        dest: codec.enc_dec [OF assms(1)] codec.enc_dec [OF assms(2)])
next
  fix x b
  assume "enc (pair_codec c d) x = Some b"
  then show "length b = (case x of (x, y) \<Rightarrow> s x + t y)"
    using codec.enc_size [OF assms(1)] codec.enc_size [OF assms(2)]
    by (auto simp: pair_codec_def bind_eq_Some_conv split: prod.splits)
qed

lemma map_codec_codec:
  assumes "codec c s" and fg: "\<And>y. f (g y) = y" and gf: "\<And>x. g (f x) = x"
  shows "codec (map_codec f g c) (\<lambda>y. s (g y))"
proof
  fix y b r
  assume "enc (map_codec f g c) y = Some b"
  then show "dec (map_codec f g c) (b @ r) = Some (y, r)"
    using codec.dec_enc [OF assms(1)] by (simp add: map_codec_def fg)
next
  fix b y r
  assume "dec (map_codec f g c) b = Some (y, r)"
  then show "\<exists>p. enc (map_codec f g c) y = Some p \<and> b = p @ r"
    using codec.enc_dec [OF assms(1)] by (auto simp: map_codec_def gf)
next
  fix y b
  assume "enc (map_codec f g c) y = Some b"
  then show "length b = s (g y)"
    using codec.enc_size [OF assms(1)] by (simp add: map_codec_def)
qed

text \<open>The iso of a record and the tuple of its fields is only needed on one side when the
  tuple's side is a record too; both sides are given as equations.\<close>

lemma codec_size_cong: "codec c s \<Longrightarrow> (\<And>x. s x = t x) \<Longrightarrow> codec c t"
  by (simp add: codec_def)

lemma dec_enc_elems:
  assumes "codec c s"
  shows "enc_elems c xs = Some b \<Longrightarrow> dec_elems c (length xs) (b @ r) = Some (xs, r)"
  using codec.dec_enc [OF assms]
  by (induction xs arbitrary: b) (auto simp: bind_eq_Some_conv)

lemma enc_dec_elems:
  assumes "codec c s"
  shows "dec_elems c n b = Some (xs, r) \<Longrightarrow>
    length xs = n \<and> (\<exists>p. enc_elems c xs = Some p \<and> b = p @ r)"
proof (induction n arbitrary: b xs)
  case 0
  then show ?case by simp
next
  case (Suc n)
  then obtain x r' ys where x: "dec c b = Some (x, r')"
    and ys: "dec_elems c n r' = Some (ys, r)" and xs: "xs = x # ys"
    by (auto simp: bind_eq_Some_conv)
  from codec.enc_dec [OF assms x] Suc.IH [OF ys] xs show ?case
    by auto
qed

lemma enc_elems_size:
  assumes "codec c s"
  shows "enc_elems c xs = Some b \<Longrightarrow> length b = (\<Sum>x\<leftarrow>xs. s x)"
  using codec.enc_size [OF assms]
  by (induction xs arbitrary: b) (auto simp: bind_eq_Some_conv)

lemma array_codec_codec:
  assumes "codec c s"
  shows "codec (array_codec n c) (\<lambda>xs. \<Sum>x\<leftarrow>xs. s x)"
proof
  fix xs b r
  assume "enc (array_codec n c) xs = Some b"
  then show "dec (array_codec n c) (b @ r) = Some (xs, r)"
    by (auto simp: array_codec_def dec_enc_elems [OF assms] split: if_splits)
next
  fix b xs r
  assume "dec (array_codec n c) b = Some (xs, r)"
  then show "\<exists>p. enc (array_codec n c) xs = Some p \<and> b = p @ r"
    by (auto simp: array_codec_def dest: enc_dec_elems [OF assms])
next
  fix xs b
  assume "enc (array_codec n c) xs = Some b"
  then show "length b = (\<Sum>x\<leftarrow>xs. s x)"
    by (auto simp: array_codec_def enc_elems_size [OF assms] split: if_splits)
qed

text \<open>An array of \<open>n\<close> elements of a fixed width.\<close>

lemma array_codec_fixed:
  assumes "codec c (\<lambda>_. w)"
  shows "codec (array_codec n c) (\<lambda>_. n * w)"
  using array_codec_codec [OF assms, of n]
  unfolding codec_def by (auto simp: array_codec_def sum_list_triv split: if_splits)

lemma vec_codec_codec:
  assumes l: "codec l (\<lambda>_. 4)" and c: "codec c s"
  shows "codec (vec_codec l c) (\<lambda>xs. 4 + (\<Sum>x\<leftarrow>xs. s x))"
proof
  fix xs b r
  assume "enc (vec_codec l c) xs = Some b"
  then obtain p q where "length xs < 2 ^ 32" "enc l (of_nat (length xs)) = Some p"
    "enc_elems c xs = Some q" "b = p @ q"
    by (auto simp: vec_codec_def bind_eq_Some_conv split: if_splits)
  then show "dec (vec_codec l c) (b @ r) = Some (xs, r)"
    by (simp add: vec_codec_def codec.dec_enc [OF l] dec_enc_elems [OF c] unat_of_nat)
next
  fix b xs r
  assume "dec (vec_codec l c) b = Some (xs, r)"
  then obtain n r' where n: "dec l b = Some (n, r')" and xs: "dec_elems c (unat n) r' = Some (xs, r)"
    by (auto simp: vec_codec_def bind_eq_Some_conv)
  from enc_dec_elems [OF c xs] have len: "length xs = unat n" by blast
  then have "length xs < 2 ^ 32"
    using unat_less_2p [of n] by simp
  with codec.enc_dec [OF l n] enc_dec_elems [OF c xs] len
  show "\<exists>p. enc (vec_codec l c) xs = Some p \<and> b = p @ r"
    by (auto simp: vec_codec_def)
next
  fix xs b
  assume "enc (vec_codec l c) xs = Some b"
  then show "length b = 4 + (\<Sum>x\<leftarrow>xs. s x)"
    by (auto simp: vec_codec_def bind_eq_Some_conv codec.enc_size [OF l] enc_elems_size [OF c]
        split: if_splits)
qed

section \<open>Tagged layouts\<close>

text \<open>Every account begins with a tag byte, which the program also reads on its own.\<close>

locale tagged_codec = codec +
  fixes tag_of :: "'a \<Rightarrow> u8"
  assumes enc_tag: "enc c x = Some b \<Longrightarrow> \<exists>r. b = tag_of x # r"
begin

lemma try_from_slice_tag: "try_from_slice c b = Some x \<Longrightarrow> \<exists>r. b = tag_of x # r"
  by (simp add: try_from_slice_iff enc_tag)

lemma deserialize_tag: "deserialize c b = Some x \<Longrightarrow> \<exists>r. b = tag_of x # r"
  by (auto simp: deserialize_iff dest: enc_tag)

lemma deserialize_Nil [simp]: "deserialize c [] = None"
  using deserialize_tag [of "[]"] by (cases "deserialize c []") auto

lemma try_from_slice_Nil [simp]: "try_from_slice c [] = None"
  using try_from_slice_tag [of "[]"] by (cases "try_from_slice c []") auto

end

section \<open>The primitive codecs\<close>

text \<open>A \<open>Pubkey\<close> is a \<open>[u8; 32]\<close>; it is the 256-bit number with these bytes, lowest first,
  and \<open>as_ref\<close> gives the bytes back.\<close>

type_synonym pubkey = "256 word"

definition as_ref :: "pubkey \<Rightarrow> u8 list" where
  "as_ref k = le_bytes 32 (unat k)"

text \<open>\<open>Pubkey::from\<close> of 32 bytes.\<close>

definition pubkey_from :: "u8 list \<Rightarrow> pubkey" where
  "pubkey_from bs = of_nat (of_le_bytes bs)"

lemma length_as_ref [simp]: "length (as_ref k) = 32"
  by (simp add: as_ref_def)

lemma pubkey_from_as_ref [simp]: "pubkey_from (as_ref k) = k"
proof -
  have "unat k < 256 ^ 32" using unat_less_2p [of k] by simp
  then show ?thesis
    by (simp add: pubkey_from_def as_ref_def of_le_bytes_le_bytes)
qed

lemma as_ref_pubkey_from: "length bs = 32 \<Longrightarrow> as_ref (pubkey_from bs) = bs"
  using of_le_bytes_less [of bs] le_bytes_of_le_bytes [of bs]
  by (simp add: pubkey_from_def as_ref_def unat_of_nat)

lemma as_ref_inj [simp]: "as_ref k = as_ref k' \<longleftrightarrow> k = k'"
  by (metis pubkey_from_as_ref)

record borsh =
  b_u8 :: "u8 codec"
  b_u16 :: "u16 codec"
  b_u32 :: "u32 codec"
  b_u64 :: "u64 codec"
  b_i64 :: "i64 codec"
  b_bool :: "bool codec"
  b_key :: "pubkey codec"

text \<open>What the format documents of them. A \<open>u8\<close> is its own byte; every value of a fixed
  width can be written.\<close>

locale borsh_format =
  fixes B :: borsh
  assumes u8: "codec (b_u8 B) (\<lambda>_. 1)"
    and u16: "codec (b_u16 B) (\<lambda>_. 2)"
    and u32: "codec (b_u32 B) (\<lambda>_. 4)"
    and u64: "codec (b_u64 B) (\<lambda>_. 8)"
    and i64: "codec (b_i64 B) (\<lambda>_. 8)"
    and bool: "codec (b_bool B) (\<lambda>_. 1)"
    and pkey: "codec (b_key B) (\<lambda>_. 32)"
    and enc_u8: "enc (b_u8 B) x = Some [x]"
    and enc_u16: "enc (b_u16 B) x2 \<noteq> None"
    and enc_u32: "enc (b_u32 B) x4 \<noteq> None"
    and enc_u64: "enc (b_u64 B) x8 \<noteq> None"
    and enc_i64: "enc (b_i64 B) y8 \<noteq> None"
    and enc_bool: "enc (b_bool B) t \<noteq> None"
    and enc_key: "enc (b_key B) k \<noteq> None"

text \<open>Values that can be written: every part can.\<close>

lemma pair_codec_encodes:
  "enc (pair_codec c d) (x, y) \<noteq> None \<longleftrightarrow> enc c x \<noteq> None \<and> enc d y \<noteq> None"
  by (auto simp: pair_codec_def bind_eq_Some_conv)

lemma map_codec_encodes: "enc (map_codec f g c) y \<noteq> None \<longleftrightarrow> enc c (g y) \<noteq> None"
  by (simp add: map_codec_def)

lemma enc_elems_encodes: "enc_elems c xs \<noteq> None \<longleftrightarrow> (\<forall>x\<in>set xs. enc c x \<noteq> None)"
  by (induction xs) (auto simp: bind_eq_Some_conv)

lemma array_codec_encodes:
  "enc (array_codec n c) xs \<noteq> None \<longleftrightarrow> length xs = n \<and> (\<forall>x\<in>set xs. enc c x \<noteq> None)"
  using enc_elems_encodes [of c xs] by (simp add: array_codec_def)

lemma vec_codec_encodes:
  "enc (vec_codec l c) xs \<noteq> None \<longleftrightarrow>
     length xs < 2 ^ 32 \<and> enc l (of_nat (length xs)) \<noteq> None \<and> (\<forall>x\<in>set xs. enc c x \<noteq> None)"
  using enc_elems_encodes [of c xs] by (auto simp: vec_codec_def bind_eq_Some_conv)

lemmas encodes = pair_codec_encodes map_codec_encodes array_codec_encodes vec_codec_encodes

section \<open>The reference format\<close>

text \<open>
  The format of the Borsh specification, as a concrete value of the parameter:
  little-endian integers, \<open>0\<close> or \<open>1\<close> for a \<open>bool\<close>, the 32 bytes of a key.
\<close>

definition take_bytes :: "nat \<Rightarrow> u8 list \<Rightarrow> (u8 list \<times> u8 list) option" where
  "take_bytes n bs = (if n \<le> length bs then Some (take n bs, drop n bs) else None)"

definition uint_codec :: "nat \<Rightarrow> 'w::len word codec" where
  "uint_codec n = \<lparr>
     enc = (\<lambda>x. Some (le_bytes n (unat x))),
     dec = (\<lambda>bs. map_option (\<lambda>(p, r). (of_nat (of_le_bytes p), r)) (take_bytes n bs))\<rparr>"

definition bool_codec :: "bool codec" where
  "bool_codec = \<lparr>
     enc = (\<lambda>t. Some [if t then 1 else 0]),
     dec = (\<lambda>bs. case bs of [] \<Rightarrow> None
            | b # r \<Rightarrow> if b = 0 then Some (False, r) else if b = 1 then Some (True, r) else None)\<rparr>"

definition ref_borsh :: borsh where
  "ref_borsh = \<lparr>b_u8 = uint_codec 1, b_u16 = uint_codec 2, b_u32 = uint_codec 4,
     b_u64 = uint_codec 8, b_i64 = uint_codec 8, b_bool = bool_codec, b_key = uint_codec 32\<rparr>"

lemma uint_codec_codec:
  assumes "LENGTH('w::len) = 8 * n"
  shows "codec (uint_codec n :: 'w word codec) (\<lambda>_. n)"
proof -
  have pow: "(256::nat) ^ n = 2 ^ LENGTH('w)"
    by (simp add: assms power_mult)
  show ?thesis
  proof
    fix x :: "'w word" and b r
    assume "enc (uint_codec n) x = Some b"
    then show "dec (uint_codec n) (b @ r) = Some (x, r)"
      by (auto simp: uint_codec_def take_bytes_def of_le_bytes_le_bytes pow)
  next
    fix b r and x :: "'w word"
    assume "dec (uint_codec n) b = Some (x, r)"
    then have n: "n \<le> length b" and x: "x = of_nat (of_le_bytes (take n b))" and r: "r = drop n b"
      by (auto simp: uint_codec_def take_bytes_def split: if_splits)
    from n have len: "length (take n b) = n" by simp
    with of_le_bytes_less [of "take n b"] have "of_le_bytes (take n b) < 2 ^ LENGTH('w)"
      by (metis pow)
    then have "unat x = of_le_bytes (take n b)"
      by (simp add: x unat_of_nat)
    moreover have "le_bytes n (of_le_bytes (take n b)) = take n b"
      using le_bytes_of_le_bytes [of "take n b"] len by metis
    ultimately show "\<exists>p. enc (uint_codec n) x = Some p \<and> b = p @ r"
      by (simp add: uint_codec_def r)
  next
    fix x :: "'w word" and b
    assume "enc (uint_codec n) x = Some b"
    then show "length b = n"
      by (auto simp: uint_codec_def)
  qed
qed

lemma bool_codec_codec: "codec bool_codec (\<lambda>_. 1)"
  by standard (auto simp: bool_codec_def split: list.splits if_splits)

lemma ref_borsh_simps [simp]:
  "b_u8 ref_borsh = uint_codec 1" "b_u16 ref_borsh = uint_codec 2"
  "b_u32 ref_borsh = uint_codec 4" "b_u64 ref_borsh = uint_codec 8"
  "b_i64 ref_borsh = uint_codec 8" "b_bool ref_borsh = bool_codec"
  "b_key ref_borsh = uint_codec 32"
  by (simp_all add: ref_borsh_def)

lemma enc_uint_codec: "enc (uint_codec n) x = Some (le_bytes n (unat x))"
  by (simp add: uint_codec_def)

interpretation ref_format: borsh_format ref_borsh
proof (rule borsh_format.intro, unfold ref_borsh_simps)
  show "enc (uint_codec 1) x = Some [x]" for x :: u8
    using unat_u8_less [of x] by (simp add: enc_uint_codec)
  show "enc bool_codec t \<noteq> None" for t
    by (simp add: bool_codec_def)
qed ((rule bool_codec_codec | rule uint_codec_codec, simp | simp add: enc_uint_codec)+)

end
