(* ===== verification/Layout.thy ===== *)
theory Layout
  imports Borsh
begin

text \<open>
  \<open>src/state/constants.rs\<close>, \<open>src/state/accounts.rs\<close> and the stored shapes of
  \<open>src/content/mod.rs\<close>: the constants, the account structs with their \<open>size()\<close> helpers, and
  the codec each struct derives. Inside \<open>borsh_format\<close> each codec meets the \<open>codec\<close>
  contract with exactly the size the helper computes, so an account created with that size
  holds its struct.
\<close>

section \<open>Constants\<close>

definition TAG_CONTENT :: u8 where "TAG_CONTENT = 1"
definition TAG_ALLOC :: u8 where "TAG_ALLOC = 2"
definition TAG_THREAD :: u8 where "TAG_THREAD = 3"
definition TAG_SETTINGS :: u8 where "TAG_SETTINGS = 5"
definition TAG_ACCESS :: u8 where "TAG_ACCESS = 6"
definition TAG_LIKES :: u8 where "TAG_LIKES = 7"
definition TAG_ACCESS_ENTRY :: u8 where "TAG_ACCESS_ENTRY = 9"
definition TAG_FOLLOW_REGISTRY :: u8 where "TAG_FOLLOW_REGISTRY = 10"
definition TAG_FOLLOWER_SHARD :: u8 where "TAG_FOLLOWER_SHARD = 11"

definition ACCESS_ALLOWED :: u8 where "ACCESS_ALLOWED = 0"
definition ACCESS_DENIED :: u8 where "ACCESS_DENIED = 1"
definition ACCESS_FEE_EXEMPT :: u8 where "ACCESS_FEE_EXEMPT = 2"

definition MAX_TITLE_LEN :: nat where "MAX_TITLE_LEN = 64"
definition N_TREASURY_SHARDS :: u16 where "N_TREASURY_SHARDS = 512"
definition N_AUTHOR_FEE_SHARDS :: u8 where "N_AUTHOR_FEE_SHARDS = 4"
definition N_FOLLOWER_SHARDS :: u8 where "N_FOLLOWER_SHARDS = 8"
definition MAX_FOLLOWS :: nat where "MAX_FOLLOWS = 1000"
definition MAX_FEE_CUT_BPS :: u32 where "MAX_FEE_CUT_BPS = 5000"

definition CONTENT_SLOTS :: nat where "CONTENT_SLOTS = 32"
definition MAX_BODY_LEN :: nat where "MAX_BODY_LEN = 8192"

lemmas tag_defs = TAG_CONTENT_def TAG_ALLOC_def TAG_THREAD_def TAG_SETTINGS_def TAG_ACCESS_def
  TAG_LIKES_def TAG_ACCESS_ENTRY_def TAG_FOLLOW_REGISTRY_def TAG_FOLLOWER_SHARD_def

lemmas status_defs = ACCESS_ALLOWED_def ACCESS_DENIED_def ACCESS_FEE_EXEMPT_def

text \<open>The byte-string seeds \<open>b"..."\<close>.\<close>

definition bytes_of :: "string \<Rightarrow> u8 list" where
  "bytes_of s = map (\<lambda>c. of_nat (of_char c)) s"

definition SETTINGS_SEED :: "u8 list" where "SETTINGS_SEED = bytes_of ''settings''"
definition ALLOC_SEED :: "u8 list" where "ALLOC_SEED = bytes_of ''alloc''"
definition ACCESS_SEED :: "u8 list" where "ACCESS_SEED = bytes_of ''access''"
definition ACL_SEED :: "u8 list" where "ACL_SEED = bytes_of ''acl''"
definition LIKES_SEED :: "u8 list" where "LIKES_SEED = bytes_of ''likes''"
definition TREASURY_SHARD_SEED :: "u8 list" where
  "TREASURY_SHARD_SEED = bytes_of ''treasury_shard''"
definition AUTHOR_FEE_SEED :: "u8 list" where "AUTHOR_FEE_SEED = bytes_of ''author_fee''"
definition FOLLOWS_SEED :: "u8 list" where "FOLLOWS_SEED = bytes_of ''follows''"
definition FOLLOWER_COUNT_SEED :: "u8 list" where
  "FOLLOWER_COUNT_SEED = bytes_of ''follower_count''"
definition CONTENT_SEED :: "u8 list" where "CONTENT_SEED = bytes_of ''content''"

section \<open>Account structs\<close>

record alloc_node =
  an_tag :: u8
  an_thread :: pubkey
  an_alloc_seq :: u32

definition AllocNode_size :: "nat" where
  "AllocNode_size = 1 + 32 + 4"

record thread_node =
  tn_tag :: u8
  tn_alloc_count :: u32
  tn_last_alloc_seq :: u32
  tn_author :: pubkey
  tn_message_fee :: u64
  tn_like_fee :: u64
  tn_title :: "u8 list"

definition ThreadNode_size :: "nat \<Rightarrow> nat" where
  "ThreadNode_size title_len = 1 + 4 + 4 + 32 + 8 + 8 + 4 + title_len"

record program_settings =
  ps_tag :: u8
  ps_admin :: pubkey
  ps_treasury :: pubkey
  ps_base_fee_bps :: u32
  ps_author_fee_cut_bps :: u32
  ps_entry_cut_bps :: u32
  ps_like_cut_bps :: u32

definition ProgramSettings_size :: "nat" where
  "ProgramSettings_size = 1 + 32 + 32 + 4 * 4"

record thread_access =
  ta_tag :: u8
  ta_thread :: pubkey
  ta_enabled :: bool
  ta_admin :: pubkey
  ta_entry_fee :: u64
  ta_whitelist_count :: u32

definition ThreadAccess_size :: "nat" where
  "ThreadAccess_size = 1 + 32 + 1 + 32 + 8 + 4"

record access_entry =
  ae_tag :: u8
  ae_thread :: pubkey
  ae_wallet :: pubkey
  ae_status :: u8

definition AccessEntry_size :: "nat" where
  "AccessEntry_size = 1 + 32 + 32 + 1"

record alloc_likes =
  al_tag :: u8
  al_alloc_seq :: u32
  al_counts :: "u32 list"

definition AllocLikes_size :: "nat" where
  "AllocLikes_size = 1 + 4 + 4 * CONTENT_SLOTS"

record follow_registry =
  fr_tag :: u8
  fr_owner :: pubkey
  fr_channels :: "pubkey list"

definition FollowRegistry_size :: "nat \<Rightarrow> nat" where
  "FollowRegistry_size channel_count = 1 + 32 + 4 + channel_count * 32"

record follower_shard =
  fs_tag :: u8
  fs_thread :: pubkey
  fs_shard :: u8
  fs_count :: u64

definition FollowerShard_size :: "nat" where
  "FollowerShard_size = 1 + 32 + 1 + 8"

record candidate_slot =
  cs_alloc_seq :: u32
  cs_slot :: u8

record content_header =
  ch_tag :: u8
  ch_alloc_seq :: u32
  ch_slot :: u8
  ch_thread :: pubkey
  ch_author :: pubkey
  ch_created_at :: i64
  ch_reply_alloc_seq :: u32
  ch_reply_slot :: u8

definition ContentHeader_SIZE :: "nat" where
  "ContentHeader_SIZE = 1 + 4 + 1 + 32 + 32 + 8 + 4 + 1"

record content_node =
  cn_header :: content_header
  cn_kind :: u16
  cn_body :: "u8 list"

definition ContentNode_size :: "nat \<Rightarrow> nat" where
  "ContentNode_size body_len = ContentHeader_SIZE + 2 + 4 + body_len"

lemmas size_defs = AllocNode_size_def ThreadNode_size_def ProgramSettings_size_def
  ThreadAccess_size_def AccessEntry_size_def AllocLikes_size_def FollowRegistry_size_def
  FollowerShard_size_def ContentHeader_SIZE_def ContentNode_size_def CONTENT_SLOTS_def

lemmas layout_run [run_simps] = size_defs MAX_TITLE_LEN_def N_TREASURY_SHARDS_def
  N_AUTHOR_FEE_SHARDS_def N_FOLLOWER_SHARDS_def MAX_FOLLOWS_def MAX_FEE_CUT_BPS_def
  MAX_BODY_LEN_def tag_defs status_defs

section \<open>The derived codecs\<close>

text \<open>Each struct is the tuple of its fields, encoded in declaration order.\<close>

definition alloc_node_codec :: "borsh \<Rightarrow> alloc_node codec" where
  "alloc_node_codec B = map_codec
     (\<lambda>(x0, x1, x2). \<lparr>an_tag = x0, an_thread = x1, an_alloc_seq = x2\<rparr>)
     (\<lambda>x. (an_tag x, an_thread x, an_alloc_seq x))
     (pair_codec (b_u8 B)
        (pair_codec (b_key B) (b_u32 B)))"

definition thread_node_codec :: "borsh \<Rightarrow> thread_node codec" where
  "thread_node_codec B = map_codec
     (\<lambda>(x0, x1, x2, x3, x4, x5, x6). \<lparr>tn_tag = x0, tn_alloc_count = x1, tn_last_alloc_seq = x2, tn_author = x3, tn_message_fee = x4, tn_like_fee = x5, tn_title = x6\<rparr>)
     (\<lambda>x. (tn_tag x, tn_alloc_count x, tn_last_alloc_seq x, tn_author x, tn_message_fee x, tn_like_fee x, tn_title x))
     (pair_codec (b_u8 B)
        (pair_codec (b_u32 B)
        (pair_codec (b_u32 B)
        (pair_codec (b_key B)
        (pair_codec (b_u64 B)
        (pair_codec (b_u64 B) (vec_codec (b_u32 B) (b_u8 B))))))))"

definition program_settings_codec :: "borsh \<Rightarrow> program_settings codec" where
  "program_settings_codec B = map_codec
     (\<lambda>(x0, x1, x2, x3, x4, x5, x6). \<lparr>ps_tag = x0, ps_admin = x1, ps_treasury = x2, ps_base_fee_bps = x3, ps_author_fee_cut_bps = x4, ps_entry_cut_bps = x5, ps_like_cut_bps = x6\<rparr>)
     (\<lambda>x. (ps_tag x, ps_admin x, ps_treasury x, ps_base_fee_bps x, ps_author_fee_cut_bps x, ps_entry_cut_bps x, ps_like_cut_bps x))
     (pair_codec (b_u8 B)
        (pair_codec (b_key B)
        (pair_codec (b_key B)
        (pair_codec (b_u32 B)
        (pair_codec (b_u32 B)
        (pair_codec (b_u32 B) (b_u32 B)))))))"

definition thread_access_codec :: "borsh \<Rightarrow> thread_access codec" where
  "thread_access_codec B = map_codec
     (\<lambda>(x0, x1, x2, x3, x4, x5). \<lparr>ta_tag = x0, ta_thread = x1, ta_enabled = x2, ta_admin = x3, ta_entry_fee = x4, ta_whitelist_count = x5\<rparr>)
     (\<lambda>x. (ta_tag x, ta_thread x, ta_enabled x, ta_admin x, ta_entry_fee x, ta_whitelist_count x))
     (pair_codec (b_u8 B)
        (pair_codec (b_key B)
        (pair_codec (b_bool B)
        (pair_codec (b_key B)
        (pair_codec (b_u64 B) (b_u32 B))))))"

definition access_entry_codec :: "borsh \<Rightarrow> access_entry codec" where
  "access_entry_codec B = map_codec
     (\<lambda>(x0, x1, x2, x3). \<lparr>ae_tag = x0, ae_thread = x1, ae_wallet = x2, ae_status = x3\<rparr>)
     (\<lambda>x. (ae_tag x, ae_thread x, ae_wallet x, ae_status x))
     (pair_codec (b_u8 B)
        (pair_codec (b_key B)
        (pair_codec (b_key B) (b_u8 B))))"

definition alloc_likes_codec :: "borsh \<Rightarrow> alloc_likes codec" where
  "alloc_likes_codec B = map_codec
     (\<lambda>(x0, x1, x2). \<lparr>al_tag = x0, al_alloc_seq = x1, al_counts = x2\<rparr>)
     (\<lambda>x. (al_tag x, al_alloc_seq x, al_counts x))
     (pair_codec (b_u8 B)
        (pair_codec (b_u32 B) (array_codec CONTENT_SLOTS (b_u32 B))))"

definition follow_registry_codec :: "borsh \<Rightarrow> follow_registry codec" where
  "follow_registry_codec B = map_codec
     (\<lambda>(x0, x1, x2). \<lparr>fr_tag = x0, fr_owner = x1, fr_channels = x2\<rparr>)
     (\<lambda>x. (fr_tag x, fr_owner x, fr_channels x))
     (pair_codec (b_u8 B)
        (pair_codec (b_key B) (vec_codec (b_u32 B) (b_key B))))"

definition follower_shard_codec :: "borsh \<Rightarrow> follower_shard codec" where
  "follower_shard_codec B = map_codec
     (\<lambda>(x0, x1, x2, x3). \<lparr>fs_tag = x0, fs_thread = x1, fs_shard = x2, fs_count = x3\<rparr>)
     (\<lambda>x. (fs_tag x, fs_thread x, fs_shard x, fs_count x))
     (pair_codec (b_u8 B)
        (pair_codec (b_key B)
        (pair_codec (b_u8 B) (b_u64 B))))"

definition candidate_slot_codec :: "borsh \<Rightarrow> candidate_slot codec" where
  "candidate_slot_codec B = map_codec
     (\<lambda>(x0, x1). \<lparr>cs_alloc_seq = x0, cs_slot = x1\<rparr>)
     (\<lambda>x. (cs_alloc_seq x, cs_slot x))
     (pair_codec (b_u32 B) (b_u8 B))"

definition content_header_codec :: "borsh \<Rightarrow> content_header codec" where
  "content_header_codec B = map_codec
     (\<lambda>(x0, x1, x2, x3, x4, x5, x6, x7). \<lparr>ch_tag = x0, ch_alloc_seq = x1, ch_slot = x2, ch_thread = x3, ch_author = x4, ch_created_at = x5, ch_reply_alloc_seq = x6, ch_reply_slot = x7\<rparr>)
     (\<lambda>x. (ch_tag x, ch_alloc_seq x, ch_slot x, ch_thread x, ch_author x, ch_created_at x, ch_reply_alloc_seq x, ch_reply_slot x))
     (pair_codec (b_u8 B)
        (pair_codec (b_u32 B)
        (pair_codec (b_u8 B)
        (pair_codec (b_key B)
        (pair_codec (b_key B)
        (pair_codec (b_i64 B)
        (pair_codec (b_u32 B) (b_u8 B))))))))"

definition content_node_codec :: "borsh \<Rightarrow> content_node codec" where
  "content_node_codec B = map_codec
     (\<lambda>(x0, x1, x2). \<lparr>cn_header = x0, cn_kind = x1, cn_body = x2\<rparr>)
     (\<lambda>x. (cn_header x, cn_kind x, cn_body x))
     (pair_codec (content_header_codec B)
        (pair_codec (b_u16 B) (vec_codec (b_u32 B) (b_u8 B))))"

lemmas codec_defs =
  alloc_node_codec_def
  thread_node_codec_def
  program_settings_codec_def
  thread_access_codec_def
  access_entry_codec_def
  alloc_likes_codec_def
  follow_registry_codec_def
  follower_shard_codec_def
  candidate_slot_codec_def
  content_header_codec_def
  content_node_codec_def

text \<open>A codec of a struct whose fields are the components of a tuple.\<close>

lemma struct_codec:
  assumes "codec c s" "\<And>y. f (g y) = y" "\<And>x. g (f x) = x" "\<And>y. s (g y) = t y"
  shows "codec (map_codec f g c) t"
  using map_codec_codec [OF assms(1), of f g] assms(2-4) by (auto intro: codec_size_cong)

lemmas field_codecs = pair_codec_codec vec_codec_codec array_codec_codec

context borsh_format
begin

lemmas prims = u8 u16 u32 u64 i64 bool pkey

lemma vec_u8_codec: "codec (vec_codec (b_u32 B) (b_u8 B)) (\<lambda>xs. 4 + length xs)"
  by (rule codec_size_cong [OF vec_codec_codec [OF u32 u8]]) (simp add: sum_list_triv)

lemma vec_key_codec: "codec (vec_codec (b_u32 B) (b_key B)) (\<lambda>xs. 4 + length xs * 32)"
  by (rule codec_size_cong [OF vec_codec_codec [OF u32 pkey]]) (simp add: sum_list_triv)

lemma alloc_node_codec_ok: "codec (alloc_node_codec B) (\<lambda>_. AllocNode_size)"
  unfolding alloc_node_codec_def
  by (rule struct_codec,
      (rule pair_codec_codec prims vec_u8_codec vec_key_codec)+)
    (auto simp: size_defs)

lemma thread_node_codec_ok: "codec (thread_node_codec B) (\<lambda>x. ThreadNode_size (length (tn_title x)))"
  unfolding thread_node_codec_def
  by (rule struct_codec,
      (rule pair_codec_codec prims vec_u8_codec vec_key_codec)+)
    (auto simp: size_defs)

lemma program_settings_codec_ok: "codec (program_settings_codec B) (\<lambda>_. ProgramSettings_size)"
  unfolding program_settings_codec_def
  by (rule struct_codec,
      (rule pair_codec_codec prims vec_u8_codec vec_key_codec)+)
    (auto simp: size_defs)

lemma thread_access_codec_ok: "codec (thread_access_codec B) (\<lambda>_. ThreadAccess_size)"
  unfolding thread_access_codec_def
  by (rule struct_codec,
      (rule pair_codec_codec prims vec_u8_codec vec_key_codec)+)
    (auto simp: size_defs)

lemma access_entry_codec_ok: "codec (access_entry_codec B) (\<lambda>_. AccessEntry_size)"
  unfolding access_entry_codec_def
  by (rule struct_codec,
      (rule pair_codec_codec prims vec_u8_codec vec_key_codec)+)
    (auto simp: size_defs)

lemma follow_registry_codec_ok: "codec (follow_registry_codec B) (\<lambda>x. FollowRegistry_size (length (fr_channels x)))"
  unfolding follow_registry_codec_def
  by (rule struct_codec,
      (rule pair_codec_codec prims vec_u8_codec vec_key_codec)+)
    (auto simp: size_defs)

lemma follower_shard_codec_ok: "codec (follower_shard_codec B) (\<lambda>_. FollowerShard_size)"
  unfolding follower_shard_codec_def
  by (rule struct_codec,
      (rule pair_codec_codec prims vec_u8_codec vec_key_codec)+)
    (auto simp: size_defs)

lemma candidate_slot_codec_ok: "codec (candidate_slot_codec B) (\<lambda>_. 5)"
  unfolding candidate_slot_codec_def
  by (rule struct_codec,
      (rule pair_codec_codec prims vec_u8_codec vec_key_codec)+)
    (auto simp: size_defs)

lemma content_header_codec_ok: "codec (content_header_codec B) (\<lambda>_. ContentHeader_SIZE)"
  unfolding content_header_codec_def
  by (rule struct_codec,
      (rule pair_codec_codec prims vec_u8_codec vec_key_codec)+)
    (auto simp: size_defs)

lemma content_node_codec_ok: "codec (content_node_codec B) (\<lambda>x. ContentNode_size (length (cn_body x)))"
  unfolding content_node_codec_def
  by (rule struct_codec,
      (rule pair_codec_codec prims vec_u8_codec vec_key_codec content_header_codec_ok)+)
    (auto simp: size_defs)

lemma counts_codec: "codec (array_codec CONTENT_SLOTS (b_u32 B)) (\<lambda>_. 4 * CONTENT_SLOTS)"
  by (rule codec_size_cong [OF array_codec_fixed [OF u32]]) simp

lemma alloc_likes_codec_ok: "codec (alloc_likes_codec B) (\<lambda>_. AllocLikes_size)"
  unfolding alloc_likes_codec_def
  by (rule struct_codec, (rule pair_codec_codec prims counts_codec)+) (auto simp: size_defs)

text \<open>The tag is the first byte.\<close>

lemma enc_tag_first:
  "enc (pair_codec (b_u8 B) c) (t, y) = Some b \<Longrightarrow> \<exists>r. b = t # r"
  by (auto simp: pair_codec_def enc_u8 bind_eq_Some_conv)

lemma struct_tagged:
  assumes "codec (map_codec f g (pair_codec (b_u8 B) c)) s" "\<And>x. fst (g x) = tag_of x"
  shows "tagged_codec (map_codec f g (pair_codec (b_u8 B) c)) s tag_of"
proof (intro tagged_codec.intro assms(1) tagged_codec_axioms.intro)
  fix x b
  assume "enc (map_codec f g (pair_codec (b_u8 B) c)) x = Some b"
  then show "\<exists>r. b = tag_of x # r"
    using enc_tag_first [of c "fst (g x)" "snd (g x)" b] assms(2) [of x]
    by (cases "g x") (simp add: map_codec_def)
qed

end

text \<open>Every account layout meets the contract, with the size its \<open>size()\<close> helper returns.\<close>

sublocale borsh_format \<subseteq> alloc: tagged_codec "alloc_node_codec B" "\<lambda>_. AllocNode_size" an_tag
  using alloc_node_codec_ok unfolding alloc_node_codec_def by (rule struct_tagged) simp

sublocale borsh_format \<subseteq> thread:
  tagged_codec "thread_node_codec B" "\<lambda>x. ThreadNode_size (length (tn_title x))" tn_tag
  using thread_node_codec_ok unfolding thread_node_codec_def by (rule struct_tagged) simp

sublocale borsh_format \<subseteq> settings:
  tagged_codec "program_settings_codec B" "\<lambda>_. ProgramSettings_size" ps_tag
  using program_settings_codec_ok unfolding program_settings_codec_def by (rule struct_tagged) simp

sublocale borsh_format \<subseteq> access:
  tagged_codec "thread_access_codec B" "\<lambda>_. ThreadAccess_size" ta_tag
  using thread_access_codec_ok unfolding thread_access_codec_def by (rule struct_tagged) simp

sublocale borsh_format \<subseteq> entry:
  tagged_codec "access_entry_codec B" "\<lambda>_. AccessEntry_size" ae_tag
  using access_entry_codec_ok unfolding access_entry_codec_def by (rule struct_tagged) simp

sublocale borsh_format \<subseteq> likes: tagged_codec "alloc_likes_codec B" "\<lambda>_. AllocLikes_size" al_tag
  using alloc_likes_codec_ok unfolding alloc_likes_codec_def by (rule struct_tagged) simp

sublocale borsh_format \<subseteq> registry: tagged_codec "follow_registry_codec B"
    "\<lambda>x. FollowRegistry_size (length (fr_channels x))" fr_tag
  using follow_registry_codec_ok unfolding follow_registry_codec_def by (rule struct_tagged) simp

sublocale borsh_format \<subseteq> shard:
  tagged_codec "follower_shard_codec B" "\<lambda>_. FollowerShard_size" fs_tag
  using follower_shard_codec_ok unfolding follower_shard_codec_def by (rule struct_tagged) simp

sublocale borsh_format \<subseteq> header:
  tagged_codec "content_header_codec B" "\<lambda>_. ContentHeader_SIZE" ch_tag
  using content_header_codec_ok unfolding content_header_codec_def by (rule struct_tagged) simp

sublocale borsh_format \<subseteq> content: tagged_codec "content_node_codec B"
    "\<lambda>x. ContentNode_size (length (cn_body x))" "\<lambda>x. ch_tag (cn_header x)"
proof (rule tagged_codec.intro [OF content_node_codec_ok], rule tagged_codec_axioms.intro)
  fix x b
  assume "enc (content_node_codec B) x = Some b"
  then obtain p q where "enc (content_header_codec B) (cn_header x) = Some p" "b = p @ q"
    by (auto simp: content_node_codec_def map_codec_def pair_codec_def bind_eq_Some_conv)
  then show "\<exists>r. b = ch_tag (cn_header x) # r"
    using header.enc_tag by fastforce
qed

context borsh_format
begin

text \<open>What can be written: every struct of fixed-width fields, and the others while their
  vectors are shorter than a \<open>u32\<close> counts.\<close>

lemma encodable:
  "enc (alloc_node_codec B) a \<noteq> None"
  "enc (program_settings_codec B) s \<noteq> None"
  "enc (thread_access_codec B) t \<noteq> None"
  "enc (access_entry_codec B) e \<noteq> None"
  "enc (follower_shard_codec B) f \<noteq> None"
  "enc (content_header_codec B) h \<noteq> None"
  unfolding codec_defs encodes using enc_u8 enc_u16 enc_u32 enc_u64 enc_i64 enc_bool enc_key
  by simp_all

lemma encodable_iff:
  "enc (thread_node_codec B) n \<noteq> None \<longleftrightarrow> length (tn_title n) < 2 ^ 32"
  "enc (follow_registry_codec B) r \<noteq> None \<longleftrightarrow> length (fr_channels r) < 2 ^ 32"
  "enc (alloc_likes_codec B) l \<noteq> None \<longleftrightarrow> length (al_counts l) = CONTENT_SLOTS"
  "enc (content_node_codec B) m \<noteq> None \<longleftrightarrow> length (cn_body m) < 2 ^ 32"
proof -
  note prim = enc_u8 enc_u16 enc_u32 enc_u64 enc_i64 enc_bool enc_key
  show "enc (thread_node_codec B) n \<noteq> None \<longleftrightarrow> length (tn_title n) < 2 ^ 32"
    "enc (follow_registry_codec B) r \<noteq> None \<longleftrightarrow> length (fr_channels r) < 2 ^ 32"
    "enc (alloc_likes_codec B) l \<noteq> None \<longleftrightarrow> length (al_counts l) = CONTENT_SLOTS"
    unfolding codec_defs encodes using prim by simp_all
  show "enc (content_node_codec B) m \<noteq> None \<longleftrightarrow> length (cn_body m) < 2 ^ 32"
    unfolding content_node_codec_def encodes using prim encodable(6) by simp
qed

end

end
