(* ===== verification/Instruction.thy ===== *)
theory Instruction
  imports Layout
begin

text \<open>
  \<open>src/instruction.rs\<close>: the instruction set and the wire format its derives give: the
  variant's index as one byte, then the variant's fields in declaration order.
\<close>

datatype program_instruction =
    CreateRootAlloc u64 u16 "u8 list"
  | FillSlot u16 "u8 list" "candidate_slot list" u16 u8 u32 u8 u64
  | PrepareAlloc u32
  | SweepTreasury "u16 list"
  | SweepAuthorFees "u8 list"
  | CloseAccount
  | InitSettings pubkey
  | SetTreasury pubkey
  | InitThreadAccess bool u16
  | SetThreadAccess bool
  | AddToWhitelist pubkey
  | RemoveFromWhitelist pubkey
  | SetMessageFee u64
  | SetBaseFee u32
  | SetAuthorFeeCut u32
  | SetEntryCut u32
  | SetLikeCut u32
  | SetLikeFee u64
  | SetEntryFee u64
  | RequestAccess u16 u8
  | LikeContent u32 u8 u16 u8 u64
  | AddToBlacklist pubkey
  | RemoveFromBlacklist pubkey
  | AppendContent "u8 list" u16 u8
  | SetAdmin pubkey
  | AddToFeeWhitelist pubkey
  | RemoveFromFeeWhitelist pubkey
  | Subscribe
  | Unsubscribe

text \<open>A variant without fields has no bytes after its index.\<close>

definition unit_codec :: "unit codec" where
  "unit_codec = \<lparr>enc = (\<lambda>_. Some []), dec = (\<lambda>bs. Some ((), bs))\<rparr>"

lemma unit_codec_codec: "codec unit_codec (\<lambda>_. 0)"
  by unfold_locales (auto simp: unit_codec_def)

text \<open>The fields of the variants that carry several.\<close>

definition create_root_codec :: "borsh \<Rightarrow> (u64 \<times> u16 \<times> u8 list) codec" where
  "create_root_codec B =
     pair_codec (b_u64 B) (pair_codec (b_u16 B) (vec_codec (b_u32 B) (b_u8 B)))"

definition fill_slot_codec :: "borsh \<Rightarrow> (u16 \<times> u8 list \<times> candidate_slot list \<times> u16 \<times> u8 \<times> u32 \<times> u8 \<times> u64) codec" where
  "fill_slot_codec B =
     pair_codec (b_u16 B) (pair_codec (vec_codec (b_u32 B) (b_u8 B))
       (pair_codec (vec_codec (b_u32 B) (candidate_slot_codec B)) (pair_codec (b_u16 B)
       (pair_codec (b_u8 B) (pair_codec (b_u32 B) (pair_codec (b_u8 B) (b_u64 B)))))))"

definition init_access_codec :: "borsh \<Rightarrow> (bool \<times> u16) codec" where
  "init_access_codec B =
     pair_codec (b_bool B) (b_u16 B)"

definition request_access_codec :: "borsh \<Rightarrow> (u16 \<times> u8) codec" where
  "request_access_codec B =
     pair_codec (b_u16 B) (b_u8 B)"

definition like_content_codec :: "borsh \<Rightarrow> (u32 \<times> u8 \<times> u16 \<times> u8 \<times> u64) codec" where
  "like_content_codec B =
     pair_codec (b_u32 B) (pair_codec (b_u8 B) (pair_codec (b_u16 B)
       (pair_codec (b_u8 B) (b_u64 B))))"

definition append_content_codec :: "borsh \<Rightarrow> (u8 list \<times> u16 \<times> u8) codec" where
  "append_content_codec B =
     pair_codec (vec_codec (b_u32 B) (b_u8 B)) (pair_codec (b_u16 B) (b_u8 B))"

lemmas payload_defs = create_root_codec_def fill_slot_codec_def init_access_codec_def request_access_codec_def like_content_codec_def append_content_codec_def

definition variant_enc :: "borsh \<Rightarrow> u8 \<Rightarrow> 'x codec \<Rightarrow> 'x \<Rightarrow> u8 list option" where
  "variant_enc B index c x = enc (pair_codec (b_u8 B) c) (index, x)"

definition variant_dec ::
  "'x codec \<Rightarrow> ('x \<Rightarrow> program_instruction) \<Rightarrow> u8 list \<Rightarrow> (program_instruction \<times> u8 list) option" where
  "variant_dec c f bs = map_option (\<lambda>(x, r). (f x, r)) (dec c bs)"

fun instruction_enc :: "borsh \<Rightarrow> program_instruction \<Rightarrow> u8 list option" where
  "instruction_enc B (CreateRootAlloc x0 x1 x2) =
     variant_enc B 0 (create_root_codec B) (x0, x1, x2)"
| "instruction_enc B (FillSlot x0 x1 x2 x3 x4 x5 x6 x7) =
     variant_enc B 1 (fill_slot_codec B) (x0, x1, x2, x3, x4, x5, x6, x7)"
| "instruction_enc B (PrepareAlloc x0) =
     variant_enc B 2 (b_u32 B) x0"
| "instruction_enc B (SweepTreasury x0) =
     variant_enc B 3 (vec_codec (b_u32 B) (b_u16 B)) x0"
| "instruction_enc B (SweepAuthorFees x0) =
     variant_enc B 4 (vec_codec (b_u32 B) (b_u8 B)) x0"
| "instruction_enc B CloseAccount =
     variant_enc B 5 unit_codec ()"
| "instruction_enc B (InitSettings x0) =
     variant_enc B 6 (b_key B) x0"
| "instruction_enc B (SetTreasury x0) =
     variant_enc B 7 (b_key B) x0"
| "instruction_enc B (InitThreadAccess x0 x1) =
     variant_enc B 8 (init_access_codec B) (x0, x1)"
| "instruction_enc B (SetThreadAccess x0) =
     variant_enc B 9 (b_bool B) x0"
| "instruction_enc B (AddToWhitelist x0) =
     variant_enc B 10 (b_key B) x0"
| "instruction_enc B (RemoveFromWhitelist x0) =
     variant_enc B 11 (b_key B) x0"
| "instruction_enc B (SetMessageFee x0) =
     variant_enc B 12 (b_u64 B) x0"
| "instruction_enc B (SetBaseFee x0) =
     variant_enc B 13 (b_u32 B) x0"
| "instruction_enc B (SetAuthorFeeCut x0) =
     variant_enc B 14 (b_u32 B) x0"
| "instruction_enc B (SetEntryCut x0) =
     variant_enc B 15 (b_u32 B) x0"
| "instruction_enc B (SetLikeCut x0) =
     variant_enc B 16 (b_u32 B) x0"
| "instruction_enc B (SetLikeFee x0) =
     variant_enc B 17 (b_u64 B) x0"
| "instruction_enc B (SetEntryFee x0) =
     variant_enc B 18 (b_u64 B) x0"
| "instruction_enc B (RequestAccess x0 x1) =
     variant_enc B 19 (request_access_codec B) (x0, x1)"
| "instruction_enc B (LikeContent x0 x1 x2 x3 x4) =
     variant_enc B 20 (like_content_codec B) (x0, x1, x2, x3, x4)"
| "instruction_enc B (AddToBlacklist x0) =
     variant_enc B 21 (b_key B) x0"
| "instruction_enc B (RemoveFromBlacklist x0) =
     variant_enc B 22 (b_key B) x0"
| "instruction_enc B (AppendContent x0 x1 x2) =
     variant_enc B 23 (append_content_codec B) (x0, x1, x2)"
| "instruction_enc B (SetAdmin x0) =
     variant_enc B 24 (b_key B) x0"
| "instruction_enc B (AddToFeeWhitelist x0) =
     variant_enc B 25 (b_key B) x0"
| "instruction_enc B (RemoveFromFeeWhitelist x0) =
     variant_enc B 26 (b_key B) x0"
| "instruction_enc B Subscribe =
     variant_enc B 27 unit_codec ()"
| "instruction_enc B Unsubscribe =
     variant_enc B 28 unit_codec ()"

definition instruction_decoders ::
  "borsh \<Rightarrow> (u8 list \<Rightarrow> (program_instruction \<times> u8 list) option) list" where
  "instruction_decoders B =
    [variant_dec (create_root_codec B) (\<lambda>(x0, x1, x2). CreateRootAlloc x0 x1 x2),
     variant_dec (fill_slot_codec B)
       (\<lambda>(x0, x1, x2, x3, x4, x5, x6, x7). FillSlot x0 x1 x2 x3 x4 x5 x6 x7),
     variant_dec (b_u32 B) PrepareAlloc,
     variant_dec (vec_codec (b_u32 B) (b_u16 B)) SweepTreasury,
     variant_dec (vec_codec (b_u32 B) (b_u8 B)) SweepAuthorFees,
     variant_dec unit_codec (\<lambda>_. CloseAccount),
     variant_dec (b_key B) InitSettings,
     variant_dec (b_key B) SetTreasury,
     variant_dec (init_access_codec B) (\<lambda>(x0, x1). InitThreadAccess x0 x1),
     variant_dec (b_bool B) SetThreadAccess,
     variant_dec (b_key B) AddToWhitelist,
     variant_dec (b_key B) RemoveFromWhitelist,
     variant_dec (b_u64 B) SetMessageFee,
     variant_dec (b_u32 B) SetBaseFee,
     variant_dec (b_u32 B) SetAuthorFeeCut,
     variant_dec (b_u32 B) SetEntryCut,
     variant_dec (b_u32 B) SetLikeCut,
     variant_dec (b_u64 B) SetLikeFee,
     variant_dec (b_u64 B) SetEntryFee,
     variant_dec (request_access_codec B) (\<lambda>(x0, x1). RequestAccess x0 x1),
     variant_dec (like_content_codec B)
       (\<lambda>(x0, x1, x2, x3, x4). LikeContent x0 x1 x2 x3 x4),
     variant_dec (b_key B) AddToBlacklist,
     variant_dec (b_key B) RemoveFromBlacklist,
     variant_dec (append_content_codec B) (\<lambda>(x0, x1, x2). AppendContent x0 x1 x2),
     variant_dec (b_key B) SetAdmin,
     variant_dec (b_key B) AddToFeeWhitelist,
     variant_dec (b_key B) RemoveFromFeeWhitelist,
     variant_dec unit_codec (\<lambda>_. Subscribe),
     variant_dec unit_codec (\<lambda>_. Unsubscribe)]"

definition instruction_codec :: "borsh \<Rightarrow> program_instruction codec" where
  "instruction_codec B = \<lparr>
     enc = instruction_enc B,
     dec = (\<lambda>bs. case dec (b_u8 B) bs of
         None \<Rightarrow> None
       | Some (index, r) \<Rightarrow>
           if unat index < length (instruction_decoders B)
           then (instruction_decoders B ! unat index) r else None)\<rparr>"


section \<open>The wire format is a codec\<close>

text \<open>The bytes of an instruction: its index, then its fields.\<close>

fun instruction_size :: "program_instruction \<Rightarrow> nat" where
  "instruction_size (CreateRootAlloc _ _ title) = 15 + length title"
| "instruction_size (FillSlot _ body cands _ _ _ _ _) = 27 + length body + 5 * length cands"
| "instruction_size (PrepareAlloc _) = 5"
| "instruction_size (SweepTreasury shards) = 5 + 2 * length shards"
| "instruction_size (SweepAuthorFees shards) = 5 + length shards"
| "instruction_size (InitThreadAccess _ _) = 4"
| "instruction_size (SetThreadAccess _) = 2"
| "instruction_size (SetMessageFee _) = 9"
| "instruction_size (SetBaseFee _) = 5"
| "instruction_size (SetAuthorFeeCut _) = 5"
| "instruction_size (SetEntryCut _) = 5"
| "instruction_size (SetLikeCut _) = 5"
| "instruction_size (SetLikeFee _) = 9"
| "instruction_size (SetEntryFee _) = 9"
| "instruction_size (RequestAccess _ _) = 4"
| "instruction_size (LikeContent _ _ _ _ _) = 17"
| "instruction_size (AppendContent chunk _ _) = 8 + length chunk"
| "instruction_size CloseAccount = 1"
| "instruction_size Subscribe = 1"
| "instruction_size Unsubscribe = 1"
| "instruction_size _ = 33"

text \<open>One variant: its index selects its decoder, which reads back its fields.\<close>

definition variant_law ::
  "borsh \<Rightarrow> u8 \<Rightarrow> 'x codec \<Rightarrow> ('x \<Rightarrow> program_instruction) \<Rightarrow> bool" where
  "variant_law B i c f \<longleftrightarrow> unat i < length (instruction_decoders B) \<and>
     instruction_decoders B ! unat i = variant_dec c f \<and>
     (\<forall>x. instruction_enc B (f x) = variant_enc B i c x)"

text \<open>What the laws give: an encoded instruction is read back, in the expected size; and what
  an index's decoder reads is the encoding of its result.\<close>

definition wire_ok :: "borsh \<Rightarrow> program_instruction \<Rightarrow> bool" where
  "wire_ok B y \<longleftrightarrow> (\<forall>b r. instruction_enc B y = Some b \<longrightarrow>
     dec (instruction_codec B) (b @ r) = Some (y, r) \<and> length b = instruction_size y)"

definition index_ok :: "borsh \<Rightarrow> u8 \<Rightarrow> bool" where
  "index_ok B i \<longleftrightarrow> (\<forall>b b' y r. dec (b_u8 B) b = Some (i, b') \<and>
     dec (instruction_codec B) b = Some (y, r) \<longrightarrow>
     (\<exists>p. instruction_enc B y = Some p \<and> b = p @ r))"

lemma variant_laws:
  "variant_law B 0 (create_root_codec B) (\<lambda>(x0, x1, x2). CreateRootAlloc x0 x1 x2)"
  "variant_law B 1 (fill_slot_codec B) (\<lambda>(x0, x1, x2, x3, x4, x5, x6, x7). FillSlot x0 x1 x2 x3 x4 x5 x6 x7)"
  "variant_law B 2 (b_u32 B) PrepareAlloc"
  "variant_law B 3 (vec_codec (b_u32 B) (b_u16 B)) SweepTreasury"
  "variant_law B 4 (vec_codec (b_u32 B) (b_u8 B)) SweepAuthorFees"
  "variant_law B 5 unit_codec (\<lambda>_. CloseAccount)"
  "variant_law B 6 (b_key B) InitSettings"
  "variant_law B 7 (b_key B) SetTreasury"
  "variant_law B 8 (init_access_codec B) (\<lambda>(x0, x1). InitThreadAccess x0 x1)"
  "variant_law B 9 (b_bool B) SetThreadAccess"
  "variant_law B 10 (b_key B) AddToWhitelist"
  "variant_law B 11 (b_key B) RemoveFromWhitelist"
  "variant_law B 12 (b_u64 B) SetMessageFee"
  "variant_law B 13 (b_u32 B) SetBaseFee"
  "variant_law B 14 (b_u32 B) SetAuthorFeeCut"
  "variant_law B 15 (b_u32 B) SetEntryCut"
  "variant_law B 16 (b_u32 B) SetLikeCut"
  "variant_law B 17 (b_u64 B) SetLikeFee"
  "variant_law B 18 (b_u64 B) SetEntryFee"
  "variant_law B 19 (request_access_codec B) (\<lambda>(x0, x1). RequestAccess x0 x1)"
  "variant_law B 20 (like_content_codec B) (\<lambda>(x0, x1, x2, x3, x4). LikeContent x0 x1 x2 x3 x4)"
  "variant_law B 21 (b_key B) AddToBlacklist"
  "variant_law B 22 (b_key B) RemoveFromBlacklist"
  "variant_law B 23 (append_content_codec B) (\<lambda>(x0, x1, x2). AppendContent x0 x1 x2)"
  "variant_law B 24 (b_key B) SetAdmin"
  "variant_law B 25 (b_key B) AddToFeeWhitelist"
  "variant_law B 26 (b_key B) RemoveFromFeeWhitelist"
  "variant_law B 27 unit_codec (\<lambda>_. Subscribe)"
  "variant_law B 28 unit_codec (\<lambda>_. Unsubscribe)"
  by (simp_all add: variant_law_def instruction_decoders_def split: prod.splits)

context borsh_format
begin

lemma vec_u16_codec: "codec (vec_codec (b_u32 B) (b_u16 B)) (\<lambda>xs. 4 + length xs * 2)"
  by (rule codec_size_cong [OF vec_codec_codec [OF u32 u16]]) (simp add: sum_list_triv)

lemma vec_candidate_codec:
  "codec (vec_codec (b_u32 B) (candidate_slot_codec B)) (\<lambda>xs. 4 + length xs * 5)"
  by (rule codec_size_cong [OF vec_codec_codec [OF u32 candidate_slot_codec_ok]])
    (simp add: sum_list_triv)

lemmas payload_codecs = prims unit_codec_codec vec_u8_codec vec_u16_codec vec_candidate_codec

lemma payload_codec_ok:
  "codec (create_root_codec B) (\<lambda>(_, _, title). 14 + length title)"
  "codec (fill_slot_codec B) (\<lambda>(_, body, cands, _). 26 + length body + 5 * length cands)"
  "codec (init_access_codec B) (\<lambda>_. 3)"
  "codec (request_access_codec B) (\<lambda>_. 3)"
  "codec (like_content_codec B) (\<lambda>_. 16)"
  "codec (append_content_codec B) (\<lambda>(chunk, _). 7 + length chunk)"
  unfolding payload_defs
  by (rule codec_size_cong, (rule pair_codec_codec payload_codecs)+, auto)+

lemma variant_law_dec_enc:
  assumes "variant_law B i c f" "codec c s" "instruction_enc B (f x) = Some b"
  shows "dec (instruction_codec B) (b @ r) = Some (f x, r)"
proof -
  from assms(1,3) have "enc (pair_codec (b_u8 B) c) (i, x) = Some b"
    by (simp add: variant_law_def variant_enc_def)
  then obtain p where p: "enc c x = Some p" "b = i # p"
    by (auto simp: pair_codec_def enc_u8 bind_eq_Some_conv)
  have "dec (b_u8 B) (i # (p @ r)) = Some (i, p @ r)"
    using codec.dec_enc [OF u8 enc_u8] by simp
  with assms(1) p codec.dec_enc [OF assms(2) p(1)] show ?thesis
    by (simp add: instruction_codec_def variant_law_def variant_dec_def)
qed

lemma variant_law_enc_dec:
  assumes "variant_law B i c f" "codec c s" "dec (b_u8 B) b = Some (i, b')"
    and "dec (instruction_codec B) b = Some (y, r)"
  shows "\<exists>p. instruction_enc B y = Some p \<and> b = p @ r"
proof -
  from assms(1,3,4) have "variant_dec c f b' = Some (y, r)"
    by (simp add: instruction_codec_def variant_law_def split: if_splits)
  then obtain x where x: "dec c b' = Some (x, r)" "y = f x"
    by (auto simp: variant_dec_def)
  from codec.enc_dec [OF assms(2) x(1)] obtain p where p: "enc c x = Some p" "b' = p @ r" by blast
  from codec.enc_dec [OF u8 assms(3)] have "b = i # b'" by (auto simp: enc_u8)
  with assms(1) x(2) p show ?thesis
    by (simp add: variant_law_def variant_enc_def pair_codec_def enc_u8)
qed

lemma variant_law_size:
  assumes "variant_law B i c f" "codec c s" "\<And>x. instruction_size (f x) = 1 + s x"
    and "instruction_enc B (f x) = Some b"
  shows "length b = instruction_size (f x)"
proof -
  from assms(1,4) have "enc (pair_codec (b_u8 B) c) (i, x) = Some b"
    by (simp add: variant_law_def variant_enc_def)
  then obtain p where p: "enc c x = Some p" "b = i # p"
    by (auto simp: pair_codec_def enc_u8 bind_eq_Some_conv)
  with codec.enc_size [OF assms(2) p(1)] assms(3) show ?thesis by simp
qed

lemma variant_wire:
  assumes "variant_law B i c f" "codec c s"
  shows "index_ok B i" "(\<And>x. instruction_size (f x) = 1 + s x) \<Longrightarrow> wire_ok B (f x)"
proof -
  show "index_ok B i"
    unfolding index_ok_def using variant_law_enc_dec [OF assms] by blast
  show "wire_ok B (f x)" if "\<And>x. instruction_size (f x) = 1 + s x"
    unfolding wire_ok_def using variant_law_dec_enc [OF assms] variant_law_size [OF assms that] by blast
qed

lemmas variant_indices =
  variant_wire(1) [OF variant_laws(1) payload_codec_ok(1)]
  variant_wire(1) [OF variant_laws(2) payload_codec_ok(2)]
  variant_wire(1) [OF variant_laws(3) u32]
  variant_wire(1) [OF variant_laws(4) vec_u16_codec]
  variant_wire(1) [OF variant_laws(5) vec_u8_codec]
  variant_wire(1) [OF variant_laws(6) unit_codec_codec]
  variant_wire(1) [OF variant_laws(7) pkey]
  variant_wire(1) [OF variant_laws(8) pkey]
  variant_wire(1) [OF variant_laws(9) payload_codec_ok(3)]
  variant_wire(1) [OF variant_laws(10) bool]
  variant_wire(1) [OF variant_laws(11) pkey]
  variant_wire(1) [OF variant_laws(12) pkey]
  variant_wire(1) [OF variant_laws(13) u64]
  variant_wire(1) [OF variant_laws(14) u32]
  variant_wire(1) [OF variant_laws(15) u32]
  variant_wire(1) [OF variant_laws(16) u32]
  variant_wire(1) [OF variant_laws(17) u32]
  variant_wire(1) [OF variant_laws(18) u64]
  variant_wire(1) [OF variant_laws(19) u64]
  variant_wire(1) [OF variant_laws(20) payload_codec_ok(4)]
  variant_wire(1) [OF variant_laws(21) payload_codec_ok(5)]
  variant_wire(1) [OF variant_laws(22) pkey]
  variant_wire(1) [OF variant_laws(23) pkey]
  variant_wire(1) [OF variant_laws(24) payload_codec_ok(6)]
  variant_wire(1) [OF variant_laws(25) pkey]
  variant_wire(1) [OF variant_laws(26) pkey]
  variant_wire(1) [OF variant_laws(27) pkey]
  variant_wire(1) [OF variant_laws(28) unit_codec_codec]
  variant_wire(1) [OF variant_laws(29) unit_codec_codec]

lemmas variant_wires =
  variant_wire(2) [OF variant_laws(1) payload_codec_ok(1)]
  variant_wire(2) [OF variant_laws(2) payload_codec_ok(2)]
  variant_wire(2) [OF variant_laws(3) u32]
  variant_wire(2) [OF variant_laws(4) vec_u16_codec]
  variant_wire(2) [OF variant_laws(5) vec_u8_codec]
  variant_wire(2) [OF variant_laws(6) unit_codec_codec]
  variant_wire(2) [OF variant_laws(7) pkey]
  variant_wire(2) [OF variant_laws(8) pkey]
  variant_wire(2) [OF variant_laws(9) payload_codec_ok(3)]
  variant_wire(2) [OF variant_laws(10) bool]
  variant_wire(2) [OF variant_laws(11) pkey]
  variant_wire(2) [OF variant_laws(12) pkey]
  variant_wire(2) [OF variant_laws(13) u64]
  variant_wire(2) [OF variant_laws(14) u32]
  variant_wire(2) [OF variant_laws(15) u32]
  variant_wire(2) [OF variant_laws(16) u32]
  variant_wire(2) [OF variant_laws(17) u32]
  variant_wire(2) [OF variant_laws(18) u64]
  variant_wire(2) [OF variant_laws(19) u64]
  variant_wire(2) [OF variant_laws(20) payload_codec_ok(4)]
  variant_wire(2) [OF variant_laws(21) payload_codec_ok(5)]
  variant_wire(2) [OF variant_laws(22) pkey]
  variant_wire(2) [OF variant_laws(23) pkey]
  variant_wire(2) [OF variant_laws(24) payload_codec_ok(6)]
  variant_wire(2) [OF variant_laws(25) pkey]
  variant_wire(2) [OF variant_laws(26) pkey]
  variant_wire(2) [OF variant_laws(27) pkey]
  variant_wire(2) [OF variant_laws(28) unit_codec_codec]
  variant_wire(2) [OF variant_laws(29) unit_codec_codec]

lemma instruction_wire: "wire_ok B y"
  using variant_wires by (cases y) fastforce+

lemma index_wire: "unat (i :: u8) < 29 \<Longrightarrow> index_ok B i"
proof -
  have "list_all (\<lambda>n. index_ok B (of_nat n)) [0..<29]"
    using variant_indices by (simp add: upt_conv_Cons)
  then have "index_ok B (of_nat n)" if "n < 29" for n
    using that by (auto simp: list_all_iff)
  from this [of "unat i"] show "unat i < 29 \<Longrightarrow> index_ok B i" by simp
qed

lemma instruction_codec_ok: "codec (instruction_codec B) instruction_size"
proof
  fix y b r
  assume "enc (instruction_codec B) y = Some b"
  then show "dec (instruction_codec B) (b @ r) = Some (y, r)"
    using instruction_wire [of y] by (simp add: wire_ok_def instruction_codec_def)
next
  fix b y r
  assume d: "dec (instruction_codec B) b = Some (y, r)"
  then obtain i b' where i: "dec (b_u8 B) b = Some (i, b')" "unat i < 29"
    by (auto simp: instruction_codec_def instruction_decoders_def split: option.splits if_splits)
  from index_wire [OF i(2)] d i(1)
  show "\<exists>p. enc (instruction_codec B) y = Some p \<and> b = p @ r"
    by (auto simp: index_ok_def instruction_codec_def)
next
  fix y b
  assume "enc (instruction_codec B) y = Some b"
  then show "length b = instruction_size y"
    using instruction_wire [of y] by (simp add: wire_ok_def instruction_codec_def)
qed

end

sublocale borsh_format \<subseteq> wire: codec "instruction_codec B" instruction_size
  by (rule instruction_codec_ok)

section \<open>Properties\<close>

text \<open>C28. The wire format loses nothing and is unambiguous. A decoder that is given more bytes
  reads back exactly the instruction that was encoded and leaves what follows untouched; an
  instruction's whole byte string, and no other, decodes to it, and bytes that are left over are
  refused; and there are as many bytes as the fields say.\<close>

theorem wire_format_round_trip:
  assumes "borsh_format B"
  shows "(dec (instruction_codec B) bytes = Some (i, rest)) =
      (\<exists>b. enc (instruction_codec B) i = Some b \<and> bytes = b @ rest) \<and>
    (try_from_slice (instruction_codec B) bytes = Some i) =
      (enc (instruction_codec B) i = Some bytes) \<and>
    (enc (instruction_codec B) i = Some bytes \<longrightarrow> length bytes = instruction_size i)"
proof -
  note c = borsh_format.instruction_codec_ok [OF assms]
  from codec.dec_enc [OF c] codec.enc_dec [OF c] codec.try_from_slice_iff [OF c]
    codec.enc_size [OF c]
  show ?thesis by blast
qed

theorem wire_format_round_trip_witness:
  "dec (instruction_codec ref_borsh) [2, 1, 0, 0, 0, 7, 7] = Some (PrepareAlloc 1, [7, 7]) \<and>
   try_from_slice (instruction_codec ref_borsh) [2, 1, 0, 0, 0] = Some (PrepareAlloc 1) \<and>
   try_from_slice (instruction_codec ref_borsh) [2, 1, 0, 0, 0, 7] \<noteq> Some (PrepareAlloc 1)"
proof -
  have "enc (instruction_codec ref_borsh) (PrepareAlloc 1) = Some [2, 1, 0, 0, 0]"
    by (simp add: instruction_codec_def variant_enc_def pair_codec_def enc_uint_codec
        le_bytes_numeral)
  then show ?thesis
    using wire_format_round_trip [OF ref_format.borsh_format_axioms] by simp
qed

end
