(* ===== verification/Errors.thy ===== *)
theory Errors
  imports Prelude
begin

text \<open>
  \<open>src/error.rs\<close>: the program's error codes, and Solana's \<open>ProgramError\<close> they are
  converted to. A failing instruction has no effect, so an error carries no state.
\<close>

datatype protocol_error =
    MissingSigner
  | NotWritable
  | InvalidTag
  | TextTooLong
  | AllocAlreadyLinked
  | SlotAlreadyUsed
  | InvalidCandidateCount
  | AccountOwnerMismatch
  | AccountAlreadyInitialized
  | InvalidAccountData
  | NoFreeSlot
  | InvalidShard
  | ThreadMismatch
  | InvalidPda
  | Unauthorized
  | InvalidTreasury
  | InvalidProgramAccount
  | AccessDenied
  | AccessListFull
  | AccessListDuplicate
  | AccessListMissing
  | MissingAccessAccount
  | InvalidFeeBps
  | InvalidAuthor
  | ZeroEntryFee
  | InvalidSlot
  | AccessListConflict
  | InvalidAllocSeq
  | NothingToSweep
  | AppendWindowExpired
  | FeeExceedsMax
  | AlreadyFollowing
  | NotFollowing
  | FollowListFull

text \<open>The explicit discriminants; 24 is retired.\<close>

fun error_code :: "protocol_error \<Rightarrow> u32" where
  "error_code MissingSigner = 0"
| "error_code NotWritable = 1"
| "error_code InvalidTag = 2"
| "error_code TextTooLong = 3"
| "error_code AllocAlreadyLinked = 4"
| "error_code SlotAlreadyUsed = 5"
| "error_code InvalidCandidateCount = 6"
| "error_code AccountOwnerMismatch = 7"
| "error_code AccountAlreadyInitialized = 8"
| "error_code InvalidAccountData = 9"
| "error_code NoFreeSlot = 10"
| "error_code InvalidShard = 11"
| "error_code ThreadMismatch = 12"
| "error_code InvalidPda = 13"
| "error_code Unauthorized = 14"
| "error_code InvalidTreasury = 15"
| "error_code InvalidProgramAccount = 16"
| "error_code AccessDenied = 17"
| "error_code AccessListFull = 18"
| "error_code AccessListDuplicate = 19"
| "error_code AccessListMissing = 20"
| "error_code MissingAccessAccount = 21"
| "error_code InvalidFeeBps = 22"
| "error_code InvalidAuthor = 23"
| "error_code ZeroEntryFee = 25"
| "error_code InvalidSlot = 26"
| "error_code AccessListConflict = 27"
| "error_code InvalidAllocSeq = 28"
| "error_code NothingToSweep = 29"
| "error_code AppendWindowExpired = 30"
| "error_code FeeExceedsMax = 31"
| "error_code AlreadyFollowing = 32"
| "error_code NotFollowing = 33"
| "error_code FollowListFull = 34"

text \<open>
  Solana's \<open>ProgramError\<close>, with the variants the program itself produces; any other error
  of the code it calls (system program, sysvars, resize) is an \<open>External\<close>. \<open>Panicked\<close> is
  the abort of an overflow check or an index out of range.
\<close>

datatype program_error =
    Custom u32
  | InvalidInstructionData
  | IncorrectProgramId
  | NotEnoughAccountKeys
  | BorshIoError
  | External nat
  | Panicked

type_synonym 'a res = "program_error + 'a"

text \<open>\<open>impl From<ProtocolError> for ProgramError\<close>.\<close>

definition program_error_of :: "protocol_error \<Rightarrow> program_error" where
  "program_error_of e = Custom (error_code e)"

abbreviation err :: "protocol_error \<Rightarrow> 'a res" where
  "err e \<equiv> Inl (program_error_of e)"

text \<open>Clients tell errors apart by their code alone.\<close>

definition error_index :: "protocol_error \<Rightarrow> nat" where
  "error_index e = unat (error_code e)"

lemma error_code_inj: "error_code e = error_code e' \<Longrightarrow> e = e'"
  by (cases e; cases e'; simp)

lemma program_error_of_inj [simp]: "program_error_of e = program_error_of e' \<longleftrightarrow> e = e'"
  by (auto simp: program_error_of_def dest: error_code_inj)

lemma program_error_of_neq [simp]:
  "program_error_of e \<noteq> InvalidInstructionData" "program_error_of e \<noteq> IncorrectProgramId"
  "program_error_of e \<noteq> NotEnoughAccountKeys" "program_error_of e \<noteq> BorshIoError"
  "program_error_of e \<noteq> External n" "program_error_of e \<noteq> Panicked"
  by (simp_all add: program_error_of_def)

end
