(* ===== verification/Runtime.thy ===== *)
theory Runtime
  imports Borsh Errors
begin

text \<open>
  The Solana side of the program: accounts, the ledger an instruction reads and writes, and
  the calls into code outside the repository. That code (system program, sysvars, address
  derivation, account resize, Borsh) is a parameter, the record \<open>runtime\<close>; the locale
  \<open>solana\<close> states what its documentation promises of a call that succeeds, and
  \<open>solana_live\<close> adds when a call does succeed.
\<close>

section \<open>Accounts and the ledger\<close>

record account =
  acc_lamports :: u64
  acc_owner :: pubkey
  acc_data :: "u8 list"

text \<open>
  The contents of every address. Two \<open>AccountInfo\<close>s with one key share the same lamports,
  data and owner, as duplicate accounts do on chain, because both read the ledger.
\<close>

type_synonym ledger = "pubkey \<Rightarrow> account"

record account_info =
  ai_key :: pubkey
  is_signer :: bool
  is_writable :: bool

definition lamports :: "ledger \<Rightarrow> account_info \<Rightarrow> u64" where
  "lamports L a = acc_lamports (L (ai_key a))"

definition owner :: "ledger \<Rightarrow> account_info \<Rightarrow> pubkey" where
  "owner L a = acc_owner (L (ai_key a))"

definition data :: "ledger \<Rightarrow> account_info \<Rightarrow> u8 list" where
  "data L a = acc_data (L (ai_key a))"

definition set_lamports :: "account_info \<Rightarrow> u64 \<Rightarrow> ledger \<Rightarrow> ledger" where
  "set_lamports a n L = L(ai_key a := (L (ai_key a))\<lparr>acc_lamports := n\<rparr>)"

definition set_data :: "account_info \<Rightarrow> u8 list \<Rightarrow> ledger \<Rightarrow> ledger" where
  "set_data a bs L = L(ai_key a := (L (ai_key a))\<lparr>acc_data := bs\<rparr>)"

text \<open>\<open>AccountInfo::assign\<close>.\<close>

definition set_owner :: "account_info \<Rightarrow> pubkey \<Rightarrow> ledger \<Rightarrow> ledger" where
  "set_owner a k L = L(ai_key a := (L (ai_key a))\<lparr>acc_owner := k\<rparr>)"

lemmas ledger_defs = lamports_def owner_def data_def set_lamports_def set_data_def set_owner_def

text \<open>Lamports from one address to another; nothing moves from an address to itself.\<close>

definition move_lamports :: "pubkey \<Rightarrow> pubkey \<Rightarrow> u64 \<Rightarrow> ledger \<Rightarrow> ledger" where
  "move_lamports j k n L =
     (let L1 = L(j := (L j)\<lparr>acc_lamports := acc_lamports (L j) - n\<rparr>)
      in L1(k := (L1 k)\<lparr>acc_lamports := acc_lamports (L1 k) + n\<rparr>))"

text \<open>\<open>next_account_info\<close>: the iterator's next account and the rest.\<close>

fun next_account_info :: "account_info list \<Rightarrow> (account_info \<times> account_info list) res" where
  "next_account_info [] = Inl NotEnoughAccountKeys"
| "next_account_info (a # it) = Inr (a, it)"

lemma next_account_info_Inr_iff [ok_simps]:
  "next_account_info it = Inr p \<longleftrightarrow> (\<exists>a it'. it = a # it' \<and> p = (a, it'))"
  by (cases it) auto

section \<open>The code outside the repository\<close>

text \<open>
  \<^item> \<open>rt_find_pda\<close>: \<open>Pubkey::find_program_address\<close>; \<open>rt_create_pda\<close>:
    \<open>create_program_address\<close>, used by the runtime to check the seeds of \<open>invoke_signed\<close>.
  \<^item> \<open>rt_system_id\<close>, \<open>rt_loader_id\<close>: the addresses of the System Program and of the
    upgradeable loader.
  \<^item> \<open>rt_rent\<close>: \<open>Rent::get\<close> with \<open>minimum_balance\<close>; \<open>rt_clock\<close>: \<open>Clock::get\<close>'s
    \<open>unix_timestamp\<close>.
  \<^item> \<open>rt_transfer\<close>, \<open>rt_create_account\<close>, \<open>rt_allocate\<close>, \<open>rt_assign\<close>: \<open>invoke\<close> or
    \<open>invoke_signed\<close> of the System Program's instructions by the running program, with the
    seeds it signs with.
  \<^item> \<open>rt_resize\<close>: \<open>AccountInfo::resize\<close>.
\<close>

record runtime =
  rt_borsh :: borsh
  rt_find_pda :: "u8 list list \<Rightarrow> pubkey \<Rightarrow> pubkey \<times> u8"
  rt_create_pda :: "u8 list list \<Rightarrow> pubkey \<Rightarrow> pubkey option"
  rt_system_id :: pubkey
  rt_loader_id :: pubkey
  rt_rent :: "(nat \<Rightarrow> u64) res"
  rt_clock :: "i64 res"
  rt_transfer :: "account_info \<Rightarrow> account_info \<Rightarrow> u64 \<Rightarrow> ledger \<Rightarrow> ledger res"
  rt_create_account :: "pubkey \<Rightarrow> account_info \<Rightarrow> account_info \<Rightarrow> u64 \<Rightarrow> u64 \<Rightarrow> pubkey \<Rightarrow>
    u8 list list list \<Rightarrow> ledger \<Rightarrow> ledger res"
  rt_allocate :: "pubkey \<Rightarrow> account_info \<Rightarrow> u64 \<Rightarrow> u8 list list list \<Rightarrow> ledger \<Rightarrow> ledger res"
  rt_assign :: "pubkey \<Rightarrow> account_info \<Rightarrow> pubkey \<Rightarrow> u8 list list list \<Rightarrow> ledger \<Rightarrow> ledger res"
  rt_resize :: "account_info \<Rightarrow> nat \<Rightarrow> ledger \<Rightarrow> ledger res"

text \<open>An account that signs: in the transaction, or through the program's seeds.\<close>

definition signs :: "runtime \<Rightarrow> pubkey \<Rightarrow> account_info \<Rightarrow> u8 list list list \<Rightarrow> bool" where
  "signs rt pid a seedss \<longleftrightarrow>
     is_signer a \<or> list_ex (\<lambda>seeds. rt_create_pda rt seeds pid = Some (ai_key a)) seedss"

locale solana =
  fixes rt :: runtime and pid :: pubkey
  assumes format: "borsh_format (rt_borsh rt)"
    and pid_not_system: "pid \<noteq> rt_system_id rt"
    and transfer_ok: "rt_transfer rt src dst n L = Inr L' \<Longrightarrow>
      is_signer src \<and> is_writable src \<and> is_writable dst \<and> owner L src = rt_system_id rt \<and>
      n \<le> lamports L src \<and>
      (ai_key src \<noteq> ai_key dst \<longrightarrow> unat (lamports L dst) + unat n < 2 ^ 64) \<and>
      L' = move_lamports (ai_key src) (ai_key dst) n L"
    and create_account_ok: "rt_create_account rt pid src dst n space own seedss L = Inr L' \<Longrightarrow>
      is_signer src \<and> is_writable src \<and> is_writable dst \<and> signs rt pid dst seedss \<and>
      owner L src = rt_system_id rt \<and> n \<le> lamports L src \<and> ai_key src \<noteq> ai_key dst \<and>
      lamports L dst = 0 \<and> owner L dst = rt_system_id rt \<and> data L dst = [] \<and>
      L' = set_owner dst own (set_data dst (replicate (unat space) 0)
             (move_lamports (ai_key src) (ai_key dst) n L))"
    and allocate_ok: "rt_allocate rt pid dst space seedss L = Inr L' \<Longrightarrow>
      is_writable dst \<and> signs rt pid dst seedss \<and>
      owner L dst = rt_system_id rt \<and> data L dst = [] \<and>
      L' = set_data dst (replicate (unat space) 0) L"
    and assign_ok: "rt_assign rt pid dst own seedss L = Inr L' \<Longrightarrow>
      (owner L dst = own \<or>
        (is_writable dst \<and> signs rt pid dst seedss \<and> owner L dst = rt_system_id rt)) \<and>
      L' = set_owner dst own L"
    and resize_ok: "rt_resize rt a len L = Inr L' \<Longrightarrow>
      L' = set_data a (take len (data L a) @ replicate (len - length (data L a)) 0) L"

text \<open>When the calls succeed: the signatures are there, the accounts are writable, the
  balance is enough and the new data is within the limit of one instruction; shrinking always is.\<close>

definition max_data_increase :: nat where
  "max_data_increase = 10240"

locale solana_live = solana +
  assumes find_pda_signs: "rt_find_pda rt seeds pid = (k, bump) \<Longrightarrow>
      rt_create_pda rt (seeds @ [[bump]]) pid = Some k"
    and rent_ok: "\<exists>rent. rt_rent rt = Inr rent"
    and transfer_live: "is_signer src \<Longrightarrow> is_writable src \<Longrightarrow> is_writable dst \<Longrightarrow>
      owner L src = rt_system_id rt \<Longrightarrow> data L src = [] \<Longrightarrow> n \<le> lamports L src \<Longrightarrow>
      unat (lamports L dst) + unat n < 2 ^ 64 \<Longrightarrow> \<exists>L'. rt_transfer rt src dst n L = Inr L'"
    and create_account_live: "is_signer src \<Longrightarrow> is_writable src \<Longrightarrow> is_writable dst \<Longrightarrow>
      signs rt pid dst seedss \<Longrightarrow> owner L src = rt_system_id rt \<Longrightarrow> data L src = [] \<Longrightarrow>
      n \<le> lamports L src \<Longrightarrow> ai_key src \<noteq> ai_key dst \<Longrightarrow> lamports L dst = 0 \<Longrightarrow>
      owner L dst = rt_system_id rt \<Longrightarrow> data L dst = [] \<Longrightarrow> unat space \<le> max_data_increase \<Longrightarrow>
      \<exists>L'. rt_create_account rt pid src dst n space own seedss L = Inr L'"
    and allocate_live: "is_writable dst \<Longrightarrow> signs rt pid dst seedss \<Longrightarrow>
      owner L dst = rt_system_id rt \<Longrightarrow> data L dst = [] \<Longrightarrow> unat space \<le> max_data_increase \<Longrightarrow>
      \<exists>L'. rt_allocate rt pid dst space seedss L = Inr L'"
    and assign_live: "is_writable dst \<Longrightarrow> signs rt pid dst seedss \<Longrightarrow>
      owner L dst = rt_system_id rt \<Longrightarrow> \<exists>L'. rt_assign rt pid dst own seedss L = Inr L'"
    and resize_live: "len \<le> length (data L a) + max_data_increase \<Longrightarrow>
      \<exists>L'. rt_resize rt a len L = Inr L'"

end
