(* ===== verification/Ledger.thy ===== *)
theory Ledger
  imports Runtime
begin

text \<open>
  How an instruction may change the ledger. \<open>quiet\<close> bounds the accounts whose owner or data
  change, \<open>total\<close> is the sum of all balances, \<open>spends\<close> bounds the accounts whose balance can
  drop; \<open>effect\<close> is the three together. Each is closed under composition, so the effect of
  a handler is put together from the effects of its steps.
\<close>

named_theorems effect_rules

section \<open>Reading and writing the ledger\<close>

lemma set_lamports_sel [simp]:
  "acc_lamports (set_lamports a n L k) = (if k = ai_key a then n else acc_lamports (L k))"
  "acc_owner (set_lamports a n L k) = acc_owner (L k)"
  "acc_data (set_lamports a n L k) = acc_data (L k)"
  by (simp_all add: set_lamports_def)

lemma set_data_sel [simp]:
  "acc_lamports (set_data a bs L k) = acc_lamports (L k)"
  "acc_owner (set_data a bs L k) = acc_owner (L k)"
  "acc_data (set_data a bs L k) = (if k = ai_key a then bs else acc_data (L k))"
  by (simp_all add: set_data_def)

lemma set_owner_sel [simp]:
  "acc_lamports (set_owner a own L k) = acc_lamports (L k)"
  "acc_owner (set_owner a own L k) = (if k = ai_key a then own else acc_owner (L k))"
  "acc_data (set_owner a own L k) = acc_data (L k)"
  by (simp_all add: set_owner_def)

lemma set_other [simp]:
  "k \<noteq> ai_key a \<Longrightarrow> set_lamports a n L k = L k"
  "k \<noteq> ai_key a \<Longrightarrow> set_data a bs L k = L k"
  "k \<noteq> ai_key a \<Longrightarrow> set_owner a own L k = L k"
  by (simp_all add: set_lamports_def set_data_def set_owner_def)

lemma move_lamports_sel [simp]:
  "acc_owner (move_lamports i j n L k) = acc_owner (L k)"
  "acc_data (move_lamports i j n L k) = acc_data (L k)"
  by (simp_all add: move_lamports_def Let_def)

lemma move_lamports_acc:
  "acc_lamports (move_lamports i j n L k) =
     (if i = j then acc_lamports (L k)
      else if k = i then acc_lamports (L k) - n
      else if k = j then acc_lamports (L k) + n else acc_lamports (L k))"
  by (auto simp: move_lamports_def Let_def)

section \<open>The sum of all balances\<close>

definition total :: "ledger \<Rightarrow> nat" where
  "total L = (\<Sum>k\<in>UNIV. unat (acc_lamports (L k)))"

lemma total_cong: "(\<And>k. acc_lamports (L' k) = acc_lamports (L k)) \<Longrightarrow> total L' = total L"
  by (simp add: total_def)

lemma total_update:
  "total (L(k := a)) + unat (acc_lamports (L k)) = total L + unat (acc_lamports a)"
proof -
  have L: "total L = unat (acc_lamports (L k)) + (\<Sum>j\<in>UNIV - {k}. unat (acc_lamports (L j)))"
    unfolding total_def by (rule sum.remove) simp_all
  have "total (L(k := a)) = unat (acc_lamports a) +
      (\<Sum>j\<in>UNIV - {k}. unat (acc_lamports ((L(k := a)) j)))"
    unfolding total_def by (subst sum.remove [of UNIV k]) simp_all
  moreover have "(\<Sum>j\<in>UNIV - {k}. unat (acc_lamports ((L(k := a)) j))) =
      (\<Sum>j\<in>UNIV - {k}. unat (acc_lamports (L j)))"
    by (rule sum.cong) simp_all
  ultimately show ?thesis using L by simp
qed

lemma total_set_lamports:
  "total (set_lamports a n L) + unat (lamports L a) = total L + unat n"
  using total_update [of L "ai_key a" "(L (ai_key a))\<lparr>acc_lamports := n\<rparr>"]
  by (simp add: set_lamports_def lamports_def)

lemma total_set_data [simp]: "total (set_data a bs L) = total L"
  by (rule total_cong) simp

lemma total_set_owner [simp]: "total (set_owner a own L) = total L"
  by (rule total_cong) simp

lemma total_move_lamports:
  assumes "n \<le> acc_lamports (L i)"
    and "i \<noteq> j \<longrightarrow> unat (acc_lamports (L j)) + unat n < 2 ^ 64"
  shows "total (move_lamports i j n L) = total L"
proof (cases "i = j")
  case True
  then show ?thesis by (intro total_cong) (simp add: move_lamports_acc)
next
  case False
  let ?a = "(L i)\<lparr>acc_lamports := acc_lamports (L i) - n\<rparr>"
  let ?L1 = "L(i := ?a)"
  let ?b = "(?L1 j)\<lparr>acc_lamports := acc_lamports (?L1 j) + n\<rparr>"
  have "total (?L1(j := ?b)) + unat (acc_lamports (L j)) =
      total ?L1 + (unat (acc_lamports (L j)) + unat n)"
    using total_update [of ?L1 j ?b] assms(2) False by (simp add: unat_add_lt)
  moreover have "total ?L1 + unat (acc_lamports (L i)) =
      total L + (unat (acc_lamports (L i)) - unat n)"
    using total_update [of L i ?a] assms(1) by (simp add: unat_sub_le)
  moreover have "unat n \<le> unat (acc_lamports (L i))"
    using assms(1) by (simp add: word_le_nat_alt)
  ultimately show ?thesis
    by (simp add: move_lamports_def Let_def)
qed

lemma balance_le_total: "unat (acc_lamports (L k)) \<le> total L"
  unfolding total_def by (rule member_le_sum) simp_all

lemma balances_le_total:
  assumes "j \<noteq> k"
  shows "unat (acc_lamports (L j)) + unat (acc_lamports (L k)) \<le> total L"
proof -
  have "(\<Sum>i\<in>{j, k}. unat (acc_lamports (L i))) \<le> total L"
    unfolding total_def by (rule sum_mono2) simp_all
  with assms show ?thesis by simp
qed

section \<open>Which accounts change\<close>

text \<open>Outside \<open>K\<close>, owner and data stay; or an account the program did not own is left
  without data, as a new fee vault is.\<close>

definition quiet :: "pubkey \<Rightarrow> pubkey set \<Rightarrow> ledger \<Rightarrow> ledger \<Rightarrow> bool" where
  "quiet pid K L L' \<longleftrightarrow> (\<forall>k. k \<notin> K \<longrightarrow>
     acc_owner (L' k) = acc_owner (L k) \<and> acc_data (L' k) = acc_data (L k) \<or>
     acc_owner (L k) \<noteq> pid \<and> acc_data (L' k) = [])"

definition spends :: "pubkey set \<Rightarrow> ledger \<Rightarrow> ledger \<Rightarrow> bool" where
  "spends P L L' \<longleftrightarrow> (\<forall>k. k \<notin> P \<longrightarrow> acc_lamports (L k) \<le> acc_lamports (L' k))"

definition effect :: "pubkey \<Rightarrow> pubkey set \<Rightarrow> pubkey set \<Rightarrow> ledger \<Rightarrow> ledger \<Rightarrow> bool" where
  "effect pid K P L L' \<longleftrightarrow> quiet pid K L L' \<and> spends P L L' \<and> total L' = total L"

lemma quiet_refl [simp]: "quiet pid K L L"
  by (simp add: quiet_def)

lemma quiet_trans: "quiet pid K L L1 \<Longrightarrow> quiet pid K L1 L2 \<Longrightarrow> quiet pid K L L2"
  unfolding quiet_def by metis

lemma quiet_mono: "quiet pid K L L' \<Longrightarrow> K \<subseteq> K' \<Longrightarrow> quiet pid K' L L'"
  by (auto simp: quiet_def)

lemma spends_trans: "spends P L L1 \<Longrightarrow> spends P L1 L2 \<Longrightarrow> spends P L L2"
  unfolding spends_def by (meson order_trans)

lemma effect_refl [simp, effect_rules]: "effect pid K P L L"
  by (simp add: effect_def spends_def)

lemma effect_trans: "effect pid K P L L1 \<Longrightarrow> effect pid K P L1 L2 \<Longrightarrow> effect pid K P L L2"
  unfolding effect_def by (metis quiet_trans spends_trans)

lemma effect_mono:
  "effect pid K P L L' \<Longrightarrow> K \<subseteq> K' \<Longrightarrow> P \<subseteq> P' \<Longrightarrow> effect pid K' P' L L'"
  unfolding effect_def by (auto intro: quiet_mono simp: spends_def)

lemma effect_quiet: "effect pid K P L L' \<Longrightarrow> quiet pid K L L'"
  and effect_spends: "effect pid K P L L' \<Longrightarrow> spends P L L'"
  and effect_total: "effect pid K P L L' \<Longrightarrow> total L' = total L"
  by (simp_all add: effect_def)

lemma effect_balance:
  "effect pid K P L L' \<Longrightarrow> ai_key a \<notin> P \<Longrightarrow> unat (lamports L a) \<le> unat (lamports L' a)"
  by (simp add: effect_def spends_def lamports_def word_le_nat_alt)

lemma effect_set_data [effect_rules]: "ai_key a \<in> K \<Longrightarrow> effect pid K P L (set_data a bs L)"
  by (auto simp: effect_def quiet_def spends_def)

text \<open>What a ledger promises of an address outside \<open>K\<close> that the program owned.\<close>

lemma quiet_owned:
  assumes "quiet pid K L L'" "k \<notin> K" "acc_owner (L k) = pid"
  shows "acc_owner (L' k) = pid" "acc_data (L' k) = acc_data (L k)"
  using assms by (auto simp: quiet_def)

lemma effect_move:
  assumes "n \<le> acc_lamports (L i)"
    and "i \<noteq> j \<longrightarrow> unat (acc_lamports (L j)) + unat n < 2 ^ 64"
    and "i \<in> P"
  shows "effect pid K P L (move_lamports i j n L)"
proof -
  have "acc_lamports (L k) \<le> acc_lamports (move_lamports i j n L k)" if "k \<notin> P" for k
    using assms that
    by (auto simp: move_lamports_acc word_le_nat_alt unat_add_lt)
  with total_move_lamports [OF assms(1,2)] show ?thesis
    by (simp add: effect_def spends_def quiet_def)
qed

section \<open>The calls\<close>

context solana
begin

lemma transfer_effect:
  assumes "rt_transfer rt src dst n L = Inr L'" "ai_key src \<in> P"
  shows "effect pid K P L L'"
  using transfer_ok [OF assms(1)] assms(2)
  by (auto simp: lamports_def intro!: effect_move)

lemma transfer_contents:
  assumes "rt_transfer rt src dst n L = Inr L'"
  shows "acc_owner (L' k) = acc_owner (L k)" "acc_data (L' k) = acc_data (L k)"
  using transfer_ok [OF assms] by auto

lemma create_account_effect:
  assumes "rt_create_account rt pid src dst n space own seedss L = Inr L'"
    and "ai_key src \<in> P" and "ai_key dst \<in> K \<or> space = 0"
  shows "effect pid K P L L'"
proof -
  let ?M = "move_lamports (ai_key src) (ai_key dst) n L"
  note ok = create_account_ok [OF assms(1)]
  have "unat (acc_lamports (L (ai_key dst))) + unat n < 2 ^ 64"
    using ok unat_less_2p [of n] by (simp add: lamports_def)
  then have M: "effect pid K P L ?M"
    using ok assms(2) by (intro effect_move) (simp_all add: lamports_def)
  then show ?thesis
    using ok assms(3) pid_not_system
    by (auto simp: effect_def quiet_def spends_def owner_def)
qed

lemma allocate_assign_effect:
  assumes "rt_allocate rt pid dst space seedss L = Inr L1"
    and "rt_assign rt pid dst own seedss L1 = Inr L2"
    and "ai_key dst \<in> K \<or> space = 0"
  shows "effect pid K P L L2"
  using allocate_ok [OF assms(1)] assign_ok [OF assms(2)] assms(3) pid_not_system
  by (auto simp: effect_def quiet_def spends_def owner_def)

lemma resize_effect:
  assumes "rt_resize rt a len L = Inr L'" "ai_key a \<in> K"
  shows "effect pid K P L L'"
  using resize_ok [OF assms(1)] effect_set_data [OF assms(2)] by simp

end

end
