(* ===== verification/Asserts.thy ===== *)
theory Asserts
  imports Runtime Layout
begin

text \<open>
  \<open>src/state/asserts.rs\<close>: the guards every handler is prefixed with. Each has a rule in
  \<open>ok_simps\<close> that says exactly when it passes.
\<close>

definition assert_signer :: "account_info \<Rightarrow> unit res" where
  "assert_signer a = (if is_signer a then Inr () else err MissingSigner)"

definition assert_writable :: "account_info \<Rightarrow> unit res" where
  "assert_writable a = (if is_writable a then Inr () else err NotWritable)"

definition is_uninitialized :: "runtime \<Rightarrow> account_info \<Rightarrow> ledger \<Rightarrow> bool" where
  "is_uninitialized rt a L \<longleftrightarrow> owner L a = rt_system_id rt \<and> length (data L a) = 0"

definition assert_uninitialized :: "runtime \<Rightarrow> account_info \<Rightarrow> ledger \<Rightarrow> unit res" where
  "assert_uninitialized rt a L =
     (if owner L a = rt_system_id rt \<and> length (data L a) = 0 then Inr ()
      else err AccountAlreadyInitialized)"

definition assert_system_program :: "runtime \<Rightarrow> account_info \<Rightarrow> unit res" where
  "assert_system_program rt a =
     (if ai_key a = rt_system_id rt then Inr () else Inl IncorrectProgramId)"

definition assert_owned_by :: "account_info \<Rightarrow> pubkey \<Rightarrow> ledger \<Rightarrow> unit res" where
  "assert_owned_by a own L =
     (if owner L a = own then Inr () else err AccountOwnerMismatch)"

definition assert_pda :: "account_info \<Rightarrow> pubkey \<Rightarrow> unit res" where
  "assert_pda a expected = (if ai_key a \<noteq> expected then err InvalidPda else Inr ())"

definition read_tag :: "account_info \<Rightarrow> ledger \<Rightarrow> u8 res" where
  "read_tag a L = (case data L a of [] \<Rightarrow> err InvalidAccountData | b # _ \<Rightarrow> Inr b)"

text \<open>The upgrade authority sits at bytes 13 to 44 of the ProgramData account, behind the
  option flag at byte 12.\<close>

definition assert_upgrade_authority ::
  "runtime \<Rightarrow> pubkey \<Rightarrow> account_info \<Rightarrow> account_info \<Rightarrow> ledger \<Rightarrow> unit res" where
  "assert_upgrade_authority rt pid programdata authority L =
     (let (expected, _) = rt_find_pda rt [as_ref pid] (rt_loader_id rt) in
      attempt (assert_pda programdata expected) (\<lambda>_.
      attempt (assert_owned_by programdata (rt_loader_id rt) L) (\<lambda>_.
      let bs = data L programdata in
      if length bs < 45 \<or> bs ! 12 \<noteq> 1 then err Unauthorized
      else if ai_key authority \<noteq> pubkey_from (take 32 (drop 13 bs)) then err Unauthorized
      else Inr ())))"

lemmas guard_defs [run_simps] = assert_signer_def assert_writable_def assert_uninitialized_def
  is_uninitialized_def assert_system_program_def assert_owned_by_def assert_pda_def

lemma assert_Inr_iffs [ok_simps]:
  "assert_signer a = Inr u \<longleftrightarrow> is_signer a"
  "assert_writable a = Inr u \<longleftrightarrow> is_writable a"
  "assert_uninitialized rt a L = Inr u \<longleftrightarrow> is_uninitialized rt a L"
  "assert_system_program rt a = Inr u \<longleftrightarrow> ai_key a = rt_system_id rt"
  "assert_owned_by a own L = Inr u \<longleftrightarrow> owner L a = own"
  "assert_pda a expected = Inr u \<longleftrightarrow> ai_key a = expected"
  by (simp_all add: assert_signer_def assert_writable_def assert_uninitialized_def
      is_uninitialized_def assert_system_program_def assert_owned_by_def assert_pda_def)

lemma read_tag_Inr_iff [ok_simps]: "read_tag a L = Inr t \<longleftrightarrow> (\<exists>r. data L a = t # r)"
  by (auto simp: read_tag_def split: list.splits)

lemma assert_upgrade_authority_Inr_iff [ok_simps]:
  "assert_upgrade_authority rt pid programdata authority L = Inr u \<longleftrightarrow>
     ai_key programdata = fst (rt_find_pda rt [as_ref pid] (rt_loader_id rt)) \<and>
     owner L programdata = rt_loader_id rt \<and>
     45 \<le> length (data L programdata) \<and> data L programdata ! 12 = 1 \<and>
     ai_key authority = pubkey_from (take 32 (drop 13 (data L programdata)))"
  by (auto simp: assert_upgrade_authority_def Let_def ok_simps split: prod.splits)

end
