(* ===== verification/Account_Utils.thy ===== *)
theory Account_Utils
  imports Ledger Asserts
begin

text \<open>
  \<open>src/state/account_utils.rs\<close>: the rent top-up, the close routine, and the creation of
  derived accounts that survives a pre-funded address; and \<open>serialize\<close>, the write of a
  struct into an account's buffer.
\<close>

section \<open>Operations\<close>

definition ensure_rent_exempt ::
  "runtime \<Rightarrow> account_info \<Rightarrow> account_info \<Rightarrow> nat \<Rightarrow> ledger \<Rightarrow> ledger res" where
  "ensure_rent_exempt rt payer target data_len L =
     attempt (rt_rent rt) (\<lambda>rent.
     let minimum = rent data_len; current = lamports L target in
     if current \<ge> minimum then Inr L
     else if minimum < current then err InvalidAccountData
     else
       let top_up = minimum - current in
       if top_up > 0 then rt_transfer rt payer target top_up L else Inr L)"

definition close_program_account ::
  "runtime \<Rightarrow> account_info \<Rightarrow> account_info \<Rightarrow> ledger \<Rightarrow> ledger res" where
  "close_program_account rt a recipient L =
     (let n = lamports L a in
      attempt (ok_or (program_error_of InvalidAccountData)
                 (checked_add (lamports L recipient) n)) (\<lambda>sum.
      let L1 = set_lamports recipient sum L;
          L2 = set_lamports a 0 L1;
          L3 = set_data a (replicate (length (data L2 a)) 0) L2 in
      attempt (rt_resize rt a 0 L3) (\<lambda>L4.
      Inr (set_owner a (rt_system_id rt) L4))))"

definition create_pda_account ::
  "runtime \<Rightarrow> pubkey \<Rightarrow> account_info \<Rightarrow> account_info \<Rightarrow> account_info \<Rightarrow> nat \<Rightarrow>
   u8 list list \<Rightarrow> ledger \<Rightarrow> ledger res" where
  "create_pda_account rt pid payer target system_program space signer_seeds L =
     attempt (assert_system_program rt system_program) (\<lambda>_.
     attempt (rt_rent rt) (\<lambda>rent.
     let required = rent space; current = lamports L target in
     if current = 0 then
       rt_create_account rt pid payer target required (of_nat space) pid [signer_seeds] L
     else
       attempt (if current < required
                then rt_transfer rt payer target (required - current) L else Inr L) (\<lambda>L1.
       attempt (rt_allocate rt pid target (of_nat space) [signer_seeds] L1) (\<lambda>L2.
       rt_assign rt pid target pid [signer_seeds] L2))))"

text \<open>\<open>x.serialize(&mut &mut a.data.borrow_mut()[..])?\<close>: the encoding overwrites the front
  of the buffer, and a buffer too short for it is an error.\<close>

definition serialize :: "'a codec \<Rightarrow> 'a \<Rightarrow> account_info \<Rightarrow> ledger \<Rightarrow> ledger res" where
  "serialize c x a L =
     (case enc c x of
        None \<Rightarrow> Inl BorshIoError
      | Some b \<Rightarrow>
          if length b \<le> length (data L a)
          then Inr (set_data a (b @ drop (length b) (data L a)) L)
          else Inl BorshIoError)"

lemmas account_run [run_simps] = ensure_rent_exempt_def close_program_account_def
  create_pda_account_def

section \<open>Writing a struct\<close>

lemma serialize_Inr_iff:
  "serialize c x a L = Inr L' \<longleftrightarrow>
     (\<exists>b. enc c x = Some b \<and> length b \<le> length (data L a) \<and>
          L' = set_data a (b @ drop (length b) (data L a)) L)"
  by (auto simp: serialize_def split: option.splits)

lemma serialize_other:
  "serialize c x a L = Inr L' \<Longrightarrow> k \<noteq> ai_key a \<Longrightarrow> L' k = L k"
  by (auto simp: serialize_Inr_iff)

lemma serialize_keeps:
  assumes "serialize c x a L = Inr L'"
  shows "acc_owner (L' k) = acc_owner (L k)" "acc_lamports (L' k) = acc_lamports (L k)"
    "length (acc_data (L' k)) = length (acc_data (L k))"
  using assms by (auto simp: serialize_Inr_iff data_def)

lemma serialize_effect [effect_rules]:
  "serialize c x a L = Inr L' \<Longrightarrow> ai_key a \<in> K \<Longrightarrow> effect pid K P L L'"
  by (auto simp: serialize_Inr_iff intro: effect_set_data)

context codec
begin

text \<open>A buffer of exactly the value's size then holds exactly the value.\<close>

lemma serialize_exact:
  assumes "serialize c x a L = Inr L'" "length (data L a) = size_of x"
  shows "try_from_slice c (data L' a) = Some x"
  using assms by (auto simp: serialize_Inr_iff try_from_slice_iff enc_size data_def)

lemma serialize_prefix:
  assumes "serialize c x a L = Inr L'"
  shows "deserialize c (data L' a) = Some x"
  using assms by (auto simp: serialize_Inr_iff data_def deserialize_enc)

lemma serialize_succeeds:
  assumes "enc c x \<noteq> None" "size_of x \<le> length (data L a)"
  shows "\<exists>L'. serialize c x a L = Inr L'"
  using assms enc_size by (fastforce simp: serialize_Inr_iff)

end

section \<open>Creating an account\<close>

context solana
begin

lemma ensure_rent_exempt_effect:
  assumes "ensure_rent_exempt rt payer target n L = Inr L'" "ai_key payer \<in> P"
  shows "effect pid K P L L'"
  using assms
  by (auto simp: ensure_rent_exempt_def ok_simps Let_def split: if_splits
      intro: transfer_effect)

lemma ensure_rent_exempt_contents:
  assumes "ensure_rent_exempt rt payer target n L = Inr L'"
  shows "acc_owner (L' k) = acc_owner (L k)" "acc_data (L' k) = acc_data (L k)"
  using assms
  by (auto simp: ensure_rent_exempt_def ok_simps Let_def transfer_contents split: if_splits)

text \<open>The created account belongs to the program, holds zeros, and was neither initialised
  nor owned by the program before.\<close>

lemma create_pda_account_ok:
  assumes "create_pda_account rt pid payer target sp space seeds L = Inr L'"
    and "space < 2 ^ 64"
  shows "owner L target = rt_system_id rt" "data L target = []"
    "owner L' target = pid" "data L' target = replicate space 0"
    "ai_key sp = rt_system_id rt"
    "\<And>k. k \<noteq> ai_key target \<Longrightarrow> acc_owner (L' k) = acc_owner (L k) \<and> acc_data (L' k) = acc_data (L k)"
proof -
  have sp: "unat (of_nat space :: u64) = space"
    using assms(2) by (simp add: unat_of_nat)
  from assms(1) obtain rent where
    body: "(if lamports L target = 0
       then rt_create_account rt pid payer target (rent space) (of_nat space) pid [seeds] L
       else attempt (if lamports L target < rent space
                then rt_transfer rt payer target (rent space - lamports L target) L else Inr L)
         (\<lambda>L1. attempt (rt_allocate rt pid target (of_nat space) [seeds] L1)
         (\<lambda>L2. rt_assign rt pid target pid [seeds] L2))) = Inr L'"
    and key: "ai_key sp = rt_system_id rt"
    by (auto simp: create_pda_account_def ok_simps Let_def)
  have "owner L target = rt_system_id rt \<and> data L target = [] \<and>
    owner L' target = pid \<and> data L' target = replicate space 0 \<and>
    (\<forall>k. k \<noteq> ai_key target \<longrightarrow> acc_owner (L' k) = acc_owner (L k) \<and> acc_data (L' k) = acc_data (L k))"
  proof (cases "lamports L target = 0")
    case True
    with body have "rt_create_account rt pid payer target (rent space) (of_nat space) pid [seeds] L
        = Inr L'" by simp
    from create_account_ok [OF this] show ?thesis
      by (auto simp: owner_def data_def sp)
  next
    case False
    with body obtain L1 L2 where
      L1: "(if lamports L target < rent space
            then rt_transfer rt payer target (rent space - lamports L target) L else Inr L) = Inr L1"
      and L2: "rt_allocate rt pid target (of_nat space) [seeds] L1 = Inr L2"
      and L': "rt_assign rt pid target pid [seeds] L2 = Inr L'"
      by (auto simp: ok_simps)
    have c1: "acc_owner (L1 k) = acc_owner (L k) \<and> acc_data (L1 k) = acc_data (L k)" for k
      using L1 by (auto simp: transfer_contents split: if_splits)
    from allocate_ok [OF L2] assign_ok [OF L'] c1 show ?thesis
      by (auto simp: owner_def data_def sp)
  qed
  with key show "owner L target = rt_system_id rt" "data L target = []"
    "owner L' target = pid" "data L' target = replicate space 0"
    "ai_key sp = rt_system_id rt"
    "\<And>k. k \<noteq> ai_key target \<Longrightarrow> acc_owner (L' k) = acc_owner (L k) \<and> acc_data (L' k) = acc_data (L k)"
    by auto
qed

lemma create_pda_account_effect:
  assumes "create_pda_account rt pid payer target sp space seeds L = Inr L'"
    and "ai_key payer \<in> P" and "ai_key target \<in> K \<or> space = 0"
  shows "effect pid K P L L'"
proof -
  have key: "ai_key target \<in> K \<or> (of_nat space :: u64) = 0"
    using assms(3) by auto
  from assms(1) obtain rent where
    body: "(if lamports L target = 0
       then rt_create_account rt pid payer target (rent space) (of_nat space) pid [seeds] L
       else attempt (if lamports L target < rent space
                then rt_transfer rt payer target (rent space - lamports L target) L else Inr L)
         (\<lambda>L1. attempt (rt_allocate rt pid target (of_nat space) [seeds] L1)
         (\<lambda>L2. rt_assign rt pid target pid [seeds] L2))) = Inr L'"
    by (auto simp: create_pda_account_def ok_simps Let_def)
  show ?thesis
  proof (cases "lamports L target = 0")
    case True
    with body show ?thesis
      using create_account_effect [OF _ assms(2) key] by simp
  next
    case False
    with body obtain L1 L2 where
      L1: "(if lamports L target < rent space
            then rt_transfer rt payer target (rent space - lamports L target) L else Inr L) = Inr L1"
      and L2: "rt_allocate rt pid target (of_nat space) [seeds] L1 = Inr L2"
      and L': "rt_assign rt pid target pid [seeds] L2 = Inr L'"
      by (auto simp: ok_simps)
    from L1 have "effect pid K P L L1"
      by (auto split: if_splits intro: transfer_effect [OF _ assms(2)])
    moreover from L2 L' key have "effect pid K P L1 L'"
      by (rule allocate_assign_effect)
    ultimately show ?thesis by (rule effect_trans)
  qed
qed

text \<open>A created account holds at least the rent-exempt minimum of its size.\<close>

lemma create_pda_account_funded:
  assumes "create_pda_account rt pid payer target sp space seeds L = Inr L'"
    and "rt_rent rt = Inr rent" and "ai_key payer \<noteq> ai_key target"
  shows "rent space \<le> lamports L' target"
proof (cases "lamports L target = 0")
  case True
  with assms(1,2)
  have "rt_create_account rt pid payer target (rent space) (of_nat space) pid [seeds] L = Inr L'"
    by (auto simp: create_pda_account_def ok_simps Let_def)
  from create_account_ok [OF this] True show ?thesis
    by (auto simp: lamports_def move_lamports_acc)
next
  case False
  with assms(1,2) obtain L1 L2 where
    L1: "(if lamports L target < rent space
          then rt_transfer rt payer target (rent space - lamports L target) L else Inr L) = Inr L1"
    and L2: "rt_allocate rt pid target (of_nat space) [seeds] L1 = Inr L2"
    and L': "rt_assign rt pid target pid [seeds] L2 = Inr L'"
    by (auto simp: create_pda_account_def ok_simps Let_def)
  have "lamports L' target = lamports L1 target"
    using allocate_ok [OF L2] assign_ok [OF L'] by (auto simp: lamports_def)
  moreover have "rent space \<le> lamports L1 target"
  proof (cases "lamports L target < rent space")
    case True
    with L1 have "rt_transfer rt payer target (rent space - lamports L target) L = Inr L1" by simp
    from transfer_ok [OF this] assms(3) show ?thesis
      by (auto simp: lamports_def move_lamports_acc)
  next
    case False
    with L1 show ?thesis by auto
  qed
  ultimately show ?thesis by simp
qed

text \<open>The close: the account is emptied into the recipient and given back to the System
  Program.\<close>

lemma close_program_account_ok:
  assumes "close_program_account rt a recipient L = Inr L'" "ai_key a \<noteq> ai_key recipient"
  shows "lamports L' a = 0" "data L' a = []" "owner L' a = rt_system_id rt"
    "unat (lamports L' recipient) = unat (lamports L recipient) + unat (lamports L a)"
    "owner L' recipient = owner L recipient" "data L' recipient = data L recipient"
    "\<And>k. k \<noteq> ai_key a \<Longrightarrow> k \<noteq> ai_key recipient \<Longrightarrow> L' k = L k"
  using assms
  by (auto simp: close_program_account_def ok_simps Let_def checked_add_Some_iff ledger_defs
      unat_add_lt dest!: resize_ok)

lemma close_program_account_effect:
  assumes "close_program_account rt a recipient L = Inr L'" "ai_key a \<noteq> ai_key recipient"
    and "ai_key a \<in> K" "ai_key a \<in> P"
  shows "effect pid K P L L'"
proof -
  note ok = close_program_account_ok [OF assms(1,2)]
  from assms(1) obtain s where s: "checked_add (lamports L recipient) (lamports L a) = Some s"
    by (auto simp: close_program_account_def ok_simps Let_def)
  have "lamports L' recipient = s"
    using ok(4) s by (auto simp: checked_add_Some_iff unat_add_lt word_unat_eq_iff)
  then have "total L' = total (set_lamports a 0 (set_lamports recipient s L))"
    using ok(1,7) assms(2) by (intro total_cong) (auto simp: lamports_def)
  also have "\<dots> = total L"
    using total_set_lamports [of recipient s L] s assms(2)
      total_set_lamports [of a 0 "set_lamports recipient s L"]
    by (auto simp: checked_add_Some_iff unat_add_lt lamports_def)
  finally have "total L' = total L" .
  moreover have "spends P L L'"
    unfolding spends_def
  proof (intro allI impI)
    fix k
    assume "k \<notin> P"
    with assms(4) have "k \<noteq> ai_key a" by auto
    with ok(4,7) show "acc_lamports (L k) \<le> acc_lamports (L' k)"
      by (cases "k = ai_key recipient") (auto simp: lamports_def word_le_nat_alt)
  qed
  moreover have "quiet pid K L L'"
    unfolding quiet_def
  proof (intro allI impI)
    fix k
    assume "k \<notin> K"
    with assms(3) have "k \<noteq> ai_key a" by auto
    with ok(5,6,7) show "acc_owner (L' k) = acc_owner (L k) \<and> acc_data (L' k) = acc_data (L k) \<or>
        acc_owner (L k) \<noteq> pid \<and> acc_data (L' k) = []"
      by (cases "k = ai_key recipient") (auto simp: owner_def data_def)
  qed
  ultimately show ?thesis by (simp add: effect_def)
qed

text \<open>Create an account of a struct's size, then write the struct: the account holds it.\<close>

lemma create_then_serialize:
  assumes "codec c size_of"
    and "create_pda_account rt pid payer target sp space seeds L = Inr L1"
    and "serialize c x target L1 = Inr L'"
    and "space = size_of x" "space < 2 ^ 64"
  shows "owner L' target = pid" "try_from_slice c (data L' target) = Some x"
    "is_uninitialized rt target L" "ai_key sp = rt_system_id rt"
    "\<And>k. k \<noteq> ai_key target \<Longrightarrow> acc_owner (L' k) = acc_owner (L k) \<and> acc_data (L' k) = acc_data (L k)"
proof -
  note made = create_pda_account_ok [OF assms(2,5)]
  show "owner L' target = pid"
    using made(3) serialize_keeps [OF assms(3)] by (simp add: owner_def)
  show "try_from_slice c (data L' target) = Some x"
    using codec.serialize_exact [OF assms(1,3)] made(4) assms(4) by simp
  show "is_uninitialized rt target L" "ai_key sp = rt_system_id rt"
    using made(1,2,5) by (simp_all add: is_uninitialized_def)
  show "acc_owner (L' k) = acc_owner (L k) \<and> acc_data (L' k) = acc_data (L k)"
    if "k \<noteq> ai_key target" for k
    using made(6) [OF that] serialize_other [OF assms(3) that] by simp
qed

text \<open>An account the program has initialised is not an uninitialised one.\<close>

lemma owned_initialized: "owner L a = pid \<Longrightarrow> \<not> is_uninitialized rt a L"
  using pid_not_system by (simp add: is_uninitialized_def)

end

context solana_live
begin

text \<open>With the documented conditions met, a derived account can be created at its address,
  whatever somebody has sent there before.\<close>

lemma create_pda_account_live:
  assumes "rt_find_pda rt seeds pid = (ai_key target, bump)" and rent: "rt_rent rt = Inr rent"
    and payer: "is_signer payer" "is_writable payer" "owner L payer = rt_system_id rt"
      "data L payer = []" "rent space \<le> lamports L payer" "ai_key payer \<noteq> ai_key target"
    and target: "is_writable target" "owner L target = rt_system_id rt" "data L target = []"
    and "ai_key sp = rt_system_id rt" "space \<le> max_data_increase"
  shows "\<exists>L'. create_pda_account rt pid payer target sp space (seeds @ [[bump]]) L = Inr L'"
proof -
  have small: "unat (of_nat space :: u64) = space"
    using assms(13) by (simp add: unat_of_nat max_data_increase_def)
  have signs: "signs rt pid target [seeds @ [[bump]]]"
    using find_pda_signs [OF assms(1)] by (simp add: signs_def)
  have sp: "assert_system_program rt sp = Inr ()"
    using assms(12) by (simp add: assert_Inr_iffs)
  show ?thesis
  proof (cases "lamports L target = 0")
    case True
    with create_account_live [of payer target "[seeds @ [[bump]]]" L "rent space" "of_nat space" pid]
      payer target signs small assms(13)
    show ?thesis by (simp add: create_pda_account_def sp rent Let_def)
  next
    case False
    obtain L1 where L1: "(if lamports L target < rent space
        then rt_transfer rt payer target (rent space - lamports L target) L else Inr L) = Inr L1"
      and c: "owner L1 target = owner L target" "data L1 target = data L target"
    proof (cases "lamports L target < rent space")
      case True
      have le: "unat (lamports L target) \<le> unat (rent space)"
        "unat (rent space) \<le> unat (lamports L payer)"
        using True payer(5) by (simp_all add: word_le_nat_alt word_less_nat_alt)
      then have top_up: "unat (rent space - lamports L target) = unat (rent space) - unat (lamports L target)"
        by (simp add: unat_sub word_le_nat_alt)
      have "unat (rent space) < 2 ^ 64" using unsigned_less [of "rent space"] by simp
      with le top_up have "rent space - lamports L target \<le> lamports L payer"
        "unat (lamports L target) + unat (rent space - lamports L target) < 2 ^ 64"
        by (simp_all add: word_le_nat_alt)
      with transfer_live [of payer target L] payer target obtain L1 where
        "rt_transfer rt payer target (rent space - lamports L target) L = Inr L1" by blast
      with that True transfer_contents show thesis by (simp add: owner_def data_def)
    qed (use that in simp)
    from allocate_live [OF target(1) signs, of L1 "of_nat space"] c target small assms(13)
    obtain L2 where L2: "rt_allocate rt pid target (of_nat space) [seeds @ [[bump]]] L1 = Inr L2"
      by auto
    from allocate_ok [OF L2] c target have "owner L2 target = rt_system_id rt"
      by (simp add: owner_def)
    from assign_live [OF target(1) signs this] obtain L3 where
      "rt_assign rt pid target pid [seeds @ [[bump]]] L2 = Inr L3" by blast
    with False L1 L2 show ?thesis by (simp add: create_pda_account_def sp rent Let_def)
  qed
qed

end

end
