(* ===== verification/Pda.thy ===== *)
theory Pda
  imports Runtime Layout
begin

text \<open>
  \<open>src/state/pda.rs\<close> and \<open>derive_content_pda\<close> of \<open>src/content/mod.rs\<close>: the seeds of every
  address the program derives. The derivation itself is the parameter \<open>rt_find_pda\<close>.
\<close>

definition derive_settings_pda :: "runtime \<Rightarrow> pubkey \<Rightarrow> pubkey \<times> u8" where
  "derive_settings_pda rt pid = rt_find_pda rt [SETTINGS_SEED] pid"

definition derive_alloc_pda :: "runtime \<Rightarrow> pubkey \<Rightarrow> pubkey \<Rightarrow> u32 \<Rightarrow> pubkey \<times> u8" where
  "derive_alloc_pda rt pid thread alloc_seq =
     rt_find_pda rt [ALLOC_SEED, as_ref thread, le_bytes 4 (unat alloc_seq)] pid"

definition derive_access_pda :: "runtime \<Rightarrow> pubkey \<Rightarrow> pubkey \<Rightarrow> pubkey \<times> u8" where
  "derive_access_pda rt pid thread = rt_find_pda rt [ACCESS_SEED, as_ref thread] pid"

definition derive_access_entry_pda ::
  "runtime \<Rightarrow> pubkey \<Rightarrow> pubkey \<Rightarrow> pubkey \<Rightarrow> pubkey \<times> u8" where
  "derive_access_entry_pda rt pid thread wallet =
     rt_find_pda rt [ACL_SEED, as_ref thread, as_ref wallet] pid"

definition derive_likes_pda :: "runtime \<Rightarrow> pubkey \<Rightarrow> pubkey \<Rightarrow> u32 \<Rightarrow> pubkey \<times> u8" where
  "derive_likes_pda rt pid thread alloc_seq =
     rt_find_pda rt [LIKES_SEED, as_ref thread, le_bytes 4 (unat alloc_seq)] pid"

definition derive_treasury_shard_pda :: "runtime \<Rightarrow> pubkey \<Rightarrow> u16 \<Rightarrow> pubkey \<times> u8" where
  "derive_treasury_shard_pda rt pid shard =
     rt_find_pda rt [TREASURY_SHARD_SEED, le_bytes 2 (unat shard)] pid"

definition derive_author_fee_pda ::
  "runtime \<Rightarrow> pubkey \<Rightarrow> pubkey \<Rightarrow> u8 \<Rightarrow> pubkey \<times> u8" where
  "derive_author_fee_pda rt pid thread shard =
     rt_find_pda rt [AUTHOR_FEE_SEED, as_ref thread, [shard]] pid"

definition derive_follow_registry_pda :: "runtime \<Rightarrow> pubkey \<Rightarrow> pubkey \<Rightarrow> pubkey \<times> u8" where
  "derive_follow_registry_pda rt pid own = rt_find_pda rt [FOLLOWS_SEED, as_ref own] pid"

definition derive_follower_shard_pda ::
  "runtime \<Rightarrow> pubkey \<Rightarrow> pubkey \<Rightarrow> u8 \<Rightarrow> pubkey \<times> u8" where
  "derive_follower_shard_pda rt pid thread shard =
     rt_find_pda rt [FOLLOWER_COUNT_SEED, as_ref thread, [shard]] pid"

definition derive_content_pda ::
  "runtime \<Rightarrow> pubkey \<Rightarrow> pubkey \<Rightarrow> u32 \<Rightarrow> u8 \<Rightarrow> pubkey \<times> u8" where
  "derive_content_pda rt pid thread alloc_seq slot =
     rt_find_pda rt [CONTENT_SEED, as_ref thread, le_bytes 4 (unat alloc_seq), [slot]] pid"

lemmas derive_defs = derive_settings_pda_def derive_alloc_pda_def derive_access_pda_def
  derive_access_entry_pda_def derive_likes_pda_def derive_treasury_shard_pda_def
  derive_author_fee_pda_def derive_follow_registry_pda_def derive_follower_shard_pda_def
  derive_content_pda_def

text \<open>\<open>let (address, bump) = derive(..)\<close>, without touching other pairs.\<close>

lemmas derive_split =
  case_prod_beta [where p = "derive_settings_pda rt pid" for rt pid]
  case_prod_beta [where p = "derive_alloc_pda rt pid th q" for rt pid th q]
  case_prod_beta [where p = "derive_access_pda rt pid th" for rt pid th]
  case_prod_beta [where p = "derive_access_entry_pda rt pid th w" for rt pid th w]
  case_prod_beta [where p = "derive_likes_pda rt pid th q" for rt pid th q]
  case_prod_beta [where p = "derive_treasury_shard_pda rt pid i" for rt pid i]
  case_prod_beta [where p = "derive_author_fee_pda rt pid th i" for rt pid th i]
  case_prod_beta [where p = "derive_follow_registry_pda rt pid w" for rt pid w]
  case_prod_beta [where p = "derive_follower_shard_pda rt pid th i" for rt pid th i]
  case_prod_beta [where p = "derive_content_pda rt pid th q s" for rt pid th q s]

text \<open>The shard of a wallet's follows: its first byte, modulo the number of shards.\<close>

definition follower_shard_index :: "pubkey \<Rightarrow> u8" where
  "follower_shard_index wallet = as_ref wallet ! 0 mod N_FOLLOWER_SHARDS"

lemma follower_shard_index_less: "follower_shard_index wallet < N_FOLLOWER_SHARDS"
  by (simp add: follower_shard_index_def N_FOLLOWER_SHARDS_def word_mod_less_divisor)

text \<open>The seeds of two kinds of account are never the same list, so no kind's address can be
  passed for another's without a collision of the hash.\<close>

lemmas seed_defs = SETTINGS_SEED_def ALLOC_SEED_def ACCESS_SEED_def ACL_SEED_def LIKES_SEED_def
  TREASURY_SHARD_SEED_def AUTHOR_FEE_SEED_def FOLLOWS_SEED_def FOLLOWER_COUNT_SEED_def
  CONTENT_SEED_def bytes_of_def

end
