(* ===== verification/Views.thy ===== *)
theory Views
  imports Account_Utils Pda
begin

text \<open>
  What an account means to the program: the struct it holds, if the program owns it, its bytes
  decode and its tag is right. The loaders compute these views, the handlers' effects are
  stated with them, and the locale \<open>account_view\<close> is what both rely on: a view depends on an
  account's owner and data only, and an account outside the changed ones keeps its view.
\<close>

section \<open>The contract of a view\<close>

locale account_view =
  fixes view :: "ledger \<Rightarrow> pubkey \<Rightarrow> 'a option" and pid :: pubkey
  assumes view_cong: "acc_owner (L' k) = acc_owner (L k) \<Longrightarrow> acc_data (L' k) = acc_data (L k) \<Longrightarrow>
      view L' k = view L k"
    and view_owner: "view L k = Some x \<Longrightarrow> acc_owner (L k) = pid"
    and view_nonempty: "view L k = Some x \<Longrightarrow> acc_data (L k) \<noteq> []"
begin

lemma view_unowned: "acc_owner (L k) \<noteq> pid \<Longrightarrow> view L k = None"
  by (cases "view L k") (auto dest: view_owner)

lemma view_empty: "acc_data (L k) = [] \<Longrightarrow> view L k = None"
  by (cases "view L k") (auto dest: view_nonempty)

lemma view_quiet: "quiet pid K L L' \<Longrightarrow> k \<notin> K \<Longrightarrow> view L' k = view L k"
  by (metis quiet_def view_cong view_unowned view_empty)

lemma view_effect: "effect pid K P L L' \<Longrightarrow> k \<notin> K \<Longrightarrow> view L' k = view L k"
  by (rule view_quiet [OF effect_quiet])

lemma view_same: "L' k = L k \<Longrightarrow> view L' k = view L k"
  by (rule view_cong) simp_all

end

section \<open>The views\<close>

definition stored ::
  "pubkey \<Rightarrow> (u8 list \<Rightarrow> 'a option) \<Rightarrow> ('a \<Rightarrow> u8) \<Rightarrow> u8 \<Rightarrow> ledger \<Rightarrow> pubkey \<Rightarrow> 'a option" where
  "stored pid decode tag_of tag L k =
     (if acc_owner (L k) = pid
      then case decode (acc_data (L k)) of
          None \<Rightarrow> None
        | Some x \<Rightarrow> if tag_of x = tag then Some x else None
      else None)"

lemma stored_Some_iff:
  "stored pid decode tag_of tag L k = Some x \<longleftrightarrow>
     acc_owner (L k) = pid \<and> decode (acc_data (L k)) = Some x \<and> tag_of x = tag"
  by (auto simp: stored_def split: option.splits)

lemma stored_view: "decode [] = None \<Longrightarrow> account_view (stored pid decode tag_of tag) pid"
  by unfold_locales (auto simp: stored_def split: option.splits if_splits)

definition alloc_at :: "runtime \<Rightarrow> pubkey \<Rightarrow> ledger \<Rightarrow> pubkey \<Rightarrow> alloc_node option" where
  "alloc_at rt pid =
     stored pid (try_from_slice (alloc_node_codec (rt_borsh rt))) an_tag TAG_ALLOC"

definition thread_at :: "runtime \<Rightarrow> pubkey \<Rightarrow> ledger \<Rightarrow> pubkey \<Rightarrow> thread_node option" where
  "thread_at rt pid =
     stored pid (try_from_slice (thread_node_codec (rt_borsh rt))) tn_tag TAG_THREAD"

definition settings_at :: "runtime \<Rightarrow> pubkey \<Rightarrow> ledger \<Rightarrow> pubkey \<Rightarrow> program_settings option" where
  "settings_at rt pid =
     stored pid (try_from_slice (program_settings_codec (rt_borsh rt))) ps_tag TAG_SETTINGS"

text \<open>\<open>load_thread_access\<close> and \<open>load_access_entry\<close> use \<open>deserialize\<close>, which leaves trailing
  bytes unread.\<close>

definition access_at :: "runtime \<Rightarrow> pubkey \<Rightarrow> ledger \<Rightarrow> pubkey \<Rightarrow> thread_access option" where
  "access_at rt pid =
     stored pid (deserialize (thread_access_codec (rt_borsh rt))) ta_tag TAG_ACCESS"

definition entry_at :: "runtime \<Rightarrow> pubkey \<Rightarrow> ledger \<Rightarrow> pubkey \<Rightarrow> access_entry option" where
  "entry_at rt pid =
     stored pid (deserialize (access_entry_codec (rt_borsh rt))) ae_tag TAG_ACCESS_ENTRY"

definition likes_at :: "runtime \<Rightarrow> pubkey \<Rightarrow> ledger \<Rightarrow> pubkey \<Rightarrow> alloc_likes option" where
  "likes_at rt pid =
     stored pid (try_from_slice (alloc_likes_codec (rt_borsh rt))) al_tag TAG_LIKES"

definition registry_at :: "runtime \<Rightarrow> pubkey \<Rightarrow> ledger \<Rightarrow> pubkey \<Rightarrow> follow_registry option" where
  "registry_at rt pid =
     stored pid (try_from_slice (follow_registry_codec (rt_borsh rt))) fr_tag TAG_FOLLOW_REGISTRY"

definition follower_shard_at ::
  "runtime \<Rightarrow> pubkey \<Rightarrow> ledger \<Rightarrow> pubkey \<Rightarrow> follower_shard option" where
  "follower_shard_at rt pid =
     stored pid (try_from_slice (follower_shard_codec (rt_borsh rt))) fs_tag TAG_FOLLOWER_SHARD"

definition content_at :: "runtime \<Rightarrow> pubkey \<Rightarrow> ledger \<Rightarrow> pubkey \<Rightarrow> content_node option" where
  "content_at rt pid =
     stored pid (try_from_slice (content_node_codec (rt_borsh rt))) (\<lambda>c. ch_tag (cn_header c))
       TAG_CONTENT"

lemmas view_defs = alloc_at_def thread_at_def settings_at_def access_at_def entry_at_def
  likes_at_def registry_at_def follower_shard_at_def content_at_def

sublocale solana \<subseteq> fmt: borsh_format "rt_borsh rt"
  by (rule format)

sublocale solana \<subseteq> alloc_view: account_view "alloc_at rt pid" pid
  unfolding view_defs by (rule stored_view) (rule fmt.alloc.try_from_slice_Nil)

sublocale solana \<subseteq> thread_view: account_view "thread_at rt pid" pid
  unfolding view_defs by (rule stored_view) (rule fmt.thread.try_from_slice_Nil)

sublocale solana \<subseteq> settings_view: account_view "settings_at rt pid" pid
  unfolding view_defs by (rule stored_view) (rule fmt.settings.try_from_slice_Nil)

sublocale solana \<subseteq> access_view: account_view "access_at rt pid" pid
  unfolding view_defs by (rule stored_view) (rule fmt.access.deserialize_Nil)

sublocale solana \<subseteq> entry_view: account_view "entry_at rt pid" pid
  unfolding view_defs by (rule stored_view) (rule fmt.entry.deserialize_Nil)

sublocale solana \<subseteq> likes_view: account_view "likes_at rt pid" pid
  unfolding view_defs by (rule stored_view) (rule fmt.likes.try_from_slice_Nil)

sublocale solana \<subseteq> registry_view: account_view "registry_at rt pid" pid
  unfolding view_defs by (rule stored_view) (rule fmt.registry.try_from_slice_Nil)

sublocale solana \<subseteq> shard_view: account_view "follower_shard_at rt pid" pid
  unfolding view_defs by (rule stored_view) (rule fmt.shard.try_from_slice_Nil)

sublocale solana \<subseteq> content_view: account_view "content_at rt pid" pid
  unfolding view_defs by (rule stored_view) (rule fmt.content.try_from_slice_Nil)

section \<open>An address holds one kind of account\<close>

definition tag_byte :: "pubkey \<Rightarrow> ledger \<Rightarrow> pubkey \<Rightarrow> u8 option" where
  "tag_byte pid L k =
     (if acc_owner (L k) = pid
      then case acc_data (L k) of [] \<Rightarrow> None | b # _ \<Rightarrow> Some b else None)"

context solana
begin

text \<open>Each view fixes the account's first byte, so two views of different tags exclude each
  other.\<close>

lemma view_tag_byte:
  "alloc_at rt pid L k = Some a \<Longrightarrow> tag_byte pid L k = Some TAG_ALLOC"
  "thread_at rt pid L k = Some t \<Longrightarrow> tag_byte pid L k = Some TAG_THREAD"
  "settings_at rt pid L k = Some s \<Longrightarrow> tag_byte pid L k = Some TAG_SETTINGS"
  "access_at rt pid L k = Some c \<Longrightarrow> tag_byte pid L k = Some TAG_ACCESS"
  "entry_at rt pid L k = Some e \<Longrightarrow> tag_byte pid L k = Some TAG_ACCESS_ENTRY"
  "likes_at rt pid L k = Some l \<Longrightarrow> tag_byte pid L k = Some TAG_LIKES"
  "registry_at rt pid L k = Some r \<Longrightarrow> tag_byte pid L k = Some TAG_FOLLOW_REGISTRY"
  "follower_shard_at rt pid L k = Some f \<Longrightarrow> tag_byte pid L k = Some TAG_FOLLOWER_SHARD"
  "content_at rt pid L k = Some n \<Longrightarrow> tag_byte pid L k = Some TAG_CONTENT"
  unfolding view_defs stored_Some_iff tag_byte_def
  by (auto dest: fmt.alloc.try_from_slice_tag fmt.thread.try_from_slice_tag
      fmt.settings.try_from_slice_tag fmt.access.deserialize_tag fmt.entry.deserialize_tag
      fmt.likes.try_from_slice_tag fmt.registry.try_from_slice_tag
      fmt.shard.try_from_slice_tag fmt.content.try_from_slice_tag)

lemma uninitialized_no_tag: "is_uninitialized rt a L \<Longrightarrow> tag_byte pid L (ai_key a) = None"
  using pid_not_system by (auto simp: is_uninitialized_def owner_def tag_byte_def)

lemma tag_byte_empty: "acc_data (L k) = [] \<Longrightarrow> tag_byte pid L k = None"
  by (simp add: tag_byte_def)

lemmas tags = view_tag_byte uninitialized_no_tag tag_byte_empty

end

text \<open>The tag byte is itself a view.\<close>

sublocale solana \<subseteq> tag_view: account_view "tag_byte pid" pid
  by unfold_locales (auto simp: tag_byte_def split: if_splits list.splits)

end
