(* ===== verification/Reference.thy ===== *)
theory Reference
  imports Views
begin

text \<open>
  A concrete runtime: the System Program, the rent and the resize rule as they are documented,
  the Borsh format of the specification, and a small stand-in for the hash of the address
  derivation. It meets the contracts \<open>solana\<close> and \<open>solana_live\<close>, so what is proved under them
  is not vacuous, and the handlers can be run on it.
\<close>

definition ref_pid :: pubkey where "ref_pid = 9"
definition ref_system_id :: pubkey where "ref_system_id = 0"
definition ref_loader_id :: pubkey where "ref_loader_id = 2"

definition ref_hash :: "u8 list list \<Rightarrow> pubkey" where
  "ref_hash seeds =
     of_nat (1000 + fold (\<lambda>s a. (a * 257 + of_le_bytes s) mod 1000003) seeds 1)"

definition ref_create_pda :: "u8 list list \<Rightarrow> pubkey \<Rightarrow> pubkey option" where
  "ref_create_pda seeds pid = Some (ref_hash seeds)"

definition ref_find_pda :: "u8 list list \<Rightarrow> pubkey \<Rightarrow> pubkey \<times> u8" where
  "ref_find_pda seeds pid = (ref_hash (seeds @ [[255]]), 255)"

definition ref_signs :: "pubkey \<Rightarrow> account_info \<Rightarrow> u8 list list list \<Rightarrow> bool" where
  "ref_signs pid a seedss \<longleftrightarrow>
     is_signer a \<or> list_ex (\<lambda>seeds. ref_create_pda seeds pid = Some (ai_key a)) seedss"

text \<open>Twice the yearly rate of 3480 lamports per byte, with 128 bytes of overhead.\<close>

definition ref_rent :: "nat \<Rightarrow> u64" where
  "ref_rent n = of_nat ((128 + n) * 6960)"

definition ref_transfer ::
  "account_info \<Rightarrow> account_info \<Rightarrow> u64 \<Rightarrow> ledger \<Rightarrow> ledger res" where
  "ref_transfer src dst n L =
     (if is_signer src \<and> is_writable src \<and> is_writable dst \<and> owner L src = ref_system_id \<and>
         data L src = [] \<and> n \<le> lamports L src \<and>
         (ai_key src = ai_key dst \<or> unat (lamports L dst) + unat n < 2 ^ 64)
      then Inr (move_lamports (ai_key src) (ai_key dst) n L) else Inl (External 1))"

definition ref_create_account ::
  "pubkey \<Rightarrow> account_info \<Rightarrow> account_info \<Rightarrow> u64 \<Rightarrow> u64 \<Rightarrow> pubkey \<Rightarrow> u8 list list list \<Rightarrow>
   ledger \<Rightarrow> ledger res" where
  "ref_create_account pid src dst n space own seedss L =
     (if is_signer src \<and> is_writable src \<and> is_writable dst \<and> ref_signs pid dst seedss \<and>
         owner L src = ref_system_id \<and> data L src = [] \<and> n \<le> lamports L src \<and>
         ai_key src \<noteq> ai_key dst \<and> lamports L dst = 0 \<and> owner L dst = ref_system_id \<and>
         data L dst = [] \<and> unat space \<le> max_data_increase
      then Inr (set_owner dst own (set_data dst (replicate (unat space) 0)
             (move_lamports (ai_key src) (ai_key dst) n L)))
      else Inl (External 1))"

definition ref_allocate ::
  "pubkey \<Rightarrow> account_info \<Rightarrow> u64 \<Rightarrow> u8 list list list \<Rightarrow> ledger \<Rightarrow> ledger res" where
  "ref_allocate pid dst space seedss L =
     (if is_writable dst \<and> ref_signs pid dst seedss \<and> owner L dst = ref_system_id \<and>
         data L dst = [] \<and> unat space \<le> max_data_increase
      then Inr (set_data dst (replicate (unat space) 0) L) else Inl (External 1))"

definition ref_assign ::
  "pubkey \<Rightarrow> account_info \<Rightarrow> pubkey \<Rightarrow> u8 list list list \<Rightarrow> ledger \<Rightarrow> ledger res" where
  "ref_assign pid dst own seedss L =
     (if owner L dst = own \<or>
         (is_writable dst \<and> ref_signs pid dst seedss \<and> owner L dst = ref_system_id)
      then Inr (set_owner dst own L) else Inl (External 1))"

definition ref_resize :: "account_info \<Rightarrow> nat \<Rightarrow> ledger \<Rightarrow> ledger res" where
  "ref_resize a len L =
     (if len \<le> length (data L a) + max_data_increase
      then Inr (set_data a (take len (data L a) @ replicate (len - length (data L a)) 0) L)
      else Inl (External 2))"

definition ref_rt :: "i64 \<Rightarrow> runtime" where
  "ref_rt now = \<lparr>rt_borsh = ref_borsh, rt_find_pda = ref_find_pda, rt_create_pda = ref_create_pda,
     rt_system_id = ref_system_id, rt_loader_id = ref_loader_id, rt_rent = Inr ref_rent,
     rt_clock = Inr now, rt_transfer = ref_transfer, rt_create_account = ref_create_account,
     rt_allocate = ref_allocate, rt_assign = ref_assign, rt_resize = ref_resize\<rparr>"

lemma ref_rt_simps [simp]:
  "rt_borsh (ref_rt now) = ref_borsh" "rt_find_pda (ref_rt now) = ref_find_pda"
  "rt_create_pda (ref_rt now) = ref_create_pda" "rt_system_id (ref_rt now) = ref_system_id"
  "rt_loader_id (ref_rt now) = ref_loader_id" "rt_rent (ref_rt now) = Inr ref_rent"
  "rt_clock (ref_rt now) = Inr now" "rt_transfer (ref_rt now) = ref_transfer"
  "rt_create_account (ref_rt now) = ref_create_account"
  "rt_allocate (ref_rt now) = ref_allocate" "rt_assign (ref_rt now) = ref_assign"
  "rt_resize (ref_rt now) = ref_resize"
  by (simp_all add: ref_rt_def)

lemma ref_signs_eq: "ref_signs pid a seedss = signs (ref_rt now) pid a seedss"
  by (simp add: ref_signs_def signs_def)

interpretation ref_runtime: solana_live "ref_rt now" ref_pid
proof (intro solana_live.intro solana.intro solana_live_axioms.intro, goal_cases)
  case 1 then show ?case by (simp add: ref_format.borsh_format_axioms)
next
  case 2 then show ?case by (simp add: ref_pid_def ref_system_id_def)
next
  case (3 src dst n L L')
  then show ?case by (auto simp: ref_transfer_def split: if_splits)
next
  case (4 src dst n space own seedss L L')
  then show ?case by (auto simp: ref_create_account_def ref_signs_eq [of _ _ _ now] split: if_splits)
next
  case (5 dst space seedss L L')
  then show ?case by (auto simp: ref_allocate_def ref_signs_eq [of _ _ _ now] split: if_splits)
next
  case (6 dst own seedss L L')
  then show ?case by (auto simp: ref_assign_def ref_signs_eq [of _ _ _ now] split: if_splits)
next
  case (7 a len L L')
  then show ?case by (auto simp: ref_resize_def split: if_splits)
next
  case (8 seeds k bump)
  then show ?case by (auto simp: ref_find_pda_def ref_create_pda_def)
next
  case 9 then show ?case by simp
next
  case (10 src dst L n)
  then show ?case by (auto simp: ref_transfer_def)
next
  case (11 src dst seedss L n space own)
  then show ?case by (auto simp: ref_create_account_def ref_signs_eq [of _ _ _ now])
next
  case (12 dst seedss L space)
  then show ?case by (auto simp: ref_allocate_def ref_signs_eq [of _ _ _ now])
next
  case (13 dst seedss L own)
  then show ?case by (auto simp: ref_assign_def ref_signs_eq [of _ _ _ now])
next
  case (14 len L a)
  then show ?case by (simp add: ref_resize_def)
qed

end
