(* ===== verification/Stage.thy ===== *)
theory Stage
  imports Reference
begin

text \<open>
  A small world on the reference runtime: a few funded wallets, the settings, one thread with
  two alloc nodes, its access account and entries, a message with likes, fee vaults and follow
  accounts. Account data are images of structs under their codecs, so a handler runs on it by
  the codecs' laws, without computing a byte.
\<close>

section \<open>Images of structs\<close>

definition image_of :: "'a codec \<Rightarrow> 'a \<Rightarrow> u8 list" where
  "image_of c x = the (enc c x)"

context codec
begin

lemma image_laws:
  assumes "enc c x \<noteq> None"
  shows "try_from_slice c (image_of c x) = Some x" "deserialize c (image_of c x) = Some x"
    "length (image_of c x) = size_of x"
    "serialize c x a L = (if size_of x \<le> length (data L a)
       then Inr (set_data a (image_of c x @ drop (size_of x) (data L a)) L) else Inl BorshIoError)"
proof -
  from assms have e: "enc c x = Some (image_of c x)" by (auto simp: image_of_def)
  then show "try_from_slice c (image_of c x) = Some x" by (rule try_from_slice_enc)
  then show "deserialize c (image_of c x) = Some x" by (rule try_from_slice_deserialize)
  from e show "length (image_of c x) = size_of x" by (rule enc_size)
  with e show "serialize c x a L = (if size_of x \<le> length (data L a)
       then Inr (set_data a (image_of c x @ drop (size_of x) (data L a)) L) else Inl BorshIoError)"
    by (simp add: serialize_def)
qed

end

lemmas stage_images [simp] =
  ref_format.alloc.image_laws [OF ref_format.encodable(1)]
  ref_format.settings.image_laws [OF ref_format.encodable(2)]
  ref_format.access.image_laws [OF ref_format.encodable(3)]
  ref_format.entry.image_laws [OF ref_format.encodable(4)]
  ref_format.shard.image_laws [OF ref_format.encodable(5)]
  ref_format.thread.image_laws [OF ref_format.encodable_iff(1) [THEN iffD2]]
  ref_format.registry.image_laws [OF ref_format.encodable_iff(2) [THEN iffD2]]
  ref_format.likes.image_laws [OF ref_format.encodable_iff(3) [THEN iffD2]]
  ref_format.content.image_laws [OF ref_format.encodable_iff(4) [THEN iffD2]]

section \<open>Addresses\<close>

lemmas address_eval = ref_find_pda_def ref_hash_def as_ref_def le_bytes_numeral ref_pid_def

lemma stage_addresses [simp]:
  "ref_find_pda [as_ref ref_pid] ref_loader_id = (69617, 255)"
  "derive_settings_pda (ref_rt t) ref_pid = (254147, 255)"
  "derive_alloc_pda (ref_rt t) ref_pid 30 0 = (26191, 255)"
  "derive_alloc_pda (ref_rt t) ref_pid 30 1 = (26448, 255)"
  "derive_alloc_pda (ref_rt t) ref_pid 30 2 = (26705, 255)"
  "derive_alloc_pda (ref_rt t) ref_pid 31 0 = (92240, 255)"
  "derive_access_pda (ref_rt t) ref_pid 30 = (870984, 255)"
  "derive_access_pda (ref_rt t) ref_pid 32 = (871498, 255)"
  "derive_access_entry_pda (ref_rt t) ref_pid 30 20 = (438000, 255)"
  "derive_access_entry_pda (ref_rt t) ref_pid 30 21 = (438257, 255)"
  "derive_access_entry_pda (ref_rt t) ref_pid 30 22 = (438514, 255)"
  "derive_access_entry_pda (ref_rt t) ref_pid 30 23 = (438771, 255)"
  "derive_content_pda (ref_rt t) ref_pid 30 0 0 = (398068, 255)"
  "derive_content_pda (ref_rt t) ref_pid 30 0 1 = (398325, 255)"
  "derive_likes_pda (ref_rt t) ref_pid 30 0 = (164693, 255)"
  "derive_treasury_shard_pda (ref_rt t) ref_pid 3 = (32017, 255)"
  "derive_author_fee_pda (ref_rt t) ref_pid 30 1 = (624592, 255)"
  "derive_follow_registry_pda (ref_rt t) ref_pid 21 = (748320, 255)"
  "derive_follow_registry_pda (ref_rt t) ref_pid 23 = (748834, 255)"
  "derive_follower_shard_pda (ref_rt t) ref_pid 30 5 = (47768, 255)"
  "derive_follower_shard_pda (ref_rt t) ref_pid 30 7 = (48282, 255)"
  by (simp_all add: derive_defs seed_defs address_eval)

section \<open>Accounts\<close>

definition wallet_account :: "u64 \<Rightarrow> account" where
  "wallet_account n = \<lparr>acc_lamports = n, acc_owner = ref_system_id, acc_data = []\<rparr>"

definition program_account :: "u64 \<Rightarrow> u8 list \<Rightarrow> account" where
  "program_account n bs = \<lparr>acc_lamports = n, acc_owner = ref_pid, acc_data = bs\<rparr>"

definition signer_info :: "pubkey \<Rightarrow> account_info" where
  "signer_info k = \<lparr>ai_key = k, is_signer = True, is_writable = True\<rparr>"

definition plain_info :: "pubkey \<Rightarrow> account_info" where
  "plain_info k = \<lparr>ai_key = k, is_signer = False, is_writable = True\<rparr>"

definition stage_settings :: program_settings where
  "stage_settings =
    \<lparr>ps_tag = TAG_SETTINGS, ps_admin = 25, ps_treasury = 42, ps_base_fee_bps = 1000,
     ps_author_fee_cut_bps = 1000, ps_entry_cut_bps = 1000, ps_like_cut_bps = 1000\<rparr>"

definition stage_thread :: thread_node where
  "stage_thread =
    \<lparr>tn_tag = TAG_THREAD, tn_alloc_count = 2, tn_last_alloc_seq = 1, tn_author = 20,
     tn_message_fee = 5000, tn_like_fee = 3000, tn_title = [104, 105]\<rparr>"

definition stage_access :: thread_access where
  "stage_access =
    \<lparr>ta_tag = TAG_ACCESS, ta_thread = 30, ta_enabled = True, ta_admin = 20,
     ta_entry_fee = 7000, ta_whitelist_count = 1\<rparr>"

definition stage_message :: content_node where
  "stage_message =
    \<lparr>cn_header = \<lparr>ch_tag = TAG_CONTENT, ch_alloc_seq = 0, ch_slot = 0, ch_thread = 30,
       ch_author = 21, ch_created_at = 950, ch_reply_alloc_seq = 0, ch_reply_slot = 0\<rparr>,
     cn_kind = 0, cn_body = [104, 105]\<rparr>"

definition stage_likes :: alloc_likes where
  "stage_likes =
    \<lparr>al_tag = TAG_LIKES, al_alloc_seq = 0, al_counts = (replicate 32 0)[0 := 4]\<rparr>"

definition stage_alloc :: "u32 \<Rightarrow> alloc_node" where
  "stage_alloc i = \<lparr>an_tag = TAG_ALLOC, an_thread = 30, an_alloc_seq = i\<rparr>"

definition stage_entry :: "pubkey \<Rightarrow> u8 \<Rightarrow> access_entry" where
  "stage_entry w status =
    \<lparr>ae_tag = TAG_ACCESS_ENTRY, ae_thread = 30, ae_wallet = w, ae_status = status\<rparr>"

definition stage_registry :: "pubkey \<Rightarrow> pubkey list \<Rightarrow> follow_registry" where
  "stage_registry user channels =
    \<lparr>fr_tag = TAG_FOLLOW_REGISTRY, fr_owner = user, fr_channels = channels\<rparr>"

definition stage_followers :: "u8 \<Rightarrow> u64 \<Rightarrow> follower_shard" where
  "stage_followers i n =
    \<lparr>fs_tag = TAG_FOLLOWER_SHARD, fs_thread = 30, fs_shard = i, fs_count = n\<rparr>"

lemmas stage_structs = stage_settings_def stage_thread_def stage_access_def stage_message_def
  stage_likes_def stage_alloc_def stage_entry_def stage_registry_def stage_followers_def

definition stage :: ledger where
  "stage = (\<lambda>_. wallet_account 0)(
    20 := wallet_account 1000000000000,
    21 := wallet_account 1000000000000,
    22 := wallet_account 1000000000000,
    23 := wallet_account 1000000000000,
    25 := wallet_account 1000000000000,
    42 := wallet_account 5,
    69617 := \<lparr>acc_lamports = 1, acc_owner = ref_loader_id,
      acc_data = replicate 12 0 @ [1] @ as_ref 25\<rparr>,
    254147 := program_account 1454640 (image_of (program_settings_codec ref_borsh) stage_settings),
    30 := program_account 1329360 (image_of (thread_node_codec ref_borsh) stage_thread),
    32 := program_account 1329360 (image_of (thread_node_codec ref_borsh) stage_thread),
    26191 := program_account 1148400 (image_of (alloc_node_codec ref_borsh) (stage_alloc 0)),
    26448 := program_account 1148400 (image_of (alloc_node_codec ref_borsh) (stage_alloc 1)),
    870984 := program_account 1433760 (image_of (thread_access_codec ref_borsh) stage_access),
    438514 := program_account 1350240 (image_of (access_entry_codec ref_borsh) (stage_entry 22 ACCESS_DENIED)),
    438771 := program_account 1350240 (image_of (access_entry_codec ref_borsh) (stage_entry 23 ACCESS_ALLOWED)),
    398068 := program_account 1524240 (image_of (content_node_codec ref_borsh) stage_message),
    164693 := program_account 1816560 (image_of (alloc_likes_codec ref_borsh) stage_likes),
    32017 := program_account 891380 [],
    624592 := program_account 891780 [],
    748320 := program_account 1371120 (image_of (follow_registry_codec ref_borsh) (stage_registry 21 [33])),
    748834 := program_account 1593840 (image_of (follow_registry_codec ref_borsh) (stage_registry 23 [30, 33])),
    47768 := program_account 1183200 (image_of (follower_shard_codec ref_borsh) (stage_followers 5 2)),
    48282 := program_account 1183200 (image_of (follower_shard_codec ref_borsh) (stage_followers 7 1)))"

lemma stage_at [simp]:
  "stage 20 = wallet_account 1000000000000"
  "stage 21 = wallet_account 1000000000000"
  "stage 22 = wallet_account 1000000000000"
  "stage 23 = wallet_account 1000000000000"
  "stage 25 = wallet_account 1000000000000"
  "stage 42 = wallet_account 5"
  "stage 69617 = \<lparr>acc_lamports = 1, acc_owner = ref_loader_id,
      acc_data = replicate 12 0 @ [1] @ as_ref 25\<rparr>"
  "stage 254147 = program_account 1454640 (image_of (program_settings_codec ref_borsh) stage_settings)"
  "stage 30 = program_account 1329360 (image_of (thread_node_codec ref_borsh) stage_thread)"
  "stage 32 = program_account 1329360 (image_of (thread_node_codec ref_borsh) stage_thread)"
  "stage 26191 = program_account 1148400 (image_of (alloc_node_codec ref_borsh) (stage_alloc 0))"
  "stage 26448 = program_account 1148400 (image_of (alloc_node_codec ref_borsh) (stage_alloc 1))"
  "stage 870984 = program_account 1433760 (image_of (thread_access_codec ref_borsh) stage_access)"
  "stage 438514 = program_account 1350240 (image_of (access_entry_codec ref_borsh) (stage_entry 22 ACCESS_DENIED))"
  "stage 438771 = program_account 1350240 (image_of (access_entry_codec ref_borsh) (stage_entry 23 ACCESS_ALLOWED))"
  "stage 398068 = program_account 1524240 (image_of (content_node_codec ref_borsh) stage_message)"
  "stage 164693 = program_account 1816560 (image_of (alloc_likes_codec ref_borsh) stage_likes)"
  "stage 32017 = program_account 891380 []"
  "stage 624592 = program_account 891780 []"
  "stage 748320 = program_account 1371120 (image_of (follow_registry_codec ref_borsh) (stage_registry 21 [33]))"
  "stage 748834 = program_account 1593840 (image_of (follow_registry_codec ref_borsh) (stage_registry 23 [30, 33]))"
  "stage 47768 = program_account 1183200 (image_of (follower_shard_codec ref_borsh) (stage_followers 5 2))"
  "stage 48282 = program_account 1183200 (image_of (follower_shard_codec ref_borsh) (stage_followers 7 1))"
  "stage 31 = wallet_account 0"
  "stage 0 = wallet_account 0"
  "stage 26705 = wallet_account 0"
  "stage 92240 = wallet_account 0"
  "stage 871498 = wallet_account 0"
  "stage 438000 = wallet_account 0"
  "stage 438257 = wallet_account 0"
  "stage 398325 = wallet_account 0"
  by (simp_all add: stage_def)

text \<open>The world before the first thread: wallets, the ProgramData account, the settings.\<close>

definition genesis :: ledger where
  "genesis = (\<lambda>_. wallet_account 0)(
    20 := wallet_account 1000000000000,
    25 := wallet_account 1000000000000,
    69617 := stage 69617,
    254147 := stage 254147)"

lemma genesis_at [simp]:
  "genesis 0 = stage 0"
  "genesis 20 = stage 20"
  "genesis 25 = stage 25"
  "genesis 69617 = stage 69617"
  "genesis 254147 = stage 254147"
  "genesis 31 = stage 31"
  "genesis 92240 = stage 92240"
  "genesis 32017 = wallet_account 0"
  by (simp_all add: genesis_def)

lemma genesis_owned: "acc_owner (genesis k) = ref_pid \<Longrightarrow> k = 254147"
  by (auto simp: genesis_def wallet_account_def ref_pid_def ref_system_id_def ref_loader_id_def
      split: if_splits)

lemma genesis_settings: "settings_at (ref_rt t) ref_pid genesis 254147 = Some stage_settings"
  by (simp add: settings_at_def stored_def program_account_def stage_settings_def)

text \<open>No other view exists there.\<close>

lemma genesis_tag: "tag_byte ref_pid genesis k = Some b \<Longrightarrow> b = TAG_SETTINGS"
  using ref_runtime.view_tag_byte(3) [OF genesis_settings [of 0]] genesis_owned [of k]
  by (auto simp: tag_byte_def split: if_splits)

lemma ref_pid_neq [simp]: "ref_pid \<noteq> 0" "0 \<noteq> ref_pid" "ref_pid \<noteq> 2" "2 \<noteq> ref_pid"
  by (simp_all add: ref_pid_def)

lemma four_le_one [simp]: "\<not> 4 \<le> (1 :: u8)"
  by (simp add: word_le_nat_alt)

lemmas stage_run [run_simps] = signer_info_def plain_info_def wallet_account_def program_account_def stage_structs
  ledger_defs ref_system_id_def ref_loader_id_def ref_rent_def move_lamports_def
  ref_transfer_def ref_create_account_def ref_allocate_def ref_assign_def ref_resize_def
  ref_signs_def ref_create_pda_def ref_hash_def as_ref_def le_bytes_numeral seed_defs
  max_data_increase_def view_defs stored_def unat_of_nat

end
