(* ===== verification/Content.thy ===== *)
theory Content
  imports Stage
begin

text \<open>
  \<open>src/content/\<close>: the message kinds, the \<open>ContentBody\<close> trait with its text body and the
  blanket implementation for Borsh structs, the typed constructor and accessor of a content
  node, and its loader. The trait is the locale \<open>content_body\<close>; its implementations are
  interpretations of it.
\<close>

section \<open>Message kinds\<close>

definition KIND_TEXT :: u16 where
  "KIND_TEXT = 0"

datatype content_kind = Text | Unknown u16

definition from_u16 :: "u16 \<Rightarrow> content_kind" where
  "from_u16 v = (if v = KIND_TEXT then Text else Unknown v)"

fun to_u16 :: "content_kind \<Rightarrow> u16" where
  "to_u16 Text = KIND_TEXT"
| "to_u16 (Unknown v) = v"

fun is_known :: "content_kind \<Rightarrow> bool" where
  "is_known (Unknown v) = False"
| "is_known Text = True"

lemma to_u16_from_u16 [simp]: "to_u16 (from_u16 v) = v"
  by (simp add: from_u16_def)

lemma is_known_from_u16: "is_known (from_u16 v) \<longleftrightarrow> v = KIND_TEXT"
  by (simp add: from_u16_def)

lemma from_u16_Text_iff: "from_u16 v = Text \<longleftrightarrow> v = KIND_TEXT"
  by (simp add: from_u16_def)

section \<open>Bodies\<close>

text \<open>\<open>TextBody\<close>: the bytes themselves.\<close>

record text_body =
  tb_text :: "u8 list"

definition MAX_TEXT_LEN :: nat where
  "MAX_TEXT_LEN = MAX_BODY_LEN"

definition text_new :: "u8 list \<Rightarrow> text_body" where
  "text_new text = \<lparr>tb_text = text\<rparr>"

definition text_to_body :: "text_body \<Rightarrow> u8 list res" where
  "text_to_body b = Inr (tb_text b)"

definition text_from_body :: "u8 list \<Rightarrow> text_body res" where
  "text_from_body bs = Inr \<lparr>tb_text = bs\<rparr>"

definition text_validate :: "text_body \<Rightarrow> unit res" where
  "text_validate b = (if length (tb_text b) > MAX_BODY_LEN then err TextTooLong else Inr ())"

text \<open>The blanket implementation over a struct's Borsh codec.\<close>

definition borsh_to_body :: "'b codec \<Rightarrow> 'b \<Rightarrow> u8 list res" where
  "borsh_to_body c b = ok_or (program_error_of InvalidAccountData) (enc c b)"

definition borsh_from_body :: "'b codec \<Rightarrow> u8 list \<Rightarrow> 'b res" where
  "borsh_from_body c bs = ok_or (program_error_of InvalidAccountData) (try_from_slice c bs)"

text \<open>What \<open>BorshContentBody::validate\<close> does where it is not overridden.\<close>

definition borsh_validate :: "'b \<Rightarrow> unit res" where
  "borsh_validate b = Inr ()"

text \<open>\<open>ContentNode::from_body\<close>, \<open>decode_body\<close> and \<open>content_kind\<close>, for a body type given by
  its kind, encoder, decoder and validation.\<close>

definition node_from_body ::
  "u16 \<Rightarrow> ('b \<Rightarrow> u8 list res) \<Rightarrow> ('b \<Rightarrow> unit res) \<Rightarrow> content_header \<Rightarrow> 'b \<Rightarrow> content_node res" where
  "node_from_body KIND to_body validate header b =
     attempt (validate b) (\<lambda>_.
     attempt (to_body b) (\<lambda>bs.
     Inr \<lparr>cn_header = header, cn_kind = KIND, cn_body = bs\<rparr>))"

definition decode_body :: "u16 \<Rightarrow> (u8 list \<Rightarrow> 'b res) \<Rightarrow> content_node \<Rightarrow> 'b res" where
  "decode_body KIND from_body n =
     (if cn_kind n \<noteq> KIND then err InvalidTag else from_body (cn_body n))"

definition node_kind :: "content_node \<Rightarrow> content_kind" where
  "node_kind n = from_u16 (cn_kind n)"

locale content_body =
  fixes KIND :: u16
    and to_body :: "'b \<Rightarrow> u8 list res"
    and from_body :: "u8 list \<Rightarrow> 'b res"
    and validate :: "'b \<Rightarrow> unit res"
  assumes from_to: "to_body b = Inr bs \<Longrightarrow> from_body bs = Inr b"
    and to_from: "from_body bs = Inr b \<Longrightarrow> to_body b = Inr bs"
begin

text \<open>A node built from a typed body decodes to that body, and carries its kind.\<close>

lemma decode_node:
  assumes "node_from_body KIND to_body validate h b = Inr n"
  shows "decode_body KIND from_body n = Inr b" "cn_header n = h" "node_kind n = from_u16 KIND"
  using assms by (auto simp: node_from_body_def decode_body_def node_kind_def ok_simps from_to)

text \<open>A node of another kind is refused, whatever its bytes.\<close>

lemma decode_other_kind:
  "cn_kind n \<noteq> KIND \<Longrightarrow> decode_body KIND from_body n = err InvalidTag"
  by (simp add: decode_body_def)

text \<open>A node that decodes is the one its body encodes to.\<close>

lemma node_of_decoded:
  assumes "decode_body KIND from_body n = Inr b" "validate b = Inr ()"
  shows "node_from_body KIND to_body validate (cn_header n) b = Inr n"
  using assms
  by (cases n) (auto simp: node_from_body_def decode_body_def dest: to_from split: if_splits)

end

interpretation plain_text: content_body KIND_TEXT text_to_body text_from_body text_validate
  by unfold_locales (auto simp: text_to_body_def text_from_body_def)

text \<open>\<open>impl<T: BorshContentBody> ContentBody for T\<close>: a lawful codec is all it takes.\<close>

sublocale codec \<subseteq> borsh_body: content_body KIND "borsh_to_body c" "borsh_from_body c" validate
  for KIND validate
  by unfold_locales (auto simp: borsh_to_body_def borsh_from_body_def ok_simps try_from_slice_iff)

lemma text_node_iff:
  "node_from_body KIND_TEXT text_to_body text_validate h b = Inr n \<longleftrightarrow>
     length (tb_text b) \<le> MAX_BODY_LEN \<and>
     n = \<lparr>cn_header = h, cn_kind = KIND_TEXT, cn_body = tb_text b\<rparr>"
  by (auto simp: node_from_body_def text_validate_def text_to_body_def ok_simps)

section \<open>Loading a content node\<close>

definition load_content :: "runtime \<Rightarrow> pubkey \<Rightarrow> account_info \<Rightarrow> ledger \<Rightarrow> content_node res" where
  "load_content rt pid a L =
     attempt (assert_owned_by a pid L) (\<lambda>_.
     attempt (ok_or (program_error_of InvalidAccountData)
       (try_from_slice (content_node_codec (rt_borsh rt)) (data L a))) (\<lambda>content.
     if ch_tag (cn_header content) \<noteq> TAG_CONTENT then err InvalidTag
     else
       let (expected, _) = derive_content_pda rt pid (ch_thread (cn_header content))
             (ch_alloc_seq (cn_header content)) (ch_slot (cn_header content)) in
       attempt (assert_pda a expected) (\<lambda>_. Inr content)))"

text \<open>The address a content header says it lives at.\<close>

definition content_address :: "runtime \<Rightarrow> pubkey \<Rightarrow> content_header \<Rightarrow> pubkey" where
  "content_address rt pid h =
     fst (derive_content_pda rt pid (ch_thread h) (ch_alloc_seq h) (ch_slot h))"

lemma load_content_Inr_iff [ok_simps]:
  "load_content rt pid a L = Inr n \<longleftrightarrow>
     content_at rt pid L (ai_key a) = Some n \<and> ai_key a = content_address rt pid (cn_header n)"
  by (auto simp: load_content_def content_at_def stored_Some_iff content_address_def ok_simps
      owner_def data_def Let_def case_prod_beta)

section \<open>Properties\<close>

text \<open>C40. A text message is stored verbatim and read back as it was: up to \<open>MAX_TEXT_LEN\<close> bytes
  become the body of a node of kind text under the given header, longer ones are refused with
  \<open>TextTooLong\<close>; the node decodes to the same text, and a node of another kind, known or not,
  is refused with \<open>InvalidTag\<close> instead of being read as text.\<close>

theorem text_message_round_trip:
  "node_from_body KIND_TEXT text_to_body text_validate h (text_new t) =
     (if length t \<le> MAX_TEXT_LEN
      then Inr \<lparr>cn_header = h, cn_kind = KIND_TEXT, cn_body = t\<rparr> else err TextTooLong) \<and>
   (node_from_body KIND_TEXT text_to_body text_validate h (text_new t) = Inr n \<longrightarrow>
     decode_body KIND_TEXT text_from_body n = Inr (text_new t) \<and> node_kind n = Text) \<and>
   (node_kind m \<noteq> Text \<longrightarrow>
     decode_body KIND_TEXT text_from_body m = err InvalidTag \<and>
     to_u16 (node_kind m) = cn_kind m \<and> \<not> is_known (node_kind m))"
  using plain_text.decode_node [of h "text_new t" n] plain_text.decode_other_kind [of m]
  by (auto simp: node_kind_def from_u16_Text_iff is_known_from_u16 node_from_body_def
      text_to_body_def text_validate_def text_new_def MAX_TEXT_LEN_def)

theorem text_message_round_trip_witness:
  "decode_body KIND_TEXT text_from_body
     \<lparr>cn_header = cn_header stage_message, cn_kind = KIND_TEXT, cn_body = [104, 105]\<rparr> =
     Inr (text_new [104, 105]) \<and>
   decode_body KIND_TEXT text_from_body (stage_message\<lparr>cn_kind := 7\<rparr>) = err InvalidTag"
proof -
  have "length [104, 105 :: u8] \<le> MAX_TEXT_LEN" by (simp add: MAX_TEXT_LEN_def MAX_BODY_LEN_def)
  moreover have "node_kind (stage_message\<lparr>cn_kind := 7\<rparr>) \<noteq> Text"
    by (simp add: node_kind_def from_u16_Text_iff KIND_TEXT_def)
  ultimately show ?thesis
    using text_message_round_trip [of "cn_header stage_message" "[104, 105]" _ "stage_message\<lparr>cn_kind := 7\<rparr>"]
    by simp
qed

end
