(* ===== verification/Fees.thy ===== *)
theory Fees
  imports Stage
begin

text \<open>
  \<open>src/state/fees.rs\<close>: the fee split, the collection of fees into vault shards, the shards'
  validation and lazy creation, and the sweep of a shard's excess. The system-program account
  that the source passes on to \<open>invoke\<close> is an argument only where it is checked.
\<close>

section \<open>Operations\<close>

definition compute_fee_split :: "u64 \<Rightarrow> u32 \<Rightarrow> u64 \<times> u64" where
  "compute_fee_split amount cut_bps =
     (let platform = of_nat (saturating_mul_u128 (unat amount) (unat cut_bps) div 10000)
      in (saturating_sub amount platform, platform))"

definition collect_fee_to_shard ::
  "runtime \<Rightarrow> u64 \<Rightarrow> account_info \<Rightarrow> account_info \<Rightarrow> ledger \<Rightarrow> ledger res" where
  "collect_fee_to_shard rt amount payer shard L =
     (if amount = 0 then Inr L
      else attempt (rt_rent rt) (\<lambda>rent.
        let shard_rent_min = rent 0;
            fee = max amount (saturating_sub shard_rent_min (lamports L shard)) in
        if fee > 0 then rt_transfer rt payer shard fee L else Inr L))"

definition collect_base_fee ::
  "runtime \<Rightarrow> u64 \<Rightarrow> u32 \<Rightarrow> account_info \<Rightarrow> account_info \<Rightarrow> ledger \<Rightarrow> ledger res" where
  "collect_base_fee rt rent_lamports base_fee_bps payer treasury_shard L =
     (let base_fee = saturating_mul_u128 (unat rent_lamports) (unat base_fee_bps) div 10000
      in collect_fee_to_shard rt (of_nat base_fee) payer treasury_shard L)"

definition transfer_fee_split ::
  "runtime \<Rightarrow> u64 \<Rightarrow> u32 \<Rightarrow> account_info \<Rightarrow> account_info \<Rightarrow> account_info \<Rightarrow> ledger \<Rightarrow>
   ledger res" where
  "transfer_fee_split rt amount cut_bps payer author_fee_shard treasury_shard L =
     (let (author_receives, platform_cut) = compute_fee_split amount cut_bps in
      attempt (if platform_cut > 0
               then collect_fee_to_shard rt platform_cut payer treasury_shard L
               else Inr L) (\<lambda>L1.
      if author_receives > 0
      then collect_fee_to_shard rt author_receives payer author_fee_shard L1
      else Inr L1))"

definition validate_treasury_shard ::
  "runtime \<Rightarrow> pubkey \<Rightarrow> account_info \<Rightarrow> u16 \<Rightarrow> u8 res" where
  "validate_treasury_shard rt pid shard_account shard_idx =
     (if shard_idx \<ge> N_TREASURY_SHARDS then err InvalidShard
      else let (expected, bump) = derive_treasury_shard_pda rt pid shard_idx in
        attempt (assert_pda shard_account expected) (\<lambda>_. Inr bump))"

definition validate_author_fee_shard ::
  "runtime \<Rightarrow> pubkey \<Rightarrow> pubkey \<Rightarrow> account_info \<Rightarrow> u8 \<Rightarrow> u8 res" where
  "validate_author_fee_shard rt pid thread shard_account shard_idx =
     (if shard_idx \<ge> N_AUTHOR_FEE_SHARDS then err InvalidShard
      else let (expected, bump) = derive_author_fee_pda rt pid thread shard_idx in
        attempt (assert_pda shard_account expected) (\<lambda>_. Inr bump))"

definition ensure_shard_initialized ::
  "runtime \<Rightarrow> pubkey \<Rightarrow> account_info \<Rightarrow> account_info \<Rightarrow> account_info \<Rightarrow> u8 list list \<Rightarrow> u8 \<Rightarrow>
   ledger \<Rightarrow> ledger res" where
  "ensure_shard_initialized rt pid payer shard_account system_program signer_seeds bump L =
     (if \<not> is_uninitialized rt shard_account L then Inr L
      else create_pda_account rt pid payer shard_account system_program 0
             (signer_seeds @ [[bump]]) L)"

definition assert_fee_shard_accounts ::
  "runtime \<Rightarrow> account_info \<Rightarrow> account_info \<Rightarrow> account_info \<Rightarrow> unit res" where
  "assert_fee_shard_accounts rt treasury_shard author_fee_shard system_program =
     attempt (assert_writable treasury_shard) (\<lambda>_.
     attempt (assert_writable author_fee_shard) (\<lambda>_.
     assert_system_program rt system_program))"

definition validate_fee_shards ::
  "runtime \<Rightarrow> pubkey \<Rightarrow> account_info \<Rightarrow> account_info \<Rightarrow> pubkey \<Rightarrow> u16 \<Rightarrow> u8 \<Rightarrow> (u8 \<times> u8) res" where
  "validate_fee_shards rt pid treasury_shard author_fee_shard thread_key
       treasury_shard_idx author_fee_shard_idx =
     attempt (validate_treasury_shard rt pid treasury_shard treasury_shard_idx)
       (\<lambda>treasury_shard_bump.
     attempt (validate_author_fee_shard rt pid thread_key author_fee_shard author_fee_shard_idx)
       (\<lambda>author_fee_shard_bump.
     Inr (treasury_shard_bump, author_fee_shard_bump)))"

definition ensure_fee_shards_initialized ::
  "runtime \<Rightarrow> pubkey \<Rightarrow> account_info \<Rightarrow> account_info \<Rightarrow> account_info \<Rightarrow> account_info \<Rightarrow> pubkey \<Rightarrow>
   u16 \<Rightarrow> u8 \<Rightarrow> u8 \<Rightarrow> u8 \<Rightarrow> ledger \<Rightarrow> ledger res" where
  "ensure_fee_shards_initialized rt pid payer treasury_shard author_fee_shard system_program
       thread_key treasury_shard_idx author_fee_shard_idx treasury_bump author_bump L =
     attempt (ensure_shard_initialized rt pid payer treasury_shard system_program
       [TREASURY_SHARD_SEED, le_bytes 2 (unat treasury_shard_idx)] treasury_bump L) (\<lambda>L1.
     ensure_shard_initialized rt pid payer author_fee_shard system_program
       [AUTHOR_FEE_SEED, as_ref thread_key, [author_fee_shard_idx]] author_bump L1)"

definition prepare_fee_shards ::
  "runtime \<Rightarrow> pubkey \<Rightarrow> account_info \<Rightarrow> account_info \<Rightarrow> account_info \<Rightarrow> account_info \<Rightarrow> pubkey \<Rightarrow>
   u16 \<Rightarrow> u8 \<Rightarrow> ledger \<Rightarrow> ledger res" where
  "prepare_fee_shards rt pid payer treasury_shard author_fee_shard system_program
       thread_key treasury_shard_idx author_fee_shard_idx L =
     attempt (validate_fee_shards rt pid treasury_shard author_fee_shard thread_key
       treasury_shard_idx author_fee_shard_idx) (\<lambda>(treasury_bump, author_bump).
     ensure_fee_shards_initialized rt pid payer treasury_shard author_fee_shard system_program
       thread_key treasury_shard_idx author_fee_shard_idx treasury_bump author_bump L)"

definition sweep_shard_excess ::
  "account_info \<Rightarrow> account_info \<Rightarrow> u64 \<Rightarrow> ledger \<Rightarrow> ledger res" where
  "sweep_shard_excess shard_account recipient shard_rent_min L =
     (let excess = saturating_sub (lamports L shard_account) shard_rent_min in
      if excess > 0 then
        let L1 = set_lamports shard_account shard_rent_min L in
        attempt (ok_or (program_error_of InvalidAccountData)
                   (checked_add (lamports L1 recipient) excess)) (\<lambda>sum.
        Inr (set_lamports recipient sum L1))
      else Inr L)"

lemmas fee_run [run_simps] = compute_fee_split_def collect_fee_to_shard_def collect_base_fee_def
  transfer_fee_split_def validate_treasury_shard_def validate_author_fee_shard_def
  ensure_shard_initialized_def assert_fee_shard_accounts_def validate_fee_shards_def
  ensure_fee_shards_initialized_def prepare_fee_shards_def sweep_shard_excess_def

section \<open>The split\<close>

lemma fee_cut_le:
  assumes "(b :: nat) \<le> 10000"
  shows "a * b div 10000 \<le> a"
proof -
  have "a * b div 10000 \<le> a * 10000 div 10000"
    using assms by (intro div_le_mono mult_le_mono2)
  then show ?thesis by simp
qed

lemma unat_fee_cut:
  assumes "cut_bps \<le> 10000"
  shows "unat (of_nat (unat (amount :: u64) * unat (cut_bps :: u32) div 10000) :: u64) =
    unat amount * unat cut_bps div 10000"
proof -
  have "unat cut_bps \<le> 10000"
    using assms by (simp add: word_le_nat_alt)
  then have "unat amount * unat cut_bps div 10000 \<le> unat amount"
    by (rule fee_cut_le)
  also have "unat amount < 2 ^ 64"
    using unat_less_2p [of amount] by simp
  finally show ?thesis by (simp add: unat_of_nat)
qed

lemma compute_fee_split_eq:
  assumes "cut_bps \<le> 10000"
  shows "unat (fst (compute_fee_split amount cut_bps)) =
      unat amount - unat amount * unat cut_bps div 10000"
    and "unat (snd (compute_fee_split amount cut_bps)) = unat amount * unat cut_bps div 10000"
  by (simp_all add: compute_fee_split_def Let_def unat_saturating_sub unat_fee_cut [OF assms])

lemma compute_fee_split_0: "compute_fee_split 0 cut_bps = (0, 0)"
  by (simp add: compute_fee_split_def saturating_mul_u128_def saturating_sub_def)

lemma compute_fee_split_total:
  assumes "cut_bps \<le> 10000"
  shows "unat (fst (compute_fee_split amount cut_bps)) +
    unat (snd (compute_fee_split amount cut_bps)) = unat amount"
  using fee_cut_le [of "unat cut_bps" "unat amount"] assms
  by (simp add: compute_fee_split_eq [OF assms] word_le_nat_alt)

section \<open>Validation and creation of shards\<close>

text \<open>
  The two kinds of shard, platform and author, differ in their index type, its bound and the
  address derived from it. What every user of a shard needs is the same.
\<close>

locale shard_kind =
  fixes validate :: "account_info \<Rightarrow> 'i \<Rightarrow> u8 res"
    and derive :: "'i \<Rightarrow> pubkey \<times> u8"
    and in_range :: "'i \<Rightarrow> bool"
  assumes validate_iff:
    "validate a i = Inr b \<longleftrightarrow> in_range i \<and> ai_key a = fst (derive i) \<and> b = snd (derive i)"
    and validate_range: "\<not> in_range i \<Longrightarrow> validate a i = err InvalidShard"
begin

text \<open>An index decides the account; an index out of range is refused for every account.\<close>

lemma validate_unique:
  "validate a i = Inr b \<Longrightarrow> validate a' i = Inr b' \<Longrightarrow> ai_key a = ai_key a' \<and> b = b'"
  by (simp add: validate_iff)

lemma validate_spoofed: "ai_key a \<noteq> fst (derive i) \<Longrightarrow> validate a i \<noteq> Inr b"
  by (simp add: validate_iff)

end

interpretation treasury_kind: shard_kind "validate_treasury_shard rt pid"
    "derive_treasury_shard_pda rt pid" "\<lambda>i. i < N_TREASURY_SHARDS" for rt pid
  by unfold_locales
    (auto simp: validate_treasury_shard_def Let_def ok_simps split: prod.splits)

interpretation author_kind: shard_kind "validate_author_fee_shard rt pid thread"
    "derive_author_fee_pda rt pid thread" "\<lambda>i. i < N_AUTHOR_FEE_SHARDS" for rt pid thread
  by unfold_locales
    (auto simp: validate_author_fee_shard_def Let_def ok_simps split: prod.splits)

lemmas validate_shard_iffs [ok_simps] = treasury_kind.validate_iff author_kind.validate_iff

lemma assert_fee_shard_accounts_iff [ok_simps]:
  "assert_fee_shard_accounts rt t a s = Inr u \<longleftrightarrow>
     is_writable t \<and> is_writable a \<and> ai_key s = rt_system_id rt"
  by (simp add: assert_fee_shard_accounts_def ok_simps)

lemma validate_fee_shards_iff [ok_simps]:
  "validate_fee_shards rt pid t a thread i j = Inr bs \<longleftrightarrow>
     i < N_TREASURY_SHARDS \<and> j < N_AUTHOR_FEE_SHARDS \<and>
     ai_key t = fst (derive_treasury_shard_pda rt pid i) \<and>
     ai_key a = fst (derive_author_fee_pda rt pid thread j) \<and>
     bs = (snd (derive_treasury_shard_pda rt pid i), snd (derive_author_fee_pda rt pid thread j))"
  by (auto simp: validate_fee_shards_def ok_simps)

section \<open>Effects\<close>

context solana
begin

lemma collect_fee_effect:
  assumes "collect_fee_to_shard rt amount payer shard L = Inr L'" "ai_key payer \<in> P"
  shows "effect pid K P L L'"
  using assms
  by (auto simp: collect_fee_to_shard_def ok_simps Let_def split: if_splits
      intro: transfer_effect)

lemma collect_base_fee_effect:
  assumes "collect_base_fee rt n bps payer shard L = Inr L'" "ai_key payer \<in> P"
  shows "effect pid K P L L'"
  using assms unfolding collect_base_fee_def Let_def by (rule collect_fee_effect)

lemma transfer_fee_split_effect:
  assumes "transfer_fee_split rt amount bps payer a t L = Inr L'" "ai_key payer \<in> P"
  shows "effect pid K P L L'"
proof -
  obtain author_receives platform_cut where
    split: "compute_fee_split amount bps = (author_receives, platform_cut)"
    by fastforce
  from assms(1) obtain L1 where
    L1: "(if platform_cut > 0 then collect_fee_to_shard rt platform_cut payer t L else Inr L) = Inr L1"
    and L': "(if author_receives > 0 then collect_fee_to_shard rt author_receives payer a L1
        else Inr L1) = Inr L'"
    by (auto simp: transfer_fee_split_def split ok_simps)
  from L1 assms(2) have "effect pid K P L L1"
    by (auto split: if_splits intro: collect_fee_effect)
  moreover from L' assms(2) have "effect pid K P L1 L'"
    by (auto split: if_splits intro: collect_fee_effect)
  ultimately show ?thesis by (rule effect_trans)
qed

lemma ensure_shard_effect:
  assumes "ensure_shard_initialized rt pid payer shard sp seeds bump L = Inr L'"
    and "ai_key payer \<in> P"
  shows "effect pid K P L L'"
  using assms
  by (auto simp: ensure_shard_initialized_def split: if_splits
      intro: create_pda_account_effect)

lemma ensure_fee_shards_effect:
  assumes "ensure_fee_shards_initialized rt pid payer t a sp thread i j tb ab L = Inr L'"
    and "ai_key payer \<in> P"
  shows "effect pid K P L L'"
  using assms
  by (auto simp: ensure_fee_shards_initialized_def ok_simps
      intro: ensure_shard_effect effect_trans)

lemma prepare_fee_shards_effect:
  assumes "prepare_fee_shards rt pid payer t a sp thread i j L = Inr L'"
    and "ai_key payer \<in> P"
  shows "effect pid K P L L'"
  using assms
  by (auto simp: prepare_fee_shards_def ok_simps intro: ensure_fee_shards_effect)

lemma collect_fee_contents:
  assumes "collect_fee_to_shard rt amount payer shard L = Inr L'"
  shows "acc_owner (L' k) = acc_owner (L k)" "acc_data (L' k) = acc_data (L k)"
  using assms
  by (auto simp: collect_fee_to_shard_def ok_simps Let_def transfer_contents split: if_splits)

text \<open>A fee into a vault that already holds its rent is exactly the fee.\<close>

lemma collect_fee_funded:
  assumes "collect_fee_to_shard rt amount payer shard L = Inr L'"
    and "rt_rent rt = Inr rent" "rent 0 \<le> lamports L shard"
  shows "L' = move_lamports (ai_key payer) (ai_key shard) amount L"
    "amount \<noteq> 0 \<Longrightarrow> amount \<le> lamports L payer \<and>
      (ai_key payer \<noteq> ai_key shard \<longrightarrow> unat (lamports L shard) + unat amount < 2 ^ 64)"
proof -
  have z: "saturating_sub (rent 0) (lamports L shard) = 0"
    using assms(3) by (simp add: saturating_sub_0_iff)
  have m: "max amount 0 = amount" "0 < amount \<longleftrightarrow> amount \<noteq> 0"
    by (simp_all add: max_def word_neq_0_conv)
  have or: "amount = 0 \<and> L' = L \<or> amount \<noteq> 0 \<and> rt_transfer rt payer shard amount L = Inr L'"
    using assms(1,2)
    by (cases "amount = 0") (simp_all add: collect_fee_to_shard_def Let_def z m)
  then show "L' = move_lamports (ai_key payer) (ai_key shard) amount L"
    by (auto dest: transfer_ok simp: move_lamports_def)
  from or show "amount \<noteq> 0 \<Longrightarrow> amount \<le> lamports L payer \<and>
      (ai_key payer \<noteq> ai_key shard \<longrightarrow> unat (lamports L shard) + unat amount < 2 ^ 64)"
    by (auto dest: transfer_ok)
qed

text \<open>Whatever it held before, a vault that received a fee holds at least its rent, and at
  least the fee more than it had.\<close>

lemma collect_fee_rent_exempt:
  assumes "collect_fee_to_shard rt amount payer shard L = Inr L'"
    and "rt_rent rt = Inr rent" "amount \<noteq> 0" "ai_key payer \<noteq> ai_key shard"
  shows "rent 0 \<le> lamports L' shard"
    and "unat (lamports L shard) + unat amount \<le> unat (lamports L' shard)"
proof -
  let ?fee = "max amount (saturating_sub (rent 0) (lamports L shard))"
  have pos: "?fee > 0"
    using assms(3) by (auto simp: max_def word_neq_0_conv intro: order_less_le_trans)
  with assms(1-3) have "rt_transfer rt payer shard ?fee L = Inr L'"
    by (simp add: collect_fee_to_shard_def Let_def)
  from transfer_ok [OF this] assms(4)
  have bal: "unat (lamports L' shard) = unat (lamports L shard) + unat ?fee"
    by (auto simp: lamports_def move_lamports_acc unat_add_lt)
  have "unat amount \<le> unat ?fee"
    by (simp add: max_def word_le_nat_alt)
  with bal show "unat (lamports L shard) + unat amount \<le> unat (lamports L' shard)"
    by simp
  have "unat (saturating_sub (rent 0) (lamports L shard)) \<le> unat ?fee"
    by (simp add: max_def word_le_nat_alt)
  with bal show "rent 0 \<le> lamports L' shard"
    by (simp add: word_le_nat_alt unat_saturating_sub)
qed

lemma collect_base_fee_paid:
  assumes "collect_base_fee rt n bps payer shard L = Inr L'" "bps \<le> 10000"
    and "ai_key payer \<noteq> ai_key shard"
  shows "unat (lamports L shard) + unat n * unat bps div 10000 \<le> unat (lamports L' shard)"
proof -
  let ?fee = "of_nat (unat n * unat bps div 10000) :: u64"
  have run: "collect_fee_to_shard rt ?fee payer shard L = Inr L'"
    using assms(1) by (simp add: collect_base_fee_def Let_def)
  have fee: "unat ?fee = unat n * unat bps div 10000"
    using assms(2) by (rule unat_fee_cut)
  show ?thesis
  proof (cases "?fee = 0")
    case True
    with run fee show ?thesis by (simp add: collect_fee_to_shard_def)
  next
    case False
    with run obtain rent where "rt_rent rt = Inr rent"
      by (auto simp: collect_fee_to_shard_def ok_simps)
    from collect_fee_rent_exempt(2) [OF run this False assms(3)] fee show ?thesis by simp
  qed
qed

lemma collect_fee_moves:
  assumes "(if n > 0 then collect_fee_to_shard rt n payer shard L else Inr L) = Inr L'"
    and "rt_rent rt = Inr rent" "rent 0 \<le> lamports L shard" "ai_key payer \<noteq> ai_key shard"
  shows "unat (lamports L' payer) + unat n = unat (lamports L payer)"
    "unat (lamports L' shard) = unat (lamports L shard) + unat n"
    "k \<noteq> ai_key payer \<Longrightarrow> k \<noteq> ai_key shard \<Longrightarrow> L' k = L k"
proof -
  have "L' = move_lamports (ai_key payer) (ai_key shard) n L \<and>
    n \<le> lamports L payer \<and> unat (lamports L shard) + unat n < 2 ^ 64"
  proof (cases "n = 0")
    case True
    with assms(1) unat_less_2p [of "lamports L shard"] show ?thesis
      by (simp add: move_lamports_def)
  next
    case False
    with assms(1) have "collect_fee_to_shard rt n payer shard L = Inr L'"
      by (simp add: word_neq_0_conv)
    from collect_fee_funded [OF this assms(2,3)] False assms(4) show ?thesis by blast
  qed
  with assms(4) show "unat (lamports L' payer) + unat n = unat (lamports L payer)"
    "unat (lamports L' shard) = unat (lamports L shard) + unat n"
    "k \<noteq> ai_key payer \<Longrightarrow> k \<noteq> ai_key shard \<Longrightarrow> L' k = L k"
    by (auto simp: lamports_def move_lamports_acc unat_add_lt unat_sub_le word_le_nat_alt
        move_lamports_def Let_def)
qed

lemma collect_fee_paid:
  assumes "(if n > 0 then collect_fee_to_shard rt n payer shard L else Inr L) = Inr L'"
    and "ai_key payer \<noteq> ai_key shard"
  shows "unat (lamports L shard) + unat n \<le> unat (lamports L' shard)"
proof (cases "n = 0")
  case True
  with assms(1) show ?thesis by simp
next
  case False
  with assms(1) have run: "collect_fee_to_shard rt n payer shard L = Inr L'"
    by (simp add: word_neq_0_conv)
  with False obtain rent where "rt_rent rt = Inr rent"
    by (auto simp: collect_fee_to_shard_def ok_simps)
  from collect_fee_rent_exempt(2) [OF run this False assms(2)] show ?thesis .
qed

text \<open>A split payment: each vault gets at least its part.\<close>

lemma transfer_fee_split_paid:
  assumes "transfer_fee_split rt amount cut_bps payer author treasury L = Inr L'"
    and "ai_key payer \<noteq> ai_key author" "ai_key payer \<noteq> ai_key treasury"
  shows "unat (lamports L treasury) + unat (snd (compute_fee_split amount cut_bps)) \<le>
      unat (lamports L' treasury)"
    and "unat (lamports L author) + unat (fst (compute_fee_split amount cut_bps)) \<le>
      unat (lamports L' author)"
proof -
  obtain a p where split: "compute_fee_split amount cut_bps = (a, p)" by fastforce
  with assms(1) obtain L1 where
    L1: "(if p > 0 then collect_fee_to_shard rt p payer treasury L else Inr L) = Inr L1"
    and L': "(if a > 0 then collect_fee_to_shard rt a payer author L1 else Inr L1) = Inr L'"
    by (auto simp: transfer_fee_split_def ok_simps)
  have e1: "effect pid {} {ai_key payer} L L1" and e2: "effect pid {} {ai_key payer} L1 L'"
    using L1 L' by (auto split: if_splits intro: collect_fee_effect)
  from collect_fee_paid [OF L1 assms(3)] effect_balance [OF e2, of treasury] assms(3)
  show "unat (lamports L treasury) + unat (snd (compute_fee_split amount cut_bps)) \<le>
      unat (lamports L' treasury)" by (simp add: split)
  from collect_fee_paid [OF L' assms(2)] effect_balance [OF e1, of author] assms(2)
  show "unat (lamports L author) + unat (fst (compute_fee_split amount cut_bps)) \<le>
      unat (lamports L' author)" by (simp add: split)
qed

lemma ensure_shard_funded:
  assumes "ensure_shard_initialized rt pid payer shard sp seeds bump L = Inr L'"
    and "rt_rent rt = Inr rent" "ai_key payer \<noteq> ai_key shard"
    and "is_uninitialized rt shard L \<or> rent 0 \<le> lamports L shard"
  shows "rent 0 \<le> lamports L' shard"
  using assms
  by (auto simp: ensure_shard_initialized_def split: if_splits
      dest: create_pda_account_funded)

end

section \<open>Sweeping one shard\<close>

lemma sweep_shard_excess_ok:
  assumes "sweep_shard_excess shard recipient m L = Inr L'"
  shows "acc_owner (L' k) = acc_owner (L k)" "acc_data (L' k) = acc_data (L k)"
    and "k \<noteq> ai_key shard \<Longrightarrow> k \<noteq> ai_key recipient \<Longrightarrow> L' k = L k"
    and "ai_key shard \<noteq> ai_key recipient \<Longrightarrow> lamports L' shard = min (lamports L shard) m"
    and "ai_key shard = ai_key recipient \<Longrightarrow> lamports L' shard = lamports L shard"
    and "total L' = total L"
    and "spends {ai_key shard} L L'"
proof -
  have pos: "saturating_sub (lamports L shard) m > 0 \<longleftrightarrow> m < lamports L shard"
    by (metis not_le saturating_sub_0_iff word_neq_0_conv)
  let ?ex = "lamports L shard - m"
  let ?L1 = "set_lamports shard m L"
  have cases: "\<not> m < lamports L shard \<and> L' = L \<or>
     m < lamports L shard \<and> unat (lamports ?L1 recipient) + unat ?ex < 2 ^ 64 \<and>
     L' = set_lamports recipient (lamports ?L1 recipient + ?ex) ?L1"
    using assms pos
    by (auto simp: sweep_shard_excess_def ok_simps Let_def checked_add_Some_iff
        saturating_sub_def split: if_splits)
  then show "acc_owner (L' k) = acc_owner (L k)" "acc_data (L' k) = acc_data (L k)"
    "k \<noteq> ai_key shard \<Longrightarrow> k \<noteq> ai_key recipient \<Longrightarrow> L' k = L k"
    "ai_key shard \<noteq> ai_key recipient \<Longrightarrow> lamports L' shard = min (lamports L shard) m"
    "ai_key shard = ai_key recipient \<Longrightarrow> lamports L' shard = lamports L shard"
    by (auto simp: lamports_def min_def)
  show "total L' = total L"
    using cases
  proof
    assume c: "m < lamports L shard \<and> unat (lamports ?L1 recipient) + unat ?ex < 2 ^ 64 \<and>
      L' = set_lamports recipient (lamports ?L1 recipient + ?ex) ?L1"
    then have "total L' + unat (lamports ?L1 recipient) =
        total ?L1 + (unat (lamports ?L1 recipient) + unat ?ex)"
      using total_set_lamports [of recipient "lamports ?L1 recipient + ?ex" ?L1]
      by (simp add: unat_add_lt)
    moreover have "total ?L1 + unat (lamports L shard) = total L + unat m"
      by (rule total_set_lamports)
    moreover have "unat ?ex = unat (lamports L shard) - unat m" "unat m < unat (lamports L shard)"
      using c by (auto intro: unat_sub_le simp: word_less_nat_alt [symmetric])
    ultimately show ?thesis by simp
  qed simp
  show "spends {ai_key shard} L L'"
    using cases
    by (auto simp: spends_def lamports_def word_le_nat_alt unat_add_lt)
qed

section \<open>Properties\<close>

text \<open>A derived account can always be created, also where somebody has sent lamports to its
  address beforehand: given a payer who can cover the rent, the call succeeds, and the account is
  the program's, zeroed, rent-exempt, and nothing else but the payer's and its balance changed.\<close>

theorem creation_survives_prefunding:
  assumes "solana_live rt pid" "rt_find_pda rt seeds pid = (ai_key target, bump)"
    and "rt_rent rt = Inr rent"
    and "is_signer payer" "is_writable payer" "owner L payer = rt_system_id rt" "data L payer = []"
      "rent space \<le> lamports L payer" "ai_key payer \<noteq> ai_key target"
    and "is_writable target" "owner L target = rt_system_id rt" "data L target = []"
    and "ai_key sp = rt_system_id rt" "space \<le> max_data_increase"
  shows "\<exists>L'. create_pda_account rt pid payer target sp space (seeds @ [[bump]]) L = Inr L' \<and>
    owner L' target = pid \<and> data L' target = replicate space 0 \<and>
    rent space \<le> lamports L' target \<and> effect pid {ai_key target} {ai_key payer} L L'"
proof -
  have small: "space < 2 ^ 64" using assms(14) by (simp add: max_data_increase_def)
  have s: "solana rt pid" using assms(1) by (rule solana_live.axioms)
  from solana_live.create_pda_account_live [OF assms] obtain L' where
    run: "create_pda_account rt pid payer target sp space (seeds @ [[bump]]) L = Inr L'" by blast
  with solana.create_pda_account_ok(3,4) [OF s run small]
    solana.create_pda_account_funded [OF s run assms(3,9)]
    solana.create_pda_account_effect [OF s run]
  show ?thesis by blast
qed

theorem creation_survives_prefunding_witness:
  "is_ok (create_pda_account (ref_rt 0) ref_pid (signer_info 20) (plain_info 254147) (plain_info 0)
     ProgramSettings_size [SETTINGS_SEED, [255]] (stage(254147 := wallet_account 77)))"
proof -
  have "rt_find_pda (ref_rt 0) [SETTINGS_SEED] ref_pid = (ai_key (plain_info 254147), 255)"
    using stage_addresses(2) by (simp add: derive_settings_pda_def plain_info_def)
  from creation_survives_prefunding [OF ref_runtime.solana_live_axioms this, of _ "signer_info 20"
      "stage(254147 := wallet_account 77)" ProgramSettings_size "plain_info 0"]
  show ?thesis
    by (auto simp: signer_info_def plain_info_def ledger_defs wallet_account_def ref_system_id_def
        ProgramSettings_size_def max_data_increase_def ref_rent_def is_ok_def)
qed

text \<open>C29. A fee under the cap is split without loss: the parts add up to the amount, the
  platform's part is the share rounded down, and it is never more than half.\<close>

theorem fee_split_exact:
  assumes "cut_bps \<le> MAX_FEE_CUT_BPS"
  shows "unat (fst (compute_fee_split amount cut_bps)) +
      unat (snd (compute_fee_split amount cut_bps)) = unat amount \<and>
    unat (snd (compute_fee_split amount cut_bps)) = unat amount * unat cut_bps div 10000 \<and>
    2 * unat (snd (compute_fee_split amount cut_bps)) \<le> unat amount"
proof -
  have cut: "unat cut_bps \<le> 5000"
    using assms by (simp add: MAX_FEE_CUT_BPS_def word_le_nat_alt)
  then have cap: "cut_bps \<le> 10000" by (simp add: word_le_nat_alt)
  have "unat amount * unat cut_bps div 10000 \<le> unat amount * 5000 div 10000"
    using cut by (intro div_le_mono mult_le_mono2)
  then have "2 * (unat amount * unat cut_bps div 10000) \<le> unat amount" by linarith
  with compute_fee_split_eq(2) [OF cap, of amount] compute_fee_split_total [OF cap, of amount]
  show ?thesis by simp
qed

theorem fee_split_exact_witness:
  "unat (fst (compute_fee_split 1003 1000)) + unat (snd (compute_fee_split 1003 1000)) = 1003 \<and>
   unat (snd (compute_fee_split 1003 1000)) = 100"
  using fee_split_exact [of 1000 1003] by (simp add: MAX_FEE_CUT_BPS_def)

text \<open>C30. A collected fee is never lost to rent: afterwards the vault holds at least its
  rent-exempt minimum and at least the fee more than before, and no lamport was created.\<close>

theorem fee_vault_stays_rent_exempt:
  assumes "solana rt pid" "collect_fee_to_shard rt amount payer shard L = Inr L'"
    and "rt_rent rt = Inr rent" "amount \<noteq> 0" "ai_key payer \<noteq> ai_key shard"
  shows "rent 0 \<le> lamports L' shard \<and>
    unat (lamports L shard) + unat amount \<le> unat (lamports L' shard) \<and> total L' = total L"
  using solana.collect_fee_rent_exempt [OF assms]
    effect_total [OF solana.collect_fee_effect [OF assms(1,2) singletonI, of "{}"]]
  by blast

text \<open>A vault that was never funded: the fee of 100 is topped up to the minimum.\<close>

theorem fee_vault_stays_rent_exempt_witness:
  "ref_rent 0 \<le> lamports (ok_value (collect_fee_to_shard (ref_rt 0) 100 (signer_info 21)
     (plain_info 31) stage)) (plain_info 31)"
proof -
  have run: "is_ok (collect_fee_to_shard (ref_rt 0) 100 (signer_info 21) (plain_info 31) stage)"
    by (simp add: run_simps cong: run_congs)
  from fee_vault_stays_rent_exempt [OF ref_runtime.solana_axioms is_ok_ok_value [OF run]]
  show ?thesis by (simp add: signer_info_def plain_info_def)
qed

text \<open>Between funded vaults a fee is split to the lamport: the payer loses the whole fee,
  the author's vault gains the author's part, the treasury's vault the platform's part, and
  nobody else's balance changes.\<close>

theorem fee_split_paid_exactly:
  assumes "solana rt pid" "transfer_fee_split rt amount cut_bps payer author treasury L = Inr L'"
    and "cut_bps \<le> MAX_FEE_CUT_BPS" "rt_rent rt = Inr rent"
    and "rent 0 \<le> lamports L author" "rent 0 \<le> lamports L treasury"
    and "distinct [ai_key payer, ai_key author, ai_key treasury]"
  shows "unat (lamports L' payer) + unat amount = unat (lamports L payer) \<and>
    unat (lamports L' author) = unat (lamports L author) + unat (fst (compute_fee_split amount cut_bps)) \<and>
    unat (lamports L' treasury) =
      unat (lamports L treasury) + unat (snd (compute_fee_split amount cut_bps)) \<and>
    (\<forall>k. k \<notin> {ai_key payer, ai_key author, ai_key treasury} \<longrightarrow> L' k = L k)"
proof -
  have cap: "cut_bps \<le> 10000"
    using assms(3) by (auto simp: MAX_FEE_CUT_BPS_def elim: order_trans)
  obtain a p where split: "compute_fee_split amount cut_bps = (a, p)" by fastforce
  with compute_fee_split_total [OF cap, of amount] have sum: "unat a + unat p = unat amount" by simp
  from assms(2) split obtain L1 where
    L1: "(if p > 0 then collect_fee_to_shard rt p payer treasury L else Inr L) = Inr L1"
    and L2: "(if a > 0 then collect_fee_to_shard rt a payer author L1 else Inr L1) = Inr L'"
    by (auto simp: transfer_fee_split_def ok_simps)
  have t: "unat (lamports L1 payer) + unat p = unat (lamports L payer)"
    "unat (lamports L1 treasury) = unat (lamports L treasury) + unat p"
    "\<And>k. k \<noteq> ai_key payer \<Longrightarrow> k \<noteq> ai_key treasury \<Longrightarrow> L1 k = L k"
    using solana.collect_fee_moves [OF assms(1) L1 assms(4,6)] assms(7) by auto
  then have "rent 0 \<le> lamports L1 author" using assms(5,7) by (auto simp: lamports_def)
  from solana.collect_fee_moves [OF assms(1) L2 assms(4) this] assms(7)
  have u: "unat (lamports L' payer) + unat a = unat (lamports L1 payer)"
    "unat (lamports L' author) = unat (lamports L1 author) + unat a"
    "\<And>k. k \<noteq> ai_key payer \<Longrightarrow> k \<noteq> ai_key author \<Longrightarrow> L' k = L1 k" by auto
  have "lamports L1 author = lamports L author" "lamports L' treasury = lamports L1 treasury"
    using t(3) u(3) assms(7) by (auto simp: lamports_def)
  with t u sum split show ?thesis by auto
qed

theorem fee_split_paid_exactly_witness:
  "unat (lamports (ok_value (transfer_fee_split (ref_rt 0) 3000 1000 (signer_info 21)
     (plain_info 624592) (plain_info 32017) stage)) (plain_info 32017)) = 890880 + 500 + 300"
proof -
  have run: "is_ok (transfer_fee_split (ref_rt 0) 3000 1000 (signer_info 21)
     (plain_info 624592) (plain_info 32017) stage)"
    by (simp add: run_simps cong: run_congs)
  have split: "compute_fee_split 3000 1000 = (2700, 300)" by (simp add: run_simps)
  from fee_split_paid_exactly [OF ref_runtime.solana_axioms is_ok_ok_value [OF run], of ref_rent] split
  show ?thesis by (simp add: run_simps)
qed

end
