(* ===== verification/Loaders.thy ===== *)
theory Loaders
  imports Stage
begin

text \<open>
  The loading half of \<open>src/state/loaders.rs\<close>: an account's bytes decoded, its tag checked,
  and for each loader the owner, address and authority checks it makes, in the source's order.
  Every rule in \<open>ok_simps\<close> says that a loader returns exactly the view of the account, under
  exactly the checks it makes.
\<close>

section \<open>Plain loaders\<close>

definition load_thread_access :: "runtime \<Rightarrow> account_info \<Rightarrow> ledger \<Rightarrow> thread_access res" where
  "load_thread_access rt a L =
     attempt (ok_or (program_error_of InvalidAccountData)
       (deserialize (thread_access_codec (rt_borsh rt)) (data L a))) (\<lambda>access.
     if ta_tag access \<noteq> TAG_ACCESS then err InvalidTag else Inr access)"

definition load_access_entry :: "runtime \<Rightarrow> account_info \<Rightarrow> ledger \<Rightarrow> access_entry res" where
  "load_access_entry rt a L =
     attempt (ok_or (program_error_of InvalidAccountData)
       (deserialize (access_entry_codec (rt_borsh rt)) (data L a))) (\<lambda>entry.
     if ae_tag entry \<noteq> TAG_ACCESS_ENTRY then err InvalidTag else Inr entry)"

definition load_bound_access_entry ::
  "runtime \<Rightarrow> pubkey \<Rightarrow> account_info \<Rightarrow> pubkey \<Rightarrow> pubkey \<Rightarrow> ledger \<Rightarrow> access_entry res" where
  "load_bound_access_entry rt pid entry_account thread wallet L =
     attempt (assert_owned_by entry_account pid L) (\<lambda>_.
     attempt (load_access_entry rt entry_account L) (\<lambda>entry.
     if ae_thread entry \<noteq> thread \<or> ae_wallet entry \<noteq> wallet then err ThreadMismatch
     else Inr entry))"

definition load_alloc_likes :: "runtime \<Rightarrow> account_info \<Rightarrow> ledger \<Rightarrow> alloc_likes res" where
  "load_alloc_likes rt a L =
     attempt (ok_or (program_error_of InvalidAccountData)
       (try_from_slice (alloc_likes_codec (rt_borsh rt)) (data L a))) (\<lambda>likes.
     if al_tag likes \<noteq> TAG_LIKES then err InvalidTag else Inr likes)"

definition load_follow_registry :: "runtime \<Rightarrow> account_info \<Rightarrow> ledger \<Rightarrow> follow_registry res" where
  "load_follow_registry rt a L =
     attempt (ok_or (program_error_of InvalidAccountData)
       (try_from_slice (follow_registry_codec (rt_borsh rt)) (data L a))) (\<lambda>registry.
     if fr_tag registry \<noteq> TAG_FOLLOW_REGISTRY then err InvalidTag else Inr registry)"

definition load_follower_shard :: "runtime \<Rightarrow> account_info \<Rightarrow> ledger \<Rightarrow> follower_shard res" where
  "load_follower_shard rt a L =
     attempt (ok_or (program_error_of InvalidAccountData)
       (try_from_slice (follower_shard_codec (rt_borsh rt)) (data L a))) (\<lambda>shard.
     if fs_tag shard \<noteq> TAG_FOLLOWER_SHARD then err InvalidTag else Inr shard)"

definition load_bound_follower_shard ::
  "runtime \<Rightarrow> pubkey \<Rightarrow> account_info \<Rightarrow> pubkey \<Rightarrow> u8 \<Rightarrow> ledger \<Rightarrow> follower_shard res" where
  "load_bound_follower_shard rt pid shard_account thread shard_idx L =
     attempt (assert_owned_by shard_account pid L) (\<lambda>_.
     attempt (load_follower_shard rt shard_account L) (\<lambda>shard.
     if fs_thread shard \<noteq> thread \<or> fs_shard shard \<noteq> shard_idx then err ThreadMismatch
     else Inr shard))"

definition load_thread :: "runtime \<Rightarrow> pubkey \<Rightarrow> account_info \<Rightarrow> ledger \<Rightarrow> thread_node res" where
  "load_thread rt pid a L =
     attempt (assert_owned_by a pid L) (\<lambda>_.
     attempt (ok_or (program_error_of InvalidAccountData)
       (try_from_slice (thread_node_codec (rt_borsh rt)) (data L a))) (\<lambda>thread.
     if tn_tag thread \<noteq> TAG_THREAD then err InvalidTag else Inr thread))"

definition load_alloc :: "runtime \<Rightarrow> pubkey \<Rightarrow> account_info \<Rightarrow> ledger \<Rightarrow> alloc_node res" where
  "load_alloc rt pid a L =
     attempt (assert_owned_by a pid L) (\<lambda>_.
     attempt (ok_or (program_error_of InvalidAccountData)
       (try_from_slice (alloc_node_codec (rt_borsh rt)) (data L a))) (\<lambda>alloc.
     if an_tag alloc \<noteq> TAG_ALLOC then err InvalidTag
     else
       let (expected, _) = derive_alloc_pda rt pid (an_thread alloc) (an_alloc_seq alloc) in
       attempt (assert_pda a expected) (\<lambda>_. Inr alloc)))"

definition load_settings :: "runtime \<Rightarrow> pubkey \<Rightarrow> account_info \<Rightarrow> ledger \<Rightarrow> program_settings res" where
  "load_settings rt pid settings_account L =
     (let (expected_settings, _) = derive_settings_pda rt pid in
      attempt (assert_pda settings_account expected_settings) (\<lambda>_.
      if owner L settings_account \<noteq> pid then err AccountOwnerMismatch
      else
        attempt (ok_or (program_error_of InvalidAccountData)
          (try_from_slice (program_settings_codec (rt_borsh rt)) (data L settings_account)))
          (\<lambda>settings.
        if ps_tag settings \<noteq> TAG_SETTINGS then err InvalidTag else Inr settings)))"

section \<open>Loaders behind an authority\<close>

definition load_author_thread ::
  "runtime \<Rightarrow> pubkey \<Rightarrow> account_info \<Rightarrow> account_info \<Rightarrow> ledger \<Rightarrow> thread_node res" where
  "load_author_thread rt pid authority thread_account L =
     attempt (assert_signer authority) (\<lambda>_.
     attempt (assert_writable thread_account) (\<lambda>_.
     attempt (load_thread rt pid thread_account L) (\<lambda>thread.
     if ai_key authority \<noteq> tn_author thread then err Unauthorized else Inr thread)))"

definition load_admin_access ::
  "runtime \<Rightarrow> pubkey \<Rightarrow> account_info \<Rightarrow> account_info \<Rightarrow> ledger \<Rightarrow> thread_access res" where
  "load_admin_access rt pid authority access_account L =
     attempt (assert_signer authority) (\<lambda>_.
     attempt (assert_writable access_account) (\<lambda>_.
     attempt (assert_owned_by access_account pid L) (\<lambda>_.
     attempt (load_thread_access rt access_account L) (\<lambda>access.
     if ta_admin access \<noteq> ai_key authority then err Unauthorized
     else
       let (expected, _) = derive_access_pda rt pid (ta_thread access) in
       attempt (assert_pda access_account expected) (\<lambda>_. Inr access)))))"

definition load_admin_settings ::
  "runtime \<Rightarrow> pubkey \<Rightarrow> account_info \<Rightarrow> account_info \<Rightarrow> ledger \<Rightarrow> program_settings res" where
  "load_admin_settings rt pid authority settings_account L =
     attempt (assert_signer authority) (\<lambda>_.
     attempt (assert_writable settings_account) (\<lambda>_.
     attempt (load_settings rt pid settings_account L) (\<lambda>settings.
     if ps_admin settings \<noteq> ai_key authority then err Unauthorized else Inr settings)))"

lemmas load_run [run_simps] = load_thread_access_def load_access_entry_def
  load_bound_access_entry_def load_alloc_likes_def load_follow_registry_def
  load_follower_shard_def load_bound_follower_shard_def load_thread_def load_alloc_def
  load_settings_def load_author_thread_def load_admin_access_def load_admin_settings_def

section \<open>A loader returns the view\<close>

lemma load_thread_access_iff [ok_simps]:
  "owner L a = pid \<Longrightarrow>
   load_thread_access rt a L = Inr t \<longleftrightarrow> access_at rt pid L (ai_key a) = Some t"
  by (auto simp: load_thread_access_def access_at_def stored_Some_iff ok_simps owner_def data_def)

lemma load_bound_access_entry_iff [ok_simps]:
  "load_bound_access_entry rt pid a thread wallet L = Inr e \<longleftrightarrow>
     entry_at rt pid L (ai_key a) = Some e \<and> ae_thread e = thread \<and> ae_wallet e = wallet"
  by (auto simp: load_bound_access_entry_def load_access_entry_def entry_at_def stored_Some_iff
      ok_simps owner_def data_def)

lemma load_alloc_likes_iff [ok_simps]:
  "owner L a = pid \<Longrightarrow>
   load_alloc_likes rt a L = Inr l \<longleftrightarrow> likes_at rt pid L (ai_key a) = Some l"
  by (auto simp: load_alloc_likes_def likes_at_def stored_Some_iff ok_simps owner_def data_def)

lemma load_follow_registry_iff [ok_simps]:
  "owner L a = pid \<Longrightarrow>
   load_follow_registry rt a L = Inr r \<longleftrightarrow> registry_at rt pid L (ai_key a) = Some r"
  by (auto simp: load_follow_registry_def registry_at_def stored_Some_iff ok_simps
      owner_def data_def)

lemma load_bound_follower_shard_iff [ok_simps]:
  "load_bound_follower_shard rt pid a thread i L = Inr f \<longleftrightarrow>
     follower_shard_at rt pid L (ai_key a) = Some f \<and> fs_thread f = thread \<and> fs_shard f = i"
  by (auto simp: load_bound_follower_shard_def load_follower_shard_def follower_shard_at_def
      stored_Some_iff ok_simps owner_def data_def)

lemma load_thread_iff [ok_simps]:
  "load_thread rt pid a L = Inr t \<longleftrightarrow> thread_at rt pid L (ai_key a) = Some t"
  by (auto simp: load_thread_def thread_at_def stored_Some_iff ok_simps owner_def data_def)

lemma load_alloc_iff [ok_simps]:
  "load_alloc rt pid a L = Inr n \<longleftrightarrow>
     alloc_at rt pid L (ai_key a) = Some n \<and>
     ai_key a = fst (derive_alloc_pda rt pid (an_thread n) (an_alloc_seq n))"
  by (auto simp: load_alloc_def alloc_at_def stored_Some_iff ok_simps owner_def data_def Let_def
      case_prod_beta)

lemma load_settings_iff [ok_simps]:
  "load_settings rt pid a L = Inr s \<longleftrightarrow>
     settings_at rt pid L (ai_key a) = Some s \<and> ai_key a = fst (derive_settings_pda rt pid)"
  by (auto simp: load_settings_def settings_at_def stored_Some_iff ok_simps owner_def data_def
      Let_def case_prod_beta)

lemma load_author_thread_iff [ok_simps]:
  "load_author_thread rt pid authority a L = Inr t \<longleftrightarrow>
     is_signer authority \<and> is_writable a \<and> thread_at rt pid L (ai_key a) = Some t \<and>
     tn_author t = ai_key authority"
  by (auto simp: load_author_thread_def ok_simps)

lemma load_admin_access_iff [ok_simps]:
  "load_admin_access rt pid authority a L = Inr t \<longleftrightarrow>
     is_signer authority \<and> is_writable a \<and> access_at rt pid L (ai_key a) = Some t \<and>
     ta_admin t = ai_key authority \<and> ai_key a = fst (derive_access_pda rt pid (ta_thread t))"
proof -
  have own: "access_at rt pid L (ai_key a) = Some t \<Longrightarrow> owner L a = pid"
    by (simp add: access_at_def stored_Some_iff owner_def)
  show ?thesis
    by (cases "owner L a = pid")
      (auto simp: load_admin_access_def ok_simps Let_def case_prod_beta dest: own)
qed

lemma load_admin_settings_iff [ok_simps]:
  "load_admin_settings rt pid authority a L = Inr s \<longleftrightarrow>
     is_signer authority \<and> is_writable a \<and> settings_at rt pid L (ai_key a) = Some s \<and>
     ai_key a = fst (derive_settings_pda rt pid) \<and> ps_admin s = ai_key authority"
  by (auto simp: load_admin_settings_def ok_simps)

section \<open>Writing a view back\<close>

context solana
begin

text \<open>After a struct of the right size and tag is serialised into an account the program
  owns, the account's view is that struct.\<close>

lemma serialize_settings:
  assumes "serialize (program_settings_codec (rt_borsh rt)) s' a L = Inr L'"
    and "settings_at rt pid L (ai_key a) = Some s" "ps_tag s' = TAG_SETTINGS"
  shows "settings_at rt pid L' (ai_key a) = Some s'"
proof -
  have "acc_owner (L (ai_key a)) = pid" "length (data L a) = ProgramSettings_size"
    using assms(2) by (auto simp: settings_at_def stored_Some_iff data_def
        dest: fmt.settings.try_from_slice_size)
  with fmt.settings.serialize_exact [OF assms(1)] serialize_keeps [OF assms(1)] assms(3)
  show ?thesis by (simp add: settings_at_def stored_Some_iff data_def)
qed

lemma serialize_thread:
  assumes "serialize (thread_node_codec (rt_borsh rt)) t' a L = Inr L'"
    and "thread_at rt pid L (ai_key a) = Some t" "tn_tag t' = TAG_THREAD"
    and "length (tn_title t') = length (tn_title t)"
  shows "thread_at rt pid L' (ai_key a) = Some t'"
proof -
  have "acc_owner (L (ai_key a)) = pid"
    "length (data L a) = ThreadNode_size (length (tn_title t'))"
    using assms(2,4) by (auto simp: thread_at_def stored_Some_iff data_def
        dest: fmt.thread.try_from_slice_size)
  with fmt.thread.serialize_exact [OF assms(1)] serialize_keeps [OF assms(1)] assms(3)
  show ?thesis by (simp add: thread_at_def stored_Some_iff data_def)
qed

lemma serialize_access:
  assumes "serialize (thread_access_codec (rt_borsh rt)) t' a L = Inr L'"
    and "owner L a = pid" "ta_tag t' = TAG_ACCESS"
  shows "access_at rt pid L' (ai_key a) = Some t'"
  using fmt.access.serialize_prefix [OF assms(1)] serialize_keeps [OF assms(1)] assms(2,3)
  by (simp add: access_at_def stored_Some_iff data_def owner_def)

lemma serialize_entry:
  assumes "serialize (access_entry_codec (rt_borsh rt)) e' a L = Inr L'"
    and "owner L a = pid" "ae_tag e' = TAG_ACCESS_ENTRY"
  shows "entry_at rt pid L' (ai_key a) = Some e'"
  using fmt.entry.serialize_prefix [OF assms(1)] serialize_keeps [OF assms(1)] assms(2,3)
  by (simp add: entry_at_def stored_Some_iff data_def owner_def)

end

end
