(* ===== verification/Settings.thy ===== *)
theory Settings
  imports Loaders
begin

text \<open>
  The global settings: \<open>init_settings.rs\<close>, \<open>set_admin.rs\<close>, \<open>set_treasury.rs\<close> and
  \<open>set_platform_fees.rs\<close>. The locale \<open>gated_update\<close> is the contract behind every
  instruction that loads one struct behind an authority, changes fields and writes it back;
  the setters of settings, threads and access accounts are its three uses.
\<close>

section \<open>Load, change, write back\<close>

locale gated_update = account_view view pid
  for view :: "ledger \<Rightarrow> pubkey \<Rightarrow> 's option" and pid +
  fixes load :: "account_info \<Rightarrow> account_info \<Rightarrow> ledger \<Rightarrow> 's res"
    and store :: "'s \<Rightarrow> account_info \<Rightarrow> ledger \<Rightarrow> ledger res"
    and authority_of :: "'s \<Rightarrow> pubkey"
    and address_ok :: "'s \<Rightarrow> pubkey \<Rightarrow> bool"
    and same_shape :: "'s \<Rightarrow> 's \<Rightarrow> bool"
  assumes load_iff: "load authority a L = Inr s \<longleftrightarrow>
      is_signer authority \<and> is_writable a \<and> view L (ai_key a) = Some s \<and>
      authority_of s = ai_key authority \<and> address_ok s (ai_key a)"
    and store_view: "view L (ai_key a) = Some s \<Longrightarrow> same_shape s s' \<Longrightarrow>
      store s' a L = Inr L' \<Longrightarrow> view L' (ai_key a) = Some s'"
    and store_live: "view L (ai_key a) = Some s \<Longrightarrow> same_shape s s' \<Longrightarrow>
      \<exists>L'. store s' a L = Inr L'"
    and store_frame: "store s' a L = Inr L' \<Longrightarrow>
      (\<forall>k. k \<noteq> ai_key a \<longrightarrow> L' k = L k) \<and> (\<forall>k. acc_lamports (L' k) = acc_lamports (L k))"
begin

text \<open>The update goes through exactly for the authority, and then changes exactly the struct.\<close>

lemma update_iff:
  assumes "\<And>s. same_shape s (f s)"
  shows "(\<exists>L'. attempt (next_account_info accounts) (\<lambda>(authority, it).
      attempt (next_account_info it) (\<lambda>(a, it').
      attempt (load authority a L) (\<lambda>s. store (f s) a L))) = Inr L') \<longleftrightarrow>
    (\<exists>authority a rest s. accounts = authority # a # rest \<and> is_signer authority \<and>
       is_writable a \<and> view L (ai_key a) = Some s \<and> authority_of s = ai_key authority \<and>
       address_ok s (ai_key a))"
proof
  assume "\<exists>L'. attempt (next_account_info accounts) (\<lambda>(authority, it).
      attempt (next_account_info it) (\<lambda>(a, it').
      attempt (load authority a L) (\<lambda>s. store (f s) a L))) = Inr L'"
  then show "\<exists>authority a rest s. accounts = authority # a # rest \<and> is_signer authority \<and>
      is_writable a \<and> view L (ai_key a) = Some s \<and> authority_of s = ai_key authority \<and>
      address_ok s (ai_key a)"
    by (auto simp: attempt_Inr_iff next_account_info_Inr_iff load_iff)
next
  assume "\<exists>authority a rest s. accounts = authority # a # rest \<and> is_signer authority \<and>
      is_writable a \<and> view L (ai_key a) = Some s \<and> authority_of s = ai_key authority \<and>
      address_ok s (ai_key a)"
  then obtain authority a rest s where accounts: "accounts = authority # a # rest"
    and gate: "is_signer authority \<and> is_writable a \<and> view L (ai_key a) = Some s \<and>
      authority_of s = ai_key authority \<and> address_ok s (ai_key a)"
    by blast
  from gate have "load authority a L = Inr s" by (simp only: load_iff)
  moreover from gate assms have "\<exists>L'. store (f s) a L = Inr L'" by (intro store_live) blast+
  ultimately show "\<exists>L'. attempt (next_account_info accounts) (\<lambda>(authority, it).
      attempt (next_account_info it) (\<lambda>(a, it').
      attempt (load authority a L) (\<lambda>s. store (f s) a L))) = Inr L'"
    by (simp add: accounts)
qed

lemma update_ok:
  assumes "attempt (next_account_info accounts) (\<lambda>(authority, it).
      attempt (next_account_info it) (\<lambda>(a, it').
      attempt (load authority a L) (\<lambda>s. store (f s) a L))) = Inr L'"
    and "\<And>s. same_shape s (f s)"
  shows "\<exists>authority a rest s. accounts = authority # a # rest \<and> is_signer authority \<and>
    view L (ai_key a) = Some s \<and> authority_of s = ai_key authority \<and> address_ok s (ai_key a) \<and>
    view L' (ai_key a) = Some (f s) \<and> (\<forall>k. k \<noteq> ai_key a \<longrightarrow> L' k = L k) \<and>
    (\<forall>k. acc_lamports (L' k) = acc_lamports (L k))"
proof -
  from assms(1) obtain authority a rest s where accounts: "accounts = authority # a # rest"
    and load: "load authority a L = Inr s" and store: "store (f s) a L = Inr L'"
    by (auto simp: attempt_Inr_iff next_account_info_Inr_iff)
  from load have gate: "is_signer authority" "view L (ai_key a) = Some s"
    "authority_of s = ai_key authority" "address_ok s (ai_key a)"
    by (simp_all only: load_iff)
  from gate(2) assms(2) store have "view L' (ai_key a) = Some (f s)"
    by (rule store_view)
  with accounts gate store_frame [OF store] show ?thesis by blast
qed

end

section \<open>Operations\<close>

definition process_init_settings ::
  "runtime \<Rightarrow> pubkey \<Rightarrow> account_info list \<Rightarrow> pubkey \<Rightarrow> ledger \<Rightarrow> ledger res" where
  "process_init_settings rt pid accounts treasury L =
     attempt (next_account_info accounts) (\<lambda>(authority, it).
     attempt (next_account_info it) (\<lambda>(settings_account, it).
     attempt (next_account_info it) (\<lambda>(programdata_account, it).
     attempt (next_account_info it) (\<lambda>(system_program, it).
     attempt (assert_signer authority) (\<lambda>_.
     attempt (assert_writable settings_account) (\<lambda>_.
     attempt (assert_upgrade_authority rt pid programdata_account authority L) (\<lambda>_.
     attempt (assert_system_program rt system_program) (\<lambda>_.
     let (expected_settings, settings_bump) = derive_settings_pda rt pid in
     attempt (assert_pda settings_account expected_settings) (\<lambda>_.
     attempt (assert_uninitialized rt settings_account L) (\<lambda>_.
     let size = ProgramSettings_size in
     attempt (create_pda_account rt pid authority settings_account system_program size
       [SETTINGS_SEED, [settings_bump]] L) (\<lambda>L1.
     let settings = \<lparr>ps_tag = TAG_SETTINGS, ps_admin = ai_key authority, ps_treasury = treasury,
       ps_base_fee_bps = 1000, ps_author_fee_cut_bps = 1000, ps_entry_cut_bps = 1000,
       ps_like_cut_bps = 1000\<rparr> in
     serialize (program_settings_codec (rt_borsh rt)) settings settings_account L1)))))))))))"

definition process_set_admin ::
  "runtime \<Rightarrow> pubkey \<Rightarrow> account_info list \<Rightarrow> pubkey \<Rightarrow> ledger \<Rightarrow> ledger res" where
  "process_set_admin rt pid accounts new_admin L =
     attempt (next_account_info accounts) (\<lambda>(authority, it).
     attempt (next_account_info it) (\<lambda>(settings_account, it).
     attempt (load_admin_settings rt pid authority settings_account L) (\<lambda>settings.
     serialize (program_settings_codec (rt_borsh rt)) (settings\<lparr>ps_admin := new_admin\<rparr>)
       settings_account L)))"

definition process_set_treasury ::
  "runtime \<Rightarrow> pubkey \<Rightarrow> account_info list \<Rightarrow> pubkey \<Rightarrow> ledger \<Rightarrow> ledger res" where
  "process_set_treasury rt pid accounts treasury L =
     attempt (next_account_info accounts) (\<lambda>(authority, it).
     attempt (next_account_info it) (\<lambda>(settings_account, it).
     attempt (load_admin_settings rt pid authority settings_account L) (\<lambda>settings.
     serialize (program_settings_codec (rt_borsh rt)) (settings\<lparr>ps_treasury := treasury\<rparr>)
       settings_account L)))"

text \<open>The closure \<open>update\<close> writes the one field.\<close>

definition update_platform_setting ::
  "runtime \<Rightarrow> pubkey \<Rightarrow> account_info list \<Rightarrow> u32 \<Rightarrow> (program_settings \<Rightarrow> program_settings) \<Rightarrow>
   ledger \<Rightarrow> ledger res" where
  "update_platform_setting rt pid accounts fee_bps update L =
     (if fee_bps > MAX_FEE_CUT_BPS then err InvalidFeeBps
      else
        attempt (next_account_info accounts) (\<lambda>(authority, it).
        attempt (next_account_info it) (\<lambda>(settings_account, it).
        attempt (load_admin_settings rt pid authority settings_account L) (\<lambda>settings.
        serialize (program_settings_codec (rt_borsh rt)) (update settings)
          settings_account L))))"

definition process_set_base_fee ::
  "runtime \<Rightarrow> pubkey \<Rightarrow> account_info list \<Rightarrow> u32 \<Rightarrow> ledger \<Rightarrow> ledger res" where
  "process_set_base_fee rt pid accounts fee_bps L =
     update_platform_setting rt pid accounts fee_bps (\<lambda>s. s\<lparr>ps_base_fee_bps := fee_bps\<rparr>) L"

definition process_set_author_fee_cut ::
  "runtime \<Rightarrow> pubkey \<Rightarrow> account_info list \<Rightarrow> u32 \<Rightarrow> ledger \<Rightarrow> ledger res" where
  "process_set_author_fee_cut rt pid accounts fee_bps L =
     update_platform_setting rt pid accounts fee_bps (\<lambda>s. s\<lparr>ps_author_fee_cut_bps := fee_bps\<rparr>) L"

definition process_set_entry_cut ::
  "runtime \<Rightarrow> pubkey \<Rightarrow> account_info list \<Rightarrow> u32 \<Rightarrow> ledger \<Rightarrow> ledger res" where
  "process_set_entry_cut rt pid accounts fee_bps L =
     update_platform_setting rt pid accounts fee_bps (\<lambda>s. s\<lparr>ps_entry_cut_bps := fee_bps\<rparr>) L"

definition process_set_like_cut ::
  "runtime \<Rightarrow> pubkey \<Rightarrow> account_info list \<Rightarrow> u32 \<Rightarrow> ledger \<Rightarrow> ledger res" where
  "process_set_like_cut rt pid accounts fee_bps L =
     update_platform_setting rt pid accounts fee_bps (\<lambda>s. s\<lparr>ps_like_cut_bps := fee_bps\<rparr>) L"

section \<open>Lemmas\<close>

sublocale solana \<subseteq> settings_update: gated_update "settings_at rt pid" pid
    "load_admin_settings rt pid" "serialize (program_settings_codec (rt_borsh rt))" ps_admin
    "\<lambda>_ k. k = fst (derive_settings_pda rt pid)"
    "\<lambda>s s'. ps_tag s = TAG_SETTINGS \<longrightarrow> ps_tag s' = TAG_SETTINGS"
proof (unfold_locales, goal_cases)
  case (1 authority a L s)
  show ?case unfolding load_admin_settings_iff by blast
next
  case (2 L a s s' L')
  from 2(1) have "ps_tag s = TAG_SETTINGS"
    by (auto simp: settings_at_def stored_Some_iff)
  with 2 show ?case by (metis serialize_settings)
next
  case (3 L a s s')
  then have "length (data L a) = ProgramSettings_size"
    by (auto simp: settings_at_def stored_Some_iff data_def dest: fmt.settings.try_from_slice_size)
  then show ?case
    by (intro fmt.settings.serialize_succeeds fmt.encodable) simp
next
  case (4 s' a L L')
  then show ?case using serialize_other serialize_keeps by metis
qed

text \<open>The fee cuts stay within the cap the setters enforce.\<close>

definition settings_capped :: "program_settings \<Rightarrow> bool" where
  "settings_capped s \<longleftrightarrow>
     ps_base_fee_bps s \<le> MAX_FEE_CUT_BPS \<and> ps_author_fee_cut_bps s \<le> MAX_FEE_CUT_BPS \<and>
     ps_entry_cut_bps s \<le> MAX_FEE_CUT_BPS \<and> ps_like_cut_bps s \<le> MAX_FEE_CUT_BPS"

context solana
begin

lemma init_settings_ok:
  assumes "process_init_settings rt pid accounts treasury L = Inr L'"
  shows "\<exists>authority sa pd sp rest. accounts = authority # sa # pd # sp # rest \<and>
    is_signer authority \<and> ai_key sa = fst (derive_settings_pda rt pid) \<and>
    is_uninitialized rt sa L \<and>
    ai_key pd = fst (rt_find_pda rt [as_ref pid] (rt_loader_id rt)) \<and>
    owner L pd = rt_loader_id rt \<and> 45 \<le> length (data L pd) \<and> data L pd ! 12 = 1 \<and>
    ai_key authority = pubkey_from (take 32 (drop 13 (data L pd))) \<and>
    settings_at rt pid L' (ai_key sa) = Some \<lparr>ps_tag = TAG_SETTINGS, ps_admin = ai_key authority,
      ps_treasury = treasury, ps_base_fee_bps = 1000, ps_author_fee_cut_bps = 1000,
      ps_entry_cut_bps = 1000, ps_like_cut_bps = 1000\<rparr> \<and>
    effect pid {ai_key sa} {ai_key authority} L L'"
proof -
  let ?s = "\<lambda>authority. \<lparr>ps_tag = TAG_SETTINGS, ps_admin = ai_key authority,
      ps_treasury = treasury, ps_base_fee_bps = 1000, ps_author_fee_cut_bps = 1000,
      ps_entry_cut_bps = 1000, ps_like_cut_bps = 1000\<rparr>"
  from assms obtain authority sa pd sp rest L1 where
    acc: "accounts = authority # sa # pd # sp # rest"
    and gate: "is_signer authority" "ai_key sa = fst (derive_settings_pda rt pid)"
      "is_uninitialized rt sa L"
      "assert_upgrade_authority rt pid pd authority L = Inr ()"
    and make: "create_pda_account rt pid authority sa sp ProgramSettings_size
        [SETTINGS_SEED, [snd (derive_settings_pda rt pid)]] L = Inr L1"
    and put: "serialize (program_settings_codec (rt_borsh rt)) (?s authority) sa L1 = Inr L'"
    by (auto simp: process_init_settings_def attempt_Inr_iff next_account_info_Inr_iff Let_def
        case_prod_beta assert_Inr_iffs)
  have small: "ProgramSettings_size < 2 ^ 64"
    by (simp add: ProgramSettings_size_def)
  from create_then_serialize [OF fmt.program_settings_codec_ok make put refl small]
  have "settings_at rt pid L' (ai_key sa) = Some (?s authority)"
    by (simp add: settings_at_def stored_Some_iff owner_def data_def)
  moreover have "effect pid {ai_key sa} {ai_key authority} L L'"
    by (rule effect_trans [OF create_pda_account_effect [OF make] serialize_effect [OF put]])
      simp_all
  ultimately show ?thesis
    using acc gate by (auto simp: assert_Inr_iffs assert_upgrade_authority_Inr_iff)
qed

lemma update_platform_setting_ok:
  assumes "update_platform_setting rt pid accounts fee_bps update L = Inr L'"
    and "\<And>s. ps_tag (update s) = ps_tag s"
  shows "fee_bps \<le> MAX_FEE_CUT_BPS \<and>
    (\<exists>authority sa rest s. accounts = authority # sa # rest \<and> is_signer authority \<and>
      settings_at rt pid L (ai_key sa) = Some s \<and> ps_admin s = ai_key authority \<and>
      ai_key sa = fst (derive_settings_pda rt pid) \<and>
      settings_at rt pid L' (ai_key sa) = Some (update s) \<and>
      (\<forall>k. k \<noteq> ai_key sa \<longrightarrow> L' k = L k) \<and> (\<forall>k. acc_lamports (L' k) = acc_lamports (L k)))"
proof -
  from assms(1) have le: "fee_bps \<le> MAX_FEE_CUT_BPS"
    and run: "attempt (next_account_info accounts) (\<lambda>(authority, it).
        attempt (next_account_info it) (\<lambda>(settings_account, it).
        attempt (load_admin_settings rt pid authority settings_account L) (\<lambda>settings.
        serialize (program_settings_codec (rt_borsh rt)) (update settings)
          settings_account L))) = Inr L'"
    by (auto simp: update_platform_setting_def split: if_splits)
  from settings_update.update_ok [OF run] assms(2) le show ?thesis by simp
qed

end

text \<open>The four fee setters are one update each of a field that does not matter to the others.\<close>

lemma fee_setter_cases:
  assumes "process_set_base_fee rt pid accounts bps L = Inr L' \<or>
      process_set_author_fee_cut rt pid accounts bps L = Inr L' \<or>
      process_set_entry_cut rt pid accounts bps L = Inr L' \<or>
      process_set_like_cut rt pid accounts bps L = Inr L'"
  shows "\<exists>f. update_platform_setting rt pid accounts bps f L = Inr L' \<and>
      (\<forall>s. ps_tag (f s) = ps_tag s \<and> ps_admin (f s) = ps_admin s \<and>
        ps_treasury (f s) = ps_treasury s \<and>
        (settings_capped s \<longrightarrow> bps \<le> MAX_FEE_CUT_BPS \<longrightarrow> settings_capped (f s)))"
proof -
  let ?fs = "[\<lambda>s. s\<lparr>ps_base_fee_bps := bps\<rparr>, \<lambda>s. s\<lparr>ps_author_fee_cut_bps := bps\<rparr>,
    \<lambda>s. s\<lparr>ps_entry_cut_bps := bps\<rparr>, \<lambda>s. s\<lparr>ps_like_cut_bps := bps\<rparr>]"
  from assms have "list_ex (\<lambda>f. update_platform_setting rt pid accounts bps f L = Inr L') ?fs"
    by (simp add: process_set_base_fee_def process_set_author_fee_cut_def
        process_set_entry_cut_def process_set_like_cut_def)
  then obtain f where "f \<in> set ?fs" "update_platform_setting rt pid accounts bps f L = Inr L'"
    by (auto simp: list_ex_iff)
  then show ?thesis by (intro exI [of _ f]) (auto simp: settings_capped_def)
qed

context solana
begin

lemma settings_update_set_admin_iff:
  "(\<exists>L'. process_set_admin rt pid accounts new_admin L = Inr L') \<longleftrightarrow>
     (\<exists>authority sa rest s. accounts = authority # sa # rest \<and> is_signer authority \<and>
       is_writable sa \<and> settings_at rt pid L (ai_key sa) = Some s \<and>
       ps_admin s = ai_key authority \<and> ai_key sa = fst (derive_settings_pda rt pid))"
  unfolding process_set_admin_def
  by (rule settings_update.update_iff [of "\<lambda>s. s\<lparr>ps_admin := new_admin\<rparr>"]) simp

lemma set_admin_ok:
  assumes "process_set_admin rt pid accounts new_admin L = Inr L'"
  shows "\<exists>authority sa rest s. accounts = authority # sa # rest \<and> is_signer authority \<and>
    settings_at rt pid L (ai_key sa) = Some s \<and> ps_admin s = ai_key authority \<and>
    ai_key sa = fst (derive_settings_pda rt pid) \<and>
    settings_at rt pid L' (fst (derive_settings_pda rt pid)) = Some (s\<lparr>ps_admin := new_admin\<rparr>) \<and>
    (\<forall>k. k \<noteq> ai_key sa \<longrightarrow> L' k = L k) \<and> (\<forall>k. acc_lamports (L' k) = acc_lamports (L k))"
  using settings_update.update_ok [OF assms [unfolded process_set_admin_def]] by fastforce

end

lemmas settings_run [run_simps] = process_init_settings_def process_set_admin_def
  process_set_treasury_def update_platform_setting_def process_set_base_fee_def
  process_set_author_fee_cut_def process_set_entry_cut_def process_set_like_cut_def

section \<open>Properties\<close>

text \<open>C32. Settings come into being once, through the signature of the program's upgrade
  authority as its ProgramData account records it: the loader owns that account, its option flag
  says that there is an authority (an immutable program has none, whatever bytes follow the flag),
  and the 32 bytes after the flag are the signer's key. They start with the default fees, which are
  under the cap, with that authority as admin and the given treasury, and only the new account and
  the payer's balance are touched.\<close>

theorem settings_only_by_upgrade_authority:
  assumes "solana rt pid" "process_init_settings rt pid accounts treasury L = Inr L'"
  shows "\<exists>authority sa pd sp rest s. accounts = authority # sa # pd # sp # rest \<and>
    is_signer authority \<and> owner L pd = rt_loader_id rt \<and>
    ai_key pd = fst (rt_find_pda rt [as_ref pid] (rt_loader_id rt)) \<and>
    45 \<le> length (data L pd) \<and> data L pd ! 12 = 1 \<and>
    ai_key authority = pubkey_from (take 32 (drop 13 (data L pd))) \<and>
    ai_key sa = fst (derive_settings_pda rt pid) \<and> is_uninitialized rt sa L \<and>
    settings_at rt pid L' (ai_key sa) = Some s \<and> settings_capped s \<and>
    s = \<lparr>ps_tag = TAG_SETTINGS, ps_admin = ai_key authority, ps_treasury = treasury,
      ps_base_fee_bps = 1000, ps_author_fee_cut_bps = 1000, ps_entry_cut_bps = 1000,
      ps_like_cut_bps = 1000\<rparr> \<and>
    effect pid {ai_key sa} {ai_key authority} L L'"
proof -
  have "settings_capped \<lparr>ps_tag = TAG_SETTINGS, ps_admin = a, ps_treasury = treasury,
      ps_base_fee_bps = 1000, ps_author_fee_cut_bps = 1000, ps_entry_cut_bps = 1000,
      ps_like_cut_bps = 1000\<rparr>" for a
    by (simp add: settings_capped_def MAX_FEE_CUT_BPS_def)
  with solana.init_settings_ok [OF assms] show ?thesis by auto
qed

theorem settings_only_by_upgrade_authority_witness:
  "\<exists>s. settings_at (ref_rt 0) ref_pid (ok_value (process_init_settings (ref_rt 0) ref_pid
      [signer_info 25, plain_info 254147, plain_info 69617, plain_info 0] 42
      (stage(254147 := wallet_account 0)))) 254147 = Some s \<and> settings_capped s \<and>
    ps_admin s = 25 \<and> ps_treasury s = 42"
proof -
  let ?L = "stage(254147 := wallet_account 0)"
  let ?accounts = "[signer_info 25, plain_info 254147, plain_info 69617, plain_info 0]"
  have upgrade: "assert_upgrade_authority (ref_rt 0) ref_pid (plain_info 69617) (signer_info 25) ?L
      = Inr ()"
    by (simp add: assert_upgrade_authority_Inr_iff plain_info_def signer_info_def owner_def
        data_def nth_append)
  have run: "is_ok (process_init_settings (ref_rt 0) ref_pid ?accounts 42 ?L)"
    using upgrade by (simp add: run_simps cong: run_congs)
  from settings_only_by_upgrade_authority [OF ref_runtime.solana_axioms is_ok_ok_value [OF run]]
  show ?thesis by (auto simp: plain_info_def signer_info_def)
qed

text \<open>Every fee setter is the admin's alone and keeps the cap: it passes only with the
  signature of the recorded admin and a rate of at most 50 percent, and what it leaves behind
  has the same admin and treasury and is capped if it was.\<close>

theorem fee_setters_keep_cap:
  assumes "solana rt pid"
    and "process_set_base_fee rt pid accounts bps L = Inr L' \<or>
      process_set_author_fee_cut rt pid accounts bps L = Inr L' \<or>
      process_set_entry_cut rt pid accounts bps L = Inr L' \<or>
      process_set_like_cut rt pid accounts bps L = Inr L'"
  shows "bps \<le> MAX_FEE_CUT_BPS \<and>
    (\<exists>authority sa rest s s'. accounts = authority # sa # rest \<and> is_signer authority \<and>
      ai_key sa = fst (derive_settings_pda rt pid) \<and>
      settings_at rt pid L (ai_key sa) = Some s \<and> ps_admin s = ai_key authority \<and>
      settings_at rt pid L' (ai_key sa) = Some s' \<and>
      ps_admin s' = ps_admin s \<and> ps_treasury s' = ps_treasury s \<and>
      (settings_capped s \<longrightarrow> settings_capped s') \<and>
      (\<forall>k. k \<noteq> ai_key sa \<longrightarrow> L' k = L k) \<and> (\<forall>k. acc_lamports (L' k) = acc_lamports (L k)))"
proof -
  from fee_setter_cases [OF assms(2)] obtain f where
    run: "update_platform_setting rt pid accounts bps f L = Inr L'"
    and f: "\<And>s. ps_tag (f s) = ps_tag s \<and> ps_admin (f s) = ps_admin s \<and>
      ps_treasury (f s) = ps_treasury s \<and>
      (settings_capped s \<longrightarrow> bps \<le> MAX_FEE_CUT_BPS \<longrightarrow> settings_capped (f s))"
    by blast
  from solana.update_platform_setting_ok [OF assms(1) run] f
  obtain authority sa rest s where "bps \<le> MAX_FEE_CUT_BPS" "accounts = authority # sa # rest"
    "is_signer authority" "settings_at rt pid L (ai_key sa) = Some s"
    "ps_admin s = ai_key authority" "ai_key sa = fst (derive_settings_pda rt pid)"
    "settings_at rt pid L' (ai_key sa) = Some (f s)"
    "\<forall>k. k \<noteq> ai_key sa \<longrightarrow> L' k = L k" "\<forall>k. acc_lamports (L' k) = acc_lamports (L k)"
    by auto
  with f [of s] show ?thesis by blast
qed

theorem fee_setters_keep_cap_witness:
  "\<exists>s'. settings_at (ref_rt 0) ref_pid (ok_value (process_set_like_cut (ref_rt 0) ref_pid
      [signer_info 25, plain_info 254147] 5000 stage)) 254147 = Some s' \<and> ps_admin s' = 25"
proof -
  have run: "is_ok (process_set_like_cut (ref_rt 0) ref_pid
      [signer_info 25, plain_info 254147] 5000 stage)"
    by (simp add: run_simps cong: run_congs)
  from fee_setters_keep_cap [OF ref_runtime.solana_axioms, of 0 _ 5000 stage,
      OF disjI2 [OF disjI2 [OF disjI2 [OF is_ok_ok_value [OF run]]]]]
  show ?thesis by (auto simp: plain_info_def signer_info_def)
qed

text \<open>Handing over administration: the call succeeds exactly for the signature of the
  current admin on the settings account, and from then on only the new admin passes.\<close>

theorem set_admin_hands_over:
  assumes "solana rt pid"
  shows "((\<exists>L'. process_set_admin rt pid accounts new_admin L = Inr L') \<longleftrightarrow>
      (\<exists>authority sa rest s. accounts = authority # sa # rest \<and> is_signer authority \<and>
        is_writable sa \<and> settings_at rt pid L (ai_key sa) = Some s \<and>
        ps_admin s = ai_key authority \<and> ai_key sa = fst (derive_settings_pda rt pid))) \<and>
    (\<forall>L' someone sa s. process_set_admin rt pid accounts new_admin L = Inr L' \<and>
      load_admin_settings rt pid someone sa L' = Inr s \<longrightarrow> ai_key someone = new_admin)"
proof -
  note iff = solana.settings_update_set_admin_iff [OF assms]
  have "ai_key someone = new_admin"
    if run: "process_set_admin rt pid accounts new_admin L = Inr L'"
      and load: "load_admin_settings rt pid someone sa L' = Inr s" for L' someone sa s
  proof -
    from solana.set_admin_ok [OF assms run] obtain t where
      "settings_at rt pid L' (fst (derive_settings_pda rt pid)) = Some t" "ps_admin t = new_admin"
      by auto
    with load show ?thesis by (auto simp: load_admin_settings_iff)
  qed
  with iff show ?thesis by blast
qed

theorem set_admin_hands_over_witness:
  "is_ok (process_set_admin (ref_rt 0) ref_pid [signer_info 25, plain_info 254147] 26 stage)"
proof -
  have view: "settings_at (ref_rt 0) ref_pid stage 254147 = Some stage_settings"
    by (simp add: run_simps)
  have "\<exists>L'. process_set_admin (ref_rt 0) ref_pid [signer_info 25, plain_info 254147] 26 stage
      = Inr L'"
    using set_admin_hands_over [OF ref_runtime.solana_axioms, of 0
        "[signer_info 25, plain_info 254147]" 26 stage] view
    by (auto simp: signer_info_def plain_info_def stage_settings_def)
  then show ?thesis by auto
qed

end
