(* ===== verification/Threads.thy ===== *)
theory Threads
  imports Fees Settings
begin

text \<open>
  Threads and their allocation chain: \<open>create_root_alloc.rs\<close>, \<open>prepare_alloc.rs\<close>,
  \<open>set_message_fee.rs\<close> and \<open>set_like_fee.rs\<close>. The chain of a thread is the sequence of
  alloc nodes at the addresses derived from the thread and the numbers from 0 to
  \<open>last_alloc_seq\<close>; \<open>chain\<close> is that invariant.
\<close>

section \<open>Operations\<close>

definition process_create_root_alloc ::
  "runtime \<Rightarrow> pubkey \<Rightarrow> account_info list \<Rightarrow> u64 \<Rightarrow> u16 \<Rightarrow> u8 list \<Rightarrow> ledger \<Rightarrow> ledger res" where
  "process_create_root_alloc rt pid accounts message_fee treasury_shard_idx title L =
     (if length title > MAX_TITLE_LEN then err TextTooLong
      else
     attempt (next_account_info accounts) (\<lambda>(payer, it).
     attempt (next_account_info it) (\<lambda>(thread_account, it).
     attempt (next_account_info it) (\<lambda>(alloc_account, it).
     attempt (next_account_info it) (\<lambda>(settings_account, it).
     attempt (next_account_info it) (\<lambda>(treasury_shard, it).
     attempt (next_account_info it) (\<lambda>(system_program, it).
     attempt (assert_signer payer) (\<lambda>_.
     attempt (assert_signer thread_account) (\<lambda>_.
     attempt (assert_writable thread_account) (\<lambda>_.
     attempt (assert_writable alloc_account) (\<lambda>_.
     attempt (assert_writable treasury_shard) (\<lambda>_.
     attempt (assert_system_program rt system_program) (\<lambda>_.
     let thread_key = ai_key thread_account in
     attempt (load_settings rt pid settings_account L) (\<lambda>settings.
     let (expected_alloc, alloc_bump) = derive_alloc_pda rt pid thread_key 0 in
     attempt (assert_pda alloc_account expected_alloc) (\<lambda>_.
     attempt (validate_treasury_shard rt pid treasury_shard treasury_shard_idx)
       (\<lambda>treasury_bump.
     attempt (assert_uninitialized rt thread_account L) (\<lambda>_.
     attempt (assert_uninitialized rt alloc_account L) (\<lambda>_.
     attempt (ensure_shard_initialized rt pid payer treasury_shard system_program
       [TREASURY_SHARD_SEED, le_bytes 2 (unat treasury_shard_idx)] treasury_bump L) (\<lambda>L1.
     attempt (rt_rent rt) (\<lambda>rent.
     let thread_size = ThreadNode_size (length title);
         thread_lamports = rent thread_size in
     attempt (rt_create_account rt pid payer thread_account thread_lamports
       (of_nat thread_size) pid [] L1) (\<lambda>L2.
     let alloc_size = AllocNode_size;
         alloc_lamports = rent alloc_size in
     attempt (ok_or (program_error_of InvalidAccountData)
       (checked_add thread_lamports alloc_lamports)) (\<lambda>combined_rent.
     attempt (collect_base_fee rt combined_rent (ps_base_fee_bps settings) payer
       treasury_shard L2) (\<lambda>L3.
     attempt (create_pda_account rt pid payer alloc_account system_program alloc_size
       [ALLOC_SEED, as_ref thread_key, le_bytes 4 0, [alloc_bump]] L3) (\<lambda>L4.
     let thread = \<lparr>tn_tag = TAG_THREAD, tn_alloc_count = 1, tn_last_alloc_seq = 0,
       tn_author = ai_key payer, tn_message_fee = message_fee, tn_like_fee = 0,
       tn_title = title\<rparr> in
     attempt (serialize (thread_node_codec (rt_borsh rt)) thread thread_account L4) (\<lambda>L5.
     let alloc = \<lparr>an_tag = TAG_ALLOC, an_thread = thread_key, an_alloc_seq = 0\<rparr> in
     serialize (alloc_node_codec (rt_borsh rt)) alloc alloc_account L5)))))))))))))))))))))))))"

definition process_prepare_alloc ::
  "runtime \<Rightarrow> pubkey \<Rightarrow> account_info list \<Rightarrow> u32 \<Rightarrow> ledger \<Rightarrow> ledger res" where
  "process_prepare_alloc rt pid accounts alloc_seq L =
     attempt (next_account_info accounts) (\<lambda>(payer, it).
     attempt (next_account_info it) (\<lambda>(current_alloc_account, it).
     attempt (next_account_info it) (\<lambda>(new_alloc_account, it).
     attempt (next_account_info it) (\<lambda>(thread_account, it).
     attempt (next_account_info it) (\<lambda>(system_program, it).
     attempt (assert_signer payer) (\<lambda>_.
     attempt (assert_writable current_alloc_account) (\<lambda>_.
     attempt (assert_writable new_alloc_account) (\<lambda>_.
     attempt (assert_writable thread_account) (\<lambda>_.
     attempt (assert_system_program rt system_program) (\<lambda>_.
     let thread_key = ai_key thread_account in
     attempt (load_alloc rt pid current_alloc_account L) (\<lambda>current_alloc.
     if an_thread current_alloc \<noteq> thread_key then err ThreadMismatch
     else if an_alloc_seq current_alloc \<noteq> alloc_seq then err InvalidAllocSeq
     else
     attempt (load_thread rt pid thread_account L) (\<lambda>thread.
     if an_alloc_seq current_alloc \<noteq> tn_last_alloc_seq thread then err InvalidAllocSeq
     else
     attempt (ok_or (program_error_of InvalidAccountData) (checked_add alloc_seq 1)) (\<lambda>new_seq.
     let (expected_new, new_bump) = derive_alloc_pda rt pid thread_key new_seq in
     attempt (assert_pda new_alloc_account expected_new) (\<lambda>_.
     attempt (assert_uninitialized rt new_alloc_account L) (\<lambda>_.
     let alloc_size = AllocNode_size in
     attempt (create_pda_account rt pid payer new_alloc_account system_program alloc_size
       [ALLOC_SEED, as_ref thread_key, le_bytes 4 (unat new_seq), [new_bump]] L) (\<lambda>L1.
     let new_alloc = \<lparr>an_tag = TAG_ALLOC, an_thread = thread_key, an_alloc_seq = new_seq\<rparr> in
     attempt (serialize (alloc_node_codec (rt_borsh rt)) new_alloc new_alloc_account L1) (\<lambda>L2.
     attempt (ok_or (program_error_of InvalidAccountData)
       (checked_add (tn_alloc_count thread) 1)) (\<lambda>count.
     serialize (thread_node_codec (rt_borsh rt))
       (thread\<lparr>tn_alloc_count := count, tn_last_alloc_seq := new_seq\<rparr>)
       thread_account L2))))))))))))))))))"

definition process_set_message_fee ::
  "runtime \<Rightarrow> pubkey \<Rightarrow> account_info list \<Rightarrow> u64 \<Rightarrow> ledger \<Rightarrow> ledger res" where
  "process_set_message_fee rt pid accounts fee L =
     attempt (next_account_info accounts) (\<lambda>(authority, it).
     attempt (next_account_info it) (\<lambda>(thread_account, it).
     attempt (load_author_thread rt pid authority thread_account L) (\<lambda>thread.
     serialize (thread_node_codec (rt_borsh rt)) (thread\<lparr>tn_message_fee := fee\<rparr>)
       thread_account L)))"

definition process_set_like_fee ::
  "runtime \<Rightarrow> pubkey \<Rightarrow> account_info list \<Rightarrow> u64 \<Rightarrow> ledger \<Rightarrow> ledger res" where
  "process_set_like_fee rt pid accounts fee L =
     attempt (next_account_info accounts) (\<lambda>(authority, it).
     attempt (next_account_info it) (\<lambda>(thread_account, it).
     attempt (load_author_thread rt pid authority thread_account L) (\<lambda>thread.
     serialize (thread_node_codec (rt_borsh rt)) (thread\<lparr>tn_like_fee := fee\<rparr>)
       thread_account L)))"

section \<open>The author's settings of a thread\<close>

sublocale solana \<subseteq> thread_update: gated_update "thread_at rt pid" pid
    "load_author_thread rt pid" "serialize (thread_node_codec (rt_borsh rt))" tn_author
    "\<lambda>_ _. True"
    "\<lambda>t t'. tn_tag t' = tn_tag t \<and> length (tn_title t') = length (tn_title t)"
proof (unfold_locales, goal_cases)
  case (1 authority a L t)
  show ?case unfolding load_author_thread_iff by blast
next
  case (2 L a t t' L')
  then have "tn_tag t = TAG_THREAD" by (auto simp: thread_at_def stored_Some_iff)
  with 2 show ?case by (metis serialize_thread)
next
  case (3 L a t t')
  then have view: "try_from_slice (thread_node_codec (rt_borsh rt)) (data L a) = Some t"
    by (simp add: thread_at_def stored_Some_iff data_def)
  from view have "enc (thread_node_codec (rt_borsh rt)) t \<noteq> None"
    by (simp add: fmt.thread.try_from_slice_iff)
  then have "length (tn_title t) < 2 ^ 32" by (simp only: fmt.encodable_iff)
  with 3(2) fmt.thread.try_from_slice_size [OF view] show ?case
    by (intro fmt.thread.serialize_succeeds) (simp only: fmt.encodable_iff, simp_all)
next
  case (4 t' a L L')
  then show ?case using serialize_other serialize_keeps by metis
qed

section \<open>Creating a thread\<close>

context solana
begin

lemma serialize_alloc:
  assumes "create_pda_account rt pid payer a sp AllocNode_size seeds L = Inr L1"
    and "serialize (alloc_node_codec (rt_borsh rt)) n a L2 = Inr L'"
    and "L2 (ai_key a) = L1 (ai_key a)" "an_tag n = TAG_ALLOC"
  shows "alloc_at rt pid L' (ai_key a) = Some n"
proof -
  have small: "AllocNode_size < 2 ^ 64" by (simp add: AllocNode_size_def)
  have "owner L2 a = pid" "length (data L2 a) = AllocNode_size"
    using create_pda_account_ok [OF assms(1) small] assms(3)
    by (simp_all add: owner_def data_def)
  with fmt.alloc.serialize_exact [OF assms(2)] serialize_keeps [OF assms(2)] assms(4)
  show ?thesis by (simp add: alloc_at_def stored_Some_iff owner_def data_def)
qed

lemma create_root_alloc_ok:
  assumes "process_create_root_alloc rt pid accounts message_fee i title L = Inr L'"
  shows "\<exists>payer th al st ts sp rest s rent. accounts = payer # th # al # st # ts # sp # rest \<and>
    length title \<le> MAX_TITLE_LEN \<and> is_signer payer \<and> is_signer th \<and>
    settings_at rt pid L (ai_key st) = Some s \<and> rt_rent rt = Inr rent \<and>
    ai_key al = fst (derive_alloc_pda rt pid (ai_key th) 0) \<and>
    i < N_TREASURY_SHARDS \<and> ai_key ts = fst (derive_treasury_shard_pda rt pid i) \<and>
    is_uninitialized rt th L \<and> is_uninitialized rt al L \<and> ai_key payer \<noteq> ai_key th \<and>
    thread_at rt pid L' (ai_key th) = Some \<lparr>tn_tag = TAG_THREAD, tn_alloc_count = 1,
      tn_last_alloc_seq = 0, tn_author = ai_key payer, tn_message_fee = message_fee,
      tn_like_fee = 0, tn_title = title\<rparr> \<and>
    alloc_at rt pid L' (ai_key al) =
      Some \<lparr>an_tag = TAG_ALLOC, an_thread = ai_key th, an_alloc_seq = 0\<rparr> \<and>
    effect pid {ai_key th, ai_key al} {ai_key payer} L L' \<and>
    (ps_base_fee_bps s \<le> 10000 \<and> ai_key payer \<noteq> ai_key ts \<longrightarrow>
      unat (lamports L ts) +
        (unat (rent (ThreadNode_size (length title))) + unat (rent AllocNode_size)) *
          unat (ps_base_fee_bps s) div 10000 \<le> unat (lamports L' ts))"
proof -
  let ?t = "\<lambda>payer. \<lparr>tn_tag = TAG_THREAD, tn_alloc_count = 1,
      tn_last_alloc_seq = 0, tn_author = ai_key payer, tn_message_fee = message_fee,
      tn_like_fee = 0, tn_title = title\<rparr>"
  from assms obtain payer th al st ts sp rest s bump rent L1 L2 c L3 L4 L5 where
    acc: "accounts = payer # th # al # st # ts # sp # rest" "length title \<le> MAX_TITLE_LEN"
    and gate: "is_signer payer" "is_signer th" "settings_at rt pid L (ai_key st) = Some s"
      "ai_key al = fst (derive_alloc_pda rt pid (ai_key th) 0)"
      "i < N_TREASURY_SHARDS" "ai_key ts = fst (derive_treasury_shard_pda rt pid i)"
      "is_uninitialized rt th L" "is_uninitialized rt al L" "rt_rent rt = Inr rent"
    and shard: "ensure_shard_initialized rt pid payer ts sp
        [TREASURY_SHARD_SEED, le_bytes 2 (unat i)] bump L = Inr L1"
    and make: "rt_create_account rt pid payer th (rent (ThreadNode_size (length title)))
        (of_nat (ThreadNode_size (length title))) pid [] L1 = Inr L2"
    and sum: "checked_add (rent (ThreadNode_size (length title))) (rent AllocNode_size) = Some c"
    and fee: "collect_base_fee rt c (ps_base_fee_bps s) payer ts L2 = Inr L3"
    and alloc: "create_pda_account rt pid payer al sp AllocNode_size
        [ALLOC_SEED, as_ref (ai_key th), le_bytes 4 0,
          [snd (derive_alloc_pda rt pid (ai_key th) 0)]] L3 = Inr L4"
    and put: "serialize (thread_node_codec (rt_borsh rt)) (?t payer) th L4 = Inr L5"
    and put': "serialize (alloc_node_codec (rt_borsh rt))
        \<lparr>an_tag = TAG_ALLOC, an_thread = ai_key th, an_alloc_seq = 0\<rparr> al L5 = Inr L'"
    by (auto simp: process_create_root_alloc_def ok_simps Let_def case_prod_beta not_less not_le)
  have size: "unat (of_nat (ThreadNode_size (length title)) :: u64) = ThreadNode_size (length title)"
  proof -
    have "ThreadNode_size (length title) < 2 ^ 64"
      using acc(2) by (simp add: ThreadNode_size_def MAX_TITLE_LEN_def)
    then show ?thesis by (simp add: unat_of_nat)
  qed
  have small: "AllocNode_size < 2 ^ 64" by (simp add: AllocNode_size_def)
  from create_account_ok [OF make] have made: "ai_key payer \<noteq> ai_key th" "owner L2 th = pid"
    "length (data L2 th) = ThreadNode_size (length title)"
    by (simp_all add: owner_def data_def size)
  note L4 = create_pda_account_ok [OF alloc small]
  have L3: "owner L3 th = pid" "data L3 th = data L2 th"
    using made fee by (simp_all add: owner_def data_def collect_base_fee_def Let_def
        collect_fee_contents)
  with L4(1) pid_not_system have "ai_key th \<noteq> ai_key al" by (auto simp: owner_def)
  with L3 L4(6) [of "ai_key th"] made(3)
  have th4: "owner L4 th = pid" "length (data L4 th) = ThreadNode_size (length title)"
    by (simp_all add: owner_def data_def)
  have "thread_at rt pid L5 (ai_key th) = Some (?t payer)"
    using fmt.thread.serialize_exact [OF put] serialize_keeps [OF put] th4
    by (simp add: thread_at_def stored_Some_iff owner_def data_def)
  moreover have "L' (ai_key th) = L5 (ai_key th)"
    using serialize_other [OF put'] \<open>ai_key th \<noteq> ai_key al\<close> .
  ultimately have thread: "thread_at rt pid L' (ai_key th) = Some (?t payer)"
    by (metis thread_view.view_same)
  have "L5 (ai_key al) = L4 (ai_key al)"
    using serialize_other [OF put] \<open>ai_key th \<noteq> ai_key al\<close> by simp
  from serialize_alloc [OF alloc put' this]
  have node: "alloc_at rt pid L' (ai_key al) =
      Some \<lparr>an_tag = TAG_ALLOC, an_thread = ai_key th, an_alloc_seq = 0\<rparr>" by simp
  let ?K = "{ai_key th, ai_key al}" and ?P = "{ai_key payer}"
  have e2: "effect pid ?K ?P L L2"
    by (rule effect_trans [OF ensure_shard_effect [OF shard] create_account_effect [OF make]])
      simp_all
  have e3: "effect pid ?K ?P L2 L3" by (rule collect_base_fee_effect [OF fee]) simp
  have "effect pid ?K ?P L4 L'"
    by (rule effect_trans [OF serialize_effect [OF put] serialize_effect [OF put']]) simp_all
  moreover have "effect pid ?K ?P L3 L4"
    by (rule create_pda_account_effect [OF alloc]) simp_all
  ultimately have e: "effect pid ?K ?P L3 L'" by (rule effect_trans [rotated])
  have "unat (lamports L ts) +
        (unat (rent (ThreadNode_size (length title))) + unat (rent AllocNode_size)) *
          unat (ps_base_fee_bps s) div 10000 \<le> unat (lamports L' ts)"
    if "ps_base_fee_bps s \<le> 10000" "ai_key payer \<noteq> ai_key ts"
    using collect_base_fee_paid [OF fee that] sum effect_balance [OF e2, of ts]
      effect_balance [OF e, of ts] that
    by (simp add: checked_add_Some_iff unat_add_lt)
  with effect_trans [OF effect_trans [OF e2 e3] e] acc gate made(1) thread node
  show ?thesis by blast
qed

text \<open>Extending the chain: only from its tail, by exactly one node, by anyone who pays.\<close>

lemma prepare_alloc_ok:
  assumes "process_prepare_alloc rt pid accounts alloc_seq L = Inr L'"
  shows "\<exists>payer cur new th sp rest t. accounts = payer # cur # new # th # sp # rest \<and>
    is_signer payer \<and> thread_at rt pid L (ai_key th) = Some t \<and> tn_last_alloc_seq t = alloc_seq \<and>
    ai_key cur = fst (derive_alloc_pda rt pid (ai_key th) alloc_seq) \<and>
    alloc_at rt pid L (ai_key cur) =
      Some \<lparr>an_tag = TAG_ALLOC, an_thread = ai_key th, an_alloc_seq = alloc_seq\<rparr> \<and>
    unat alloc_seq + 1 < 2 ^ 32 \<and> unat (tn_alloc_count t) + 1 < 2 ^ 32 \<and>
    ai_key new = fst (derive_alloc_pda rt pid (ai_key th) (alloc_seq + 1)) \<and>
    is_uninitialized rt new L \<and> ai_key th \<noteq> ai_key new \<and>
    thread_at rt pid L' (ai_key th) = Some (t\<lparr>tn_alloc_count := tn_alloc_count t + 1,
      tn_last_alloc_seq := alloc_seq + 1\<rparr>) \<and>
    alloc_at rt pid L' (ai_key new) =
      Some \<lparr>an_tag = TAG_ALLOC, an_thread = ai_key th, an_alloc_seq = alloc_seq + 1\<rparr> \<and>
    effect pid {ai_key new, ai_key th} {ai_key payer} L L'"
proof -
  let ?n = "\<lambda>th q. \<lparr>an_tag = TAG_ALLOC, an_thread = ai_key th, an_alloc_seq = q\<rparr>"
  let ?t = "\<lambda>t. t\<lparr>tn_alloc_count := tn_alloc_count t + 1, tn_last_alloc_seq := alloc_seq + 1\<rparr>"
  from assms obtain payer cur new th sp rest n t L1 L2 where
    acc: "accounts = payer # cur # new # th # sp # rest"
    and gate: "is_signer payer" "thread_at rt pid L (ai_key th) = Some t"
      "tn_last_alloc_seq t = alloc_seq" "unat alloc_seq + 1 < 2 ^ 32"
      "unat (tn_alloc_count t) + 1 < 2 ^ 32"
      "ai_key new = fst (derive_alloc_pda rt pid (ai_key th) (alloc_seq + 1))"
      "is_uninitialized rt new L"
    and node: "alloc_at rt pid L (ai_key cur) = Some n"
      "ai_key cur = fst (derive_alloc_pda rt pid (an_thread n) (an_alloc_seq n))"
      "an_thread n = ai_key th" "an_alloc_seq n = alloc_seq"
    and make: "create_pda_account rt pid payer new sp AllocNode_size
        [ALLOC_SEED, as_ref (ai_key th), le_bytes 4 (unat (alloc_seq + 1)),
          [snd (derive_alloc_pda rt pid (ai_key th) (alloc_seq + 1))]] L = Inr L1"
    and put: "serialize (alloc_node_codec (rt_borsh rt)) (?n th (alloc_seq + 1)) new L1 = Inr L2"
    and put': "serialize (thread_node_codec (rt_borsh rt)) (?t t) th L2 = Inr L'"
    by (auto simp: process_prepare_alloc_def ok_simps Let_def case_prod_beta
        checked_add_Some_iff split: if_splits)
  from node have "n = ?n th alloc_seq"
    by (cases n) (simp add: alloc_at_def stored_Some_iff)
  with node(1,2) have cur: "alloc_at rt pid L (ai_key cur) = Some (?n th alloc_seq)"
    "ai_key cur = fst (derive_alloc_pda rt pid (ai_key th) alloc_seq)"
    by simp_all
  have "owner L th = pid" using gate(2) by (simp add: thread_at_def stored_Some_iff owner_def)
  with owned_initialized gate(7) have ne: "ai_key th \<noteq> ai_key new"
    by (metis is_uninitialized_def owner_def data_def)
  let ?K = "{ai_key new}" and ?P = "{ai_key payer}"
  have e: "effect pid ?K ?P L L2"
    by (rule effect_trans [OF create_pda_account_effect [OF make] serialize_effect [OF put]])
      simp_all
  have t2: "thread_at rt pid L2 (ai_key th) = Some t"
    using thread_view.view_effect [OF e] ne gate(2) by simp
  have "tn_tag t = TAG_THREAD" using gate(2) by (simp add: thread_at_def stored_Some_iff)
  with serialize_thread [OF put' t2] have thread: "thread_at rt pid L' (ai_key th) = Some (?t t)"
    by simp
  have "alloc_at rt pid L2 (ai_key new) = Some (?n th (alloc_seq + 1))"
    by (rule serialize_alloc [OF make put]) simp_all
  with ne have alloc: "alloc_at rt pid L' (ai_key new) = Some (?n th (alloc_seq + 1))"
    by (metis alloc_view.view_same serialize_other [OF put'])
  have "effect pid {ai_key new, ai_key th} ?P L L'"
    by (rule effect_trans [OF effect_mono [OF e] serialize_effect [OF put']]) auto
  with acc gate cur thread alloc ne show ?thesis by blast
qed

end

section \<open>The chain of a thread\<close>

definition chain_address :: "runtime \<Rightarrow> pubkey \<Rightarrow> pubkey \<Rightarrow> u32 \<Rightarrow> pubkey" where
  "chain_address rt pid thread alloc_seq = fst (derive_alloc_pda rt pid thread alloc_seq)"

text \<open>Every thread's nodes are numbered from 0 to \<open>last_alloc_seq\<close> without a gap, each at its
  own address, and \<open>alloc_count\<close> counts them.\<close>

definition chains :: "runtime \<Rightarrow> pubkey \<Rightarrow> ledger \<Rightarrow> bool" where
  "chains rt pid L \<longleftrightarrow> (\<forall>k t. thread_at rt pid L k = Some t \<longrightarrow>
     unat (tn_alloc_count t) = unat (tn_last_alloc_seq t) + 1 \<and>
     (\<forall>i \<le> tn_last_alloc_seq t. alloc_at rt pid L (chain_address rt pid k i) =
        Some \<lparr>an_tag = TAG_ALLOC, an_thread = k, an_alloc_seq = i\<rparr>))"

context solana
begin

lemma alloc_not_thread: "alloc_at rt pid L k = Some n \<Longrightarrow> thread_at rt pid L k = None"
  by (cases "thread_at rt pid L k") (auto dest!: view_tag_byte simp: tag_defs)

text \<open>An address that was uninitialised held no view, so it is none of the chain's.\<close>

lemma uninitialized_no_alloc:
  "is_uninitialized rt a L \<Longrightarrow> alloc_at rt pid L k = Some n \<Longrightarrow> k \<noteq> ai_key a"
  using owned_initialized [of L a] by (auto dest: alloc_view.view_owner simp: owner_def)

lemma chains_frame:
  assumes "chains rt pid L"
    and "\<And>k. thread_at rt pid L' k = thread_at rt pid L k"
    and "\<And>k n. alloc_at rt pid L k = Some n \<Longrightarrow> alloc_at rt pid L' k = Some n"
  shows "chains rt pid L'"
  using assms unfolding chains_def by simp

text \<open>Changing a thread's other fields keeps the chains.\<close>

lemma chains_thread_field:
  assumes "chains rt pid L" "thread_at rt pid L k = Some t" "thread_at rt pid L' k = Some t'"
    and "tn_alloc_count t' = tn_alloc_count t" "tn_last_alloc_seq t' = tn_last_alloc_seq t"
    and "\<And>j. j \<noteq> k \<Longrightarrow> L' j = L j"
  shows "chains rt pid L'"
proof -
  have same: "thread_at rt pid L' j = thread_at rt pid L j" "alloc_at rt pid L' j = alloc_at rt pid L j"
    if "j \<noteq> k" for j
    using assms(6) [OF that] thread_view.view_same [of L' j L] alloc_view.view_same [of L' j L]
    by simp_all
  have "alloc_at rt pid L' j = Some n" if "alloc_at rt pid L j = Some n" for j n
  proof -
    have "j \<noteq> k" using alloc_not_thread [OF that] assms(2) by auto
    from same(2) [OF this] that show ?thesis by simp
  qed
  moreover have "unat (tn_alloc_count u) = unat (tn_last_alloc_seq u) + 1 \<and>
      (\<forall>i \<le> tn_last_alloc_seq u. alloc_at rt pid L (chain_address rt pid j i) =
        Some \<lparr>an_tag = TAG_ALLOC, an_thread = j, an_alloc_seq = i\<rparr>)"
    if "thread_at rt pid L' j = Some u" for j u
  proof (cases "j = k")
    case True
    with that assms(3-5) have "tn_alloc_count u = tn_alloc_count t"
      "tn_last_alloc_seq u = tn_last_alloc_seq t" by auto
    with assms(1,2) True show ?thesis unfolding chains_def by auto
  next
    case False
    with that same(1) have "thread_at rt pid L j = Some u" by simp
    with assms(1) show ?thesis unfolding chains_def by blast
  qed
  ultimately show ?thesis unfolding chains_def by blast
qed

lemma chains_create:
  assumes "process_create_root_alloc rt pid accounts message_fee i title L = Inr L'"
    and "chains rt pid L"
  shows "chains rt pid L'"
proof -
  from create_root_alloc_ok [OF assms(1), folded chain_address_def] obtain payer th al :: account_info where
    new: "is_uninitialized rt th L" "is_uninitialized rt al L"
      "ai_key al = chain_address rt pid (ai_key th) 0"
      "thread_at rt pid L' (ai_key th) = Some \<lparr>tn_tag = TAG_THREAD, tn_alloc_count = 1,
        tn_last_alloc_seq = 0, tn_author = ai_key payer, tn_message_fee = message_fee,
        tn_like_fee = 0, tn_title = title\<rparr>"
      "alloc_at rt pid L' (ai_key al) =
        Some \<lparr>an_tag = TAG_ALLOC, an_thread = ai_key th, an_alloc_seq = 0\<rparr>"
    and e: "effect pid {ai_key th, ai_key al} {ai_key payer} L L'"
    by blast
  have kept: "alloc_at rt pid L' k = Some n" if "alloc_at rt pid L k = Some n" for k n
    using that uninitialized_no_alloc [OF new(1) that] uninitialized_no_alloc [OF new(2) that]
      alloc_view.view_effect [OF e, of k] by simp
  have other: "thread_at rt pid L' k = thread_at rt pid L k" if "k \<noteq> ai_key th" "k \<noteq> ai_key al" for k
    using that thread_view.view_effect [OF e, of k] by simp
  show ?thesis
    unfolding chains_def
  proof (intro allI impI)
    fix k u
    assume u: "thread_at rt pid L' k = Some u"
    with alloc_not_thread [OF new(5)] have "k \<noteq> ai_key al" by auto
    show "unat (tn_alloc_count u) = unat (tn_last_alloc_seq u) + 1 \<and>
      (\<forall>i \<le> tn_last_alloc_seq u. alloc_at rt pid L' (chain_address rt pid k i) =
        Some \<lparr>an_tag = TAG_ALLOC, an_thread = k, an_alloc_seq = i\<rparr>)"
    proof (cases "k = ai_key th")
      case True
      with u new show ?thesis by auto
    next
      case False
      with u other \<open>k \<noteq> ai_key al\<close> have "thread_at rt pid L k = Some u" by simp
      with assms(2) kept show ?thesis unfolding chains_def by simp
    qed
  qed
qed

lemma chains_prepare:
  assumes "process_prepare_alloc rt pid accounts alloc_seq L = Inr L'" "chains rt pid L"
  shows "chains rt pid L'"
proof -
  from prepare_alloc_ok [OF assms(1), folded chain_address_def] obtain payer new th :: account_info and t where
    t: "thread_at rt pid L (ai_key th) = Some t" "tn_last_alloc_seq t = alloc_seq"
      "unat alloc_seq + 1 < 2 ^ 32" "unat (tn_alloc_count t) + 1 < 2 ^ 32"
    and new: "ai_key new = chain_address rt pid (ai_key th) (alloc_seq + 1)"
      "is_uninitialized rt new L" "ai_key th \<noteq> ai_key new"
    and t': "thread_at rt pid L' (ai_key th) = Some (t\<lparr>tn_alloc_count := tn_alloc_count t + 1,
        tn_last_alloc_seq := alloc_seq + 1\<rparr>)"
    and n': "alloc_at rt pid L' (ai_key new) =
        Some \<lparr>an_tag = TAG_ALLOC, an_thread = ai_key th, an_alloc_seq = alloc_seq + 1\<rparr>"
    and e: "effect pid {ai_key new, ai_key th} {ai_key payer} L L'"
    by blast
  have kept: "alloc_at rt pid L' k = Some n" if "alloc_at rt pid L k = Some n" for k n
  proof -
    have "k \<noteq> ai_key th" using alloc_not_thread [OF that] t(1) by auto
    with that uninitialized_no_alloc [OF new(2) that] alloc_view.view_effect [OF e, of k]
    show ?thesis by simp
  qed
  have step: "i \<le> alloc_seq \<or> i = alloc_seq + 1" if "i \<le> alloc_seq + 1" for i
    using that t(3) by (auto simp: word_le_nat_alt unat_add_lt word_unat_eq_iff)
  show ?thesis
    unfolding chains_def
  proof (intro allI impI)
    fix k u
    assume u: "thread_at rt pid L' k = Some u"
    with alloc_not_thread [OF n'] have "k \<noteq> ai_key new" by auto
    show "unat (tn_alloc_count u) = unat (tn_last_alloc_seq u) + 1 \<and>
      (\<forall>i \<le> tn_last_alloc_seq u. alloc_at rt pid L' (chain_address rt pid k i) =
        Some \<lparr>an_tag = TAG_ALLOC, an_thread = k, an_alloc_seq = i\<rparr>)"
    proof (cases "k = ai_key th")
      case True
      from assms(2) t(1,2) have old: "unat (tn_alloc_count t) = unat alloc_seq + 1"
        "\<And>i. i \<le> alloc_seq \<Longrightarrow> alloc_at rt pid L (chain_address rt pid k i) =
          Some \<lparr>an_tag = TAG_ALLOC, an_thread = k, an_alloc_seq = i\<rparr>"
        unfolding chains_def True by blast+
      have "alloc_at rt pid L' (chain_address rt pid k i) =
          Some \<lparr>an_tag = TAG_ALLOC, an_thread = k, an_alloc_seq = i\<rparr>"
        if "i \<le> alloc_seq + 1" for i
        using step [OF that] old(2) kept n' new(1) True by auto
      with u t' True old(1) t(3,4) show ?thesis by (auto simp: unat_add_lt)
    next
      case False
      with u \<open>k \<noteq> ai_key new\<close> thread_view.view_effect [OF e, of k]
      have "thread_at rt pid L k = Some u" by simp
      with assms(2) kept show ?thesis unfolding chains_def by simp
    qed
  qed
qed

end

lemmas thread_run [run_simps] = process_create_root_alloc_def process_prepare_alloc_def
  process_set_message_fee_def process_set_like_fee_def

context solana
begin

lemma set_thread_fee_ok:
  assumes "process_set_message_fee rt pid accounts fee L = Inr L' \<or>
      process_set_like_fee rt pid accounts fee L = Inr L'"
  shows "\<exists>authority th rest t t'. accounts = authority # th # rest \<and> is_signer authority \<and>
    thread_at rt pid L (ai_key th) = Some t \<and> tn_author t = ai_key authority \<and>
    thread_at rt pid L' (ai_key th) = Some t' \<and>
    (t' = t\<lparr>tn_message_fee := fee\<rparr> \<or> t' = t\<lparr>tn_like_fee := fee\<rparr>) \<and>
    (\<forall>k. k \<noteq> ai_key th \<longrightarrow> L' k = L k) \<and> (\<forall>k. acc_lamports (L' k) = acc_lamports (L k))"
  using assms
proof
  assume "process_set_message_fee rt pid accounts fee L = Inr L'"
  from thread_update.update_ok [OF this [unfolded process_set_message_fee_def]]
  show ?thesis by fastforce
next
  assume "process_set_like_fee rt pid accounts fee L = Inr L'"
  from thread_update.update_ok [OF this [unfolded process_set_like_fee_def]]
  show ?thesis by fastforce
qed

lemma chains_fee:
  assumes "process_set_message_fee rt pid accounts fee L = Inr L' \<or>
      process_set_like_fee rt pid accounts fee L = Inr L'"
    and "chains rt pid L"
  shows "chains rt pid L'"
proof -
  from set_thread_fee_ok [OF assms(1)] obtain th :: account_info and t t' where
    t: "thread_at rt pid L (ai_key th) = Some t" "thread_at rt pid L' (ai_key th) = Some t'"
    and t': "t' = t\<lparr>tn_message_fee := fee\<rparr> \<or> t' = t\<lparr>tn_like_fee := fee\<rparr>"
    and other: "\<forall>k. k \<noteq> ai_key th \<longrightarrow> L' k = L k"
    by (elim exE conjE)
  from t' have "tn_alloc_count t' = tn_alloc_count t" "tn_last_alloc_seq t' = tn_last_alloc_seq t"
    by auto
  from chains_thread_field [OF assms(2) t this] other show ?thesis by blast
qed

end

section \<open>Properties\<close>

text \<open>Creating a thread: on success the two signed-for, previously empty accounts hold the
  thread as given, with the payer as author, and its alloc node number 0; no other account's
  owner or data changes (a fresh vault apart), only the payer spends, and the treasury vault
  has received at least the base fee on the rent of both accounts.\<close>

theorem thread_creation_correct:
  assumes "solana rt pid" "process_create_root_alloc rt pid accounts message_fee i title L = Inr L'"
  shows "\<exists>payer th al st ts sp rest s rent. accounts = payer # th # al # st # ts # sp # rest \<and>
    length title \<le> MAX_TITLE_LEN \<and> is_signer payer \<and> is_signer th \<and>
    is_uninitialized rt th L \<and> is_uninitialized rt al L \<and>
    ai_key al = chain_address rt pid (ai_key th) 0 \<and>
    thread_at rt pid L' (ai_key th) = Some \<lparr>tn_tag = TAG_THREAD, tn_alloc_count = 1,
      tn_last_alloc_seq = 0, tn_author = ai_key payer, tn_message_fee = message_fee,
      tn_like_fee = 0, tn_title = title\<rparr> \<and>
    alloc_at rt pid L' (ai_key al) =
      Some \<lparr>an_tag = TAG_ALLOC, an_thread = ai_key th, an_alloc_seq = 0\<rparr> \<and>
    effect pid {ai_key th, ai_key al} {ai_key payer} L L' \<and>
    settings_at rt pid L (ai_key st) = Some s \<and> rt_rent rt = Inr rent \<and>
    (ps_base_fee_bps s \<le> MAX_FEE_CUT_BPS \<and> ai_key payer \<noteq> ai_key ts \<longrightarrow>
      unat (lamports L ts) +
        (unat (rent (ThreadNode_size (length title))) + unat (rent AllocNode_size)) *
          unat (ps_base_fee_bps s) div 10000 \<le> unat (lamports L' ts))"
proof -
  have cap: "b \<le> 10000" if "b \<le> MAX_FEE_CUT_BPS" for b
    using that by (auto simp: MAX_FEE_CUT_BPS_def elim: order_trans)
  from solana.create_root_alloc_ok [OF assms, folded chain_address_def] cap
  show ?thesis by blast
qed

theorem thread_creation_correct_witness:
  "thread_at (ref_rt 0) ref_pid (ok_value (process_create_root_alloc (ref_rt 0) ref_pid
     [signer_info 20, signer_info 31, plain_info 92240, plain_info 254147, plain_info 32017,
      plain_info 0] 10 3 [104] stage)) 31 = Some \<lparr>tn_tag = TAG_THREAD, tn_alloc_count = 1,
      tn_last_alloc_seq = 0, tn_author = 20, tn_message_fee = 10, tn_like_fee = 0, tn_title = [104]\<rparr>"
proof -
  have run: "is_ok (process_create_root_alloc (ref_rt 0) ref_pid
     [signer_info 20, signer_info 31, plain_info 92240, plain_info 254147, plain_info 32017,
      plain_info 0] 10 3 [104] stage)"
    by (simp add: run_simps cong: run_congs)
  from thread_creation_correct [OF ref_runtime.solana_axioms is_ok_ok_value [OF run]]
  show ?thesis by (auto simp: signer_info_def)
qed

text \<open>Only the tail of a chain can be extended, and by exactly one node: the given number
  is the thread's last one, the new node is its successor at its own address, the thread's two
  counters move by one without wrapping, and no other program account changes.\<close>

theorem only_the_tail_is_extended:
  assumes "solana rt pid" "process_prepare_alloc rt pid accounts alloc_seq L = Inr L'"
  shows "\<exists>payer cur new th sp rest t t'. accounts = payer # cur # new # th # sp # rest \<and>
    is_signer payer \<and> thread_at rt pid L (ai_key th) = Some t \<and>
    tn_last_alloc_seq t = alloc_seq \<and> thread_at rt pid L' (ai_key th) = Some t' \<and>
    unat (tn_last_alloc_seq t') = unat alloc_seq + 1 \<and>
    unat (tn_alloc_count t') = unat (tn_alloc_count t) + 1 \<and>
    t' = t\<lparr>tn_alloc_count := tn_alloc_count t', tn_last_alloc_seq := tn_last_alloc_seq t'\<rparr> \<and>
    ai_key new = chain_address rt pid (ai_key th) (tn_last_alloc_seq t') \<and>
    is_uninitialized rt new L \<and>
    alloc_at rt pid L' (ai_key new) =
      Some \<lparr>an_tag = TAG_ALLOC, an_thread = ai_key th, an_alloc_seq = tn_last_alloc_seq t'\<rparr> \<and>
    effect pid {ai_key new, ai_key th} {ai_key payer} L L'"
proof -
  from solana.prepare_alloc_ok [OF assms, folded chain_address_def]
  obtain payer cur new th sp rest t where
    "accounts = payer # cur # new # th # sp # rest" "is_signer payer"
    "thread_at rt pid L (ai_key th) = Some t" "tn_last_alloc_seq t = alloc_seq"
    "unat alloc_seq + 1 < 2 ^ 32" "unat (tn_alloc_count t) + 1 < 2 ^ 32"
    "ai_key new = chain_address rt pid (ai_key th) (alloc_seq + 1)"
    "is_uninitialized rt new L"
    "thread_at rt pid L' (ai_key th) = Some (t\<lparr>tn_alloc_count := tn_alloc_count t + 1,
      tn_last_alloc_seq := alloc_seq + 1\<rparr>)"
    "alloc_at rt pid L' (ai_key new) =
      Some \<lparr>an_tag = TAG_ALLOC, an_thread = ai_key th, an_alloc_seq = alloc_seq + 1\<rparr>"
    "effect pid {ai_key new, ai_key th} {ai_key payer} L L'"
    by (elim exE conjE)
  then show ?thesis
    by (intro exI [of _ payer] exI [of _ cur] exI [of _ new] exI [of _ th] exI [of _ sp]
        exI [of _ rest] exI [of _ t] exI [of _ "t\<lparr>tn_alloc_count := tn_alloc_count t + 1,
          tn_last_alloc_seq := alloc_seq + 1\<rparr>"]) (simp add: unat_add_lt)
qed

theorem only_the_tail_is_extended_witness:
  "alloc_at (ref_rt 0) ref_pid (ok_value (process_prepare_alloc (ref_rt 0) ref_pid
     [signer_info 21, plain_info 26448, plain_info 26705, plain_info 30, plain_info 0] 1 stage))
     26705 = Some (stage_alloc 2)"
proof -
  let ?r = "process_prepare_alloc (ref_rt 0) ref_pid
     [signer_info 21, plain_info 26448, plain_info 26705, plain_info 30, plain_info 0] 1 stage"
  have run: "is_ok ?r"
    by (simp add: run_simps cong: run_congs)
  from only_the_tail_is_extended [OF ref_runtime.solana_axioms is_ok_ok_value [OF run]]
  obtain q where "alloc_at (ref_rt 0) ref_pid (ok_value ?r) 26705 =
      Some \<lparr>an_tag = TAG_ALLOC, an_thread = 30, an_alloc_seq = q\<rparr>" "unat q = unat (1 :: u32) + 1"
    by (auto simp: plain_info_def)
  moreover from this(2) have "q = 2" by (simp add: word_unat_eq_iff)
  ultimately show ?thesis by (simp add: stage_alloc_def)
qed

text \<open>The density of all chains is an invariant: creating threads, extending chains and
  changing a thread's fees keep every thread's nodes numbered from 0 to its last number without
  a gap, each at its derived address, with \<open>alloc_count\<close> counting them.\<close>

theorem alloc_chains_stay_dense:
  assumes "solana rt pid" "chains rt pid L"
    and "process_create_root_alloc rt pid accounts message_fee i title L = Inr L' \<or>
      process_prepare_alloc rt pid accounts alloc_seq L = Inr L' \<or>
      process_set_message_fee rt pid accounts fee L = Inr L' \<or>
      process_set_like_fee rt pid accounts fee L = Inr L'"
  shows "chains rt pid L'"
  using assms(3) solana.chains_create [OF assms(1) _ assms(2)]
    solana.chains_prepare [OF assms(1) _ assms(2)] solana.chains_fee [OF assms(1) _ assms(2)]
  by blast

theorem alloc_chains_stay_dense_witness:
  "chains (ref_rt 0) ref_pid (ok_value (process_create_root_alloc (ref_rt 0) ref_pid
     [signer_info 20, signer_info 31, plain_info 92240, plain_info 254147, plain_info 32017,
      plain_info 0] 10 3 [104] genesis))"
proof -
  have run: "is_ok (process_create_root_alloc (ref_rt 0) ref_pid
     [signer_info 20, signer_info 31, plain_info 92240, plain_info 254147, plain_info 32017,
      plain_info 0] 10 3 [104] genesis)"
    by (simp add: run_simps cong: run_congs)
  have "chains (ref_rt 0) ref_pid genesis"
    unfolding chains_def
    by (auto dest!: ref_runtime.view_tag_byte(2) genesis_tag simp: tag_defs)
  from alloc_chains_stay_dense [OF ref_runtime.solana_axioms this disjI1 [OF is_ok_ok_value [OF run]]]
  show ?thesis .
qed

end
