(* ===== verification/Acl.thy ===== *)
theory Acl
  imports Threads
begin

text \<open>
  Access control of a thread: the access half of \<open>src/state/loaders.rs\<close>,
  \<open>init_thread_access.rs\<close>, \<open>set_thread_access.rs\<close>, \<open>set_entry_fee.rs\<close>, the whitelist,
  blacklist and fee-whitelist handlers, and \<open>request_access.rs\<close>. Each wallet's standing is an
  entry account at its own derived address; the thread's access account counts the entries
  with status \<open>ACCESS_ALLOWED\<close>.
\<close>

section \<open>Entries and the counter\<close>

definition set_access_entry_status ::
  "runtime \<Rightarrow> pubkey \<Rightarrow> account_info \<Rightarrow> account_info \<Rightarrow> account_info \<Rightarrow> pubkey \<Rightarrow> pubkey \<Rightarrow>
   u8 \<Rightarrow> ledger \<Rightarrow> (u8 option \<times> ledger) res" where
  "set_access_entry_status rt pid payer entry_account system_program thread wallet status L =
     (let (expected_entry, entry_bump) = derive_access_entry_pda rt pid thread wallet in
      attempt (assert_pda entry_account expected_entry) (\<lambda>_.
      if is_uninitialized rt entry_account L then
        let size = AccessEntry_size in
        attempt (create_pda_account rt pid payer entry_account system_program size
          [ACL_SEED, as_ref thread, as_ref wallet, [entry_bump]] L) (\<lambda>L1.
        let entry = \<lparr>ae_tag = TAG_ACCESS_ENTRY, ae_thread = thread, ae_wallet = wallet,
          ae_status = status\<rparr> in
        attempt (serialize (access_entry_codec (rt_borsh rt)) entry entry_account L1) (\<lambda>L2.
        Inr (None, L2)))
      else
        attempt (load_bound_access_entry rt pid entry_account thread wallet L) (\<lambda>entry.
        let prev = ae_status entry in
        attempt (serialize (access_entry_codec (rt_borsh rt)) (entry\<lparr>ae_status := status\<rparr>)
          entry_account L) (\<lambda>L1.
        Inr (Some prev, L1)))))"

text \<open>\<open>i64\<close> arithmetic of the counter: \<open>saturating_add\<close>, \<open>max(0)\<close> and the cast to \<open>u32\<close>.\<close>

definition i64_saturating_add :: "i64 \<Rightarrow> i64 \<Rightarrow> i64" where
  "i64_saturating_add a b = word_of_int (max (- (2 ^ 63)) (min (2 ^ 63 - 1) (sint a + sint b)))"

definition i64_max :: "i64 \<Rightarrow> i64 \<Rightarrow> i64" where
  "i64_max a b = (if sint a \<le> sint b then b else a)"

definition adjusted_count :: "u32 \<Rightarrow> i64 \<Rightarrow> u32" where
  "adjusted_count n delta = ucast (i64_max (i64_saturating_add (ucast n) delta) 0)"

definition adjust_whitelist_count ::
  "runtime \<Rightarrow> account_info \<Rightarrow> i64 \<Rightarrow> ledger \<Rightarrow> ledger res" where
  "adjust_whitelist_count rt access_account delta L =
     attempt (load_thread_access rt access_account L) (\<lambda>access.
     serialize (thread_access_codec (rt_borsh rt))
       (access\<lparr>ta_whitelist_count := adjusted_count (ta_whitelist_count access) delta\<rparr>)
       access_account L)"

definition close_access_entry ::
  "runtime \<Rightarrow> pubkey \<Rightarrow> account_info \<Rightarrow> account_info \<Rightarrow> pubkey \<Rightarrow> pubkey \<Rightarrow> u8 \<Rightarrow>
   ledger \<Rightarrow> ledger res" where
  "close_access_entry rt pid recipient entry_account thread wallet expected_status L =
     (let (expected_entry, _) = derive_access_entry_pda rt pid thread wallet in
      attempt (assert_pda entry_account expected_entry) (\<lambda>_.
      if is_uninitialized rt entry_account L then err AccessListMissing
      else
        attempt (load_bound_access_entry rt pid entry_account thread wallet L) (\<lambda>entry.
        if ae_status entry \<noteq> expected_status then err AccessListMissing
        else close_program_account rt entry_account recipient L)))"

definition apply_access_entry_status ::
  "runtime \<Rightarrow> pubkey \<Rightarrow> account_info \<Rightarrow> account_info \<Rightarrow> account_info \<Rightarrow> account_info \<Rightarrow>
   pubkey \<Rightarrow> u8 \<Rightarrow> ledger \<Rightarrow> ledger res" where
  "apply_access_entry_status rt pid authority access_account entry_account system_program
       wallet status L =
     attempt (assert_system_program rt system_program) (\<lambda>_.
     attempt (assert_writable authority) (\<lambda>_.
     attempt (assert_writable entry_account) (\<lambda>_.
     attempt (load_admin_access rt pid authority access_account L) (\<lambda>access.
     let thread = ta_thread access in
     attempt (set_access_entry_status rt pid authority entry_account system_program
       thread wallet status L) (\<lambda>(prev, L1).
     let was_allowed = (prev = Some ACCESS_ALLOWED);
         now_allowed = (status = ACCESS_ALLOWED);
         delta = of_bool now_allowed - of_bool was_allowed in
     if delta \<noteq> 0 then adjust_whitelist_count rt access_account delta L1 else Inr L1)))))"

definition remove_access_entry ::
  "runtime \<Rightarrow> pubkey \<Rightarrow> account_info \<Rightarrow> account_info \<Rightarrow> account_info \<Rightarrow> pubkey \<Rightarrow> u8 \<Rightarrow>
   ledger \<Rightarrow> ledger res" where
  "remove_access_entry rt pid authority access_account entry_account wallet expected_status L =
     attempt (assert_writable authority) (\<lambda>_.
     attempt (assert_writable entry_account) (\<lambda>_.
     attempt (load_admin_access rt pid authority access_account L) (\<lambda>access.
     let thread = ta_thread access in
     attempt (close_access_entry rt pid authority entry_account thread wallet
       expected_status L) (\<lambda>L1.
     if expected_status = ACCESS_ALLOWED
     then adjust_whitelist_count rt access_account (- 1) L1 else Inr L1))))"

section \<open>Handlers\<close>

definition process_init_thread_access ::
  "runtime \<Rightarrow> pubkey \<Rightarrow> account_info list \<Rightarrow> bool \<Rightarrow> u16 \<Rightarrow> ledger \<Rightarrow> ledger res" where
  "process_init_thread_access rt pid accounts enabled treasury_shard_idx L =
     attempt (next_account_info accounts) (\<lambda>(authority, it).
     attempt (next_account_info it) (\<lambda>(thread_account, it).
     attempt (next_account_info it) (\<lambda>(access_account, it).
     attempt (next_account_info it) (\<lambda>(treasury_shard, it).
     attempt (next_account_info it) (\<lambda>(system_program, it).
     attempt (assert_signer authority) (\<lambda>_.
     attempt (assert_writable access_account) (\<lambda>_.
     attempt (assert_writable treasury_shard) (\<lambda>_.
     attempt (assert_system_program rt system_program) (\<lambda>_.
     attempt (load_thread rt pid thread_account L) (\<lambda>thread.
     let thread_key = ai_key thread_account in
     if tn_author thread \<noteq> ai_key authority then err Unauthorized
     else
     let (expected_access, access_bump) = derive_access_pda rt pid thread_key in
     attempt (assert_pda access_account expected_access) (\<lambda>_.
     attempt (assert_uninitialized rt access_account L) (\<lambda>_.
     attempt (validate_treasury_shard rt pid treasury_shard treasury_shard_idx)
       (\<lambda>treasury_shard_bump.
     attempt (ensure_shard_initialized rt pid authority treasury_shard system_program
       [TREASURY_SHARD_SEED, le_bytes 2 (unat treasury_shard_idx)] treasury_shard_bump L) (\<lambda>L1.
     attempt (rt_rent rt) (\<lambda>rent.
     let size = ThreadAccess_size; lamports = rent size in
     attempt (collect_fee_to_shard rt lamports authority treasury_shard L1) (\<lambda>L2.
     attempt (create_pda_account rt pid authority access_account system_program size
       [ACCESS_SEED, as_ref thread_key, [access_bump]] L2) (\<lambda>L3.
     let access = \<lparr>ta_tag = TAG_ACCESS, ta_thread = thread_key, ta_enabled = enabled,
       ta_admin = ai_key authority, ta_entry_fee = 0, ta_whitelist_count = 0\<rparr> in
     serialize (thread_access_codec (rt_borsh rt)) access access_account L3)))))))))))))))))"

definition process_set_thread_access ::
  "runtime \<Rightarrow> pubkey \<Rightarrow> account_info list \<Rightarrow> bool \<Rightarrow> ledger \<Rightarrow> ledger res" where
  "process_set_thread_access rt pid accounts enabled L =
     attempt (next_account_info accounts) (\<lambda>(authority, it).
     attempt (next_account_info it) (\<lambda>(access_account, it).
     attempt (load_admin_access rt pid authority access_account L) (\<lambda>access.
     serialize (thread_access_codec (rt_borsh rt)) (access\<lparr>ta_enabled := enabled\<rparr>)
       access_account L)))"

definition process_set_entry_fee ::
  "runtime \<Rightarrow> pubkey \<Rightarrow> account_info list \<Rightarrow> u64 \<Rightarrow> ledger \<Rightarrow> ledger res" where
  "process_set_entry_fee rt pid accounts fee L =
     attempt (next_account_info accounts) (\<lambda>(authority, it).
     attempt (next_account_info it) (\<lambda>(access_account, it).
     attempt (load_admin_access rt pid authority access_account L) (\<lambda>access.
     serialize (thread_access_codec (rt_borsh rt)) (access\<lparr>ta_entry_fee := fee\<rparr>)
       access_account L)))"

definition process_add_to_whitelist ::
  "runtime \<Rightarrow> pubkey \<Rightarrow> account_info list \<Rightarrow> pubkey \<Rightarrow> ledger \<Rightarrow> ledger res" where
  "process_add_to_whitelist rt pid accounts wallet L =
     attempt (next_account_info accounts) (\<lambda>(authority, it).
     attempt (next_account_info it) (\<lambda>(access_account, it).
     attempt (next_account_info it) (\<lambda>(entry_account, it).
     attempt (next_account_info it) (\<lambda>(system_program, it).
     apply_access_entry_status rt pid authority access_account entry_account system_program
       wallet ACCESS_ALLOWED L))))"

definition process_add_to_fee_whitelist ::
  "runtime \<Rightarrow> pubkey \<Rightarrow> account_info list \<Rightarrow> pubkey \<Rightarrow> ledger \<Rightarrow> ledger res" where
  "process_add_to_fee_whitelist rt pid accounts wallet L =
     attempt (next_account_info accounts) (\<lambda>(authority, it).
     attempt (next_account_info it) (\<lambda>(access_account, it).
     attempt (next_account_info it) (\<lambda>(entry_account, it).
     attempt (next_account_info it) (\<lambda>(system_program, it).
     apply_access_entry_status rt pid authority access_account entry_account system_program
       wallet ACCESS_FEE_EXEMPT L))))"

definition process_add_to_blacklist ::
  "runtime \<Rightarrow> pubkey \<Rightarrow> account_info list \<Rightarrow> pubkey \<Rightarrow> ledger \<Rightarrow> ledger res" where
  "process_add_to_blacklist rt pid accounts wallet L =
     attempt (next_account_info accounts) (\<lambda>(authority, it).
     attempt (next_account_info it) (\<lambda>(access_account, it).
     attempt (next_account_info it) (\<lambda>(entry_account, it).
     attempt (next_account_info it) (\<lambda>(system_program, it).
     apply_access_entry_status rt pid authority access_account entry_account system_program
       wallet ACCESS_DENIED L))))"

definition process_remove_from_whitelist ::
  "runtime \<Rightarrow> pubkey \<Rightarrow> account_info list \<Rightarrow> pubkey \<Rightarrow> ledger \<Rightarrow> ledger res" where
  "process_remove_from_whitelist rt pid accounts wallet L =
     attempt (next_account_info accounts) (\<lambda>(authority, it).
     attempt (next_account_info it) (\<lambda>(access_account, it).
     attempt (next_account_info it) (\<lambda>(entry_account, it).
     attempt (next_account_info it) (\<lambda>(system_program, it).
     remove_access_entry rt pid authority access_account entry_account wallet
       ACCESS_ALLOWED L))))"

definition process_remove_from_fee_whitelist ::
  "runtime \<Rightarrow> pubkey \<Rightarrow> account_info list \<Rightarrow> pubkey \<Rightarrow> ledger \<Rightarrow> ledger res" where
  "process_remove_from_fee_whitelist rt pid accounts wallet L =
     attempt (next_account_info accounts) (\<lambda>(authority, it).
     attempt (next_account_info it) (\<lambda>(access_account, it).
     attempt (next_account_info it) (\<lambda>(entry_account, it).
     attempt (next_account_info it) (\<lambda>(system_program, it).
     remove_access_entry rt pid authority access_account entry_account wallet
       ACCESS_FEE_EXEMPT L))))"

definition process_remove_from_blacklist ::
  "runtime \<Rightarrow> pubkey \<Rightarrow> account_info list \<Rightarrow> pubkey \<Rightarrow> ledger \<Rightarrow> ledger res" where
  "process_remove_from_blacklist rt pid accounts wallet L =
     attempt (next_account_info accounts) (\<lambda>(authority, it).
     attempt (next_account_info it) (\<lambda>(access_account, it).
     attempt (next_account_info it) (\<lambda>(entry_account, it).
     attempt (next_account_info it) (\<lambda>(system_program, it).
     remove_access_entry rt pid authority access_account entry_account wallet
       ACCESS_DENIED L))))"

definition process_request_access ::
  "runtime \<Rightarrow> pubkey \<Rightarrow> account_info list \<Rightarrow> u16 \<Rightarrow> u8 \<Rightarrow> ledger \<Rightarrow> ledger res" where
  "process_request_access rt pid accounts treasury_shard_idx author_fee_shard_idx L =
     attempt (next_account_info accounts) (\<lambda>(payer, it).
     attempt (next_account_info it) (\<lambda>(access_account, it).
     attempt (next_account_info it) (\<lambda>(entry_account, it).
     attempt (next_account_info it) (\<lambda>(thread_account, it).
     attempt (next_account_info it) (\<lambda>(settings_account, it).
     attempt (next_account_info it) (\<lambda>(treasury_shard, it).
     attempt (next_account_info it) (\<lambda>(author_fee_shard, it).
     attempt (next_account_info it) (\<lambda>(system_program, it).
     attempt (assert_signer payer) (\<lambda>_.
     attempt (assert_writable payer) (\<lambda>_.
     attempt (assert_writable access_account) (\<lambda>_.
     attempt (assert_writable entry_account) (\<lambda>_.
     attempt (assert_fee_shard_accounts rt treasury_shard author_fee_shard system_program) (\<lambda>_.
     attempt (assert_owned_by access_account pid L) (\<lambda>_.
     let thread_key = ai_key thread_account;
         (expected_access, _) = derive_access_pda rt pid thread_key in
     attempt (assert_pda access_account expected_access) (\<lambda>_.
     attempt (load_thread_access rt access_account L) (\<lambda>access.
     if ta_thread access \<noteq> thread_key then err ThreadMismatch
     else if ta_entry_fee access = 0 then err ZeroEntryFee
     else
     attempt (load_thread rt pid thread_account L) (\<lambda>_.
     let (expected_entry, _) = derive_access_entry_pda rt pid thread_key (ai_key payer) in
     attempt (assert_pda entry_account expected_entry) (\<lambda>_.
     attempt (if \<not> is_uninitialized rt entry_account L then
                attempt (load_bound_access_entry rt pid entry_account thread_key
                  (ai_key payer) L) (\<lambda>entry.
                if ae_status entry = ACCESS_DENIED then err AccessDenied
                else err AccessListDuplicate)
              else Inr ()) (\<lambda>_.
     attempt (load_settings rt pid settings_account L) (\<lambda>settings.
     attempt (prepare_fee_shards rt pid payer treasury_shard author_fee_shard system_program
       thread_key treasury_shard_idx author_fee_shard_idx L) (\<lambda>L1.
     attempt (transfer_fee_split rt (ta_entry_fee access) (ps_entry_cut_bps settings) payer
       author_fee_shard treasury_shard L1) (\<lambda>L2.
     attempt (set_access_entry_status rt pid payer entry_account system_program thread_key
       (ai_key payer) ACCESS_ALLOWED L2) (\<lambda>(_, L3).
     adjust_whitelist_count rt access_account 1 L3)))))))))))))))))))))))"

lemmas acl_run [run_simps] = set_access_entry_status_def i64_saturating_add_def i64_max_def
  adjusted_count_def adjust_whitelist_count_def close_access_entry_def
  apply_access_entry_status_def remove_access_entry_def

section \<open>The counter\<close>

lemma uint_u32: "0 \<le> uint (n :: u32)" "uint n < 2 ^ 32"
  using unsigned_less [of n, where 'a=int] by simp_all

lemma sint_of_int_i64: "sint (word_of_int m :: i64) = m" if "- (2 ^ 63) \<le> m" "m < 2 ^ 63"
proof -
  have "sint (word_of_int m :: i64) = signed_take_bit 63 m"
    using sint_sbintrunc' [where 'a=64, of m] by simp
  also have "\<dots> = m" using that by (rule signed_take_bit_int_eq_self)
  finally show ?thesis .
qed

lemma i64_range:
  assumes "0 \<le> (k :: int)" "k < 2 ^ 32" "d = 0 \<or> d = 1 \<or> d = - 1"
  shows "- (2 ^ 63) \<le> k + d" "k + d < 2 ^ 63"
  using assms by auto

lemma sint_ucast_u32: "sint (ucast (n :: u32) :: i64) = uint n"
proof -
  have "- (2 ^ 63) \<le> uint n" "uint n < 2 ^ 63"
    using i64_range [OF uint_u32, of 0 n] by simp_all
  then show ?thesis unfolding ucast_eq by (rule sint_of_int_i64)
qed

lemma adjusted_count_eq:
  assumes "sint delta = 1 \<or> sint delta = - 1"
  shows "adjusted_count n delta = word_of_int (max 0 (uint n + sint delta))"
proof -
  define m where "m = uint n + sint delta"
  have m: "- (2 ^ 63) \<le> m" "m < 2 ^ 63" using i64_range [OF uint_u32, of "sint delta" n] assms by (simp_all add: m_def)
  have s: "sint (word_of_int m :: i64) = m" using m by (rule sint_of_int_i64)
  have "max (- (2 ^ 63)) (min (2 ^ 63 - 1) m) = m" using m by linarith
  then have a: "i64_saturating_add (ucast n) delta = word_of_int m"
    by (simp add: i64_saturating_add_def sint_ucast_u32 m_def)
  show ?thesis
  proof (cases "m \<le> 0")
    case True
    then show ?thesis by (simp add: adjusted_count_def a i64_max_def s m_def [symmetric])
  next
    case False
    then have "i64_max (word_of_int m) 0 = (word_of_int m :: i64)" by (simp add: i64_max_def s)
    moreover have "uint (word_of_int m :: i64) = m"
      using False m by (simp add: uint_word_of_int)
    moreover have "adjusted_count n delta = ucast (i64_max (word_of_int m) 0)"
      unfolding adjusted_count_def a ..
    ultimately have "adjusted_count n delta = word_of_int m"
      by (simp only: ucast_eq)
    with False show ?thesis by (simp add: m_def)
  qed
qed

lemma adjusted_count_1: "adjusted_count n 1 = n + 1"
proof -
  have "sint (1 :: i64) = 1" by simp
  then have "adjusted_count n 1 = word_of_int (uint n + 1)"
    using uint_u32 [of n] by (simp add: adjusted_count_eq)
  also have "\<dots> = n + 1" by (simp add: wi_hom_syms)
  finally show ?thesis .
qed

lemma adjusted_count_up: "unat n + 1 < 2 ^ 32 \<Longrightarrow> unat (adjusted_count n 1) = unat n + 1"
  by (simp add: adjusted_count_1 unat_add_lt)

lemma adjusted_count_down: "unat (adjusted_count n (- 1)) = unat n - 1"
proof -
  let ?m = "max 0 (uint n - 1)"
  have "adjusted_count n (- 1) = word_of_int ?m"
    by (simp add: adjusted_count_eq)
  moreover have "uint (word_of_int ?m :: u32) = ?m"
    unfolding uint_word_of_int using uint_u32 [of n] by (intro mod_pos_pos_trivial) auto
  ultimately have "unat (adjusted_count n (- 1)) = nat ?m"
    by (simp only: unat_eq_nat_uint)
  also have "\<dots> = unat n - 1"
  proof (cases "uint n = 0")
    case False
    then have "1 \<le> uint n" using uint_u32(1) [of n] by linarith
    then show ?thesis by (simp only: unat_eq_nat_uint max_absorb2 nat_diff_distrib' nat_1 One_nat_def)
  qed (simp add: unat_eq_nat_uint)
  finally show ?thesis .
qed

section \<open>What an entry operation does\<close>

text \<open>How a change of a wallet's status moves the counter.\<close>

definition counter_delta :: "u8 option \<Rightarrow> u8 option \<Rightarrow> i64" where
  "counter_delta before after =
     of_bool (after = Some ACCESS_ALLOWED) - of_bool (before = Some ACCESS_ALLOWED)"

definition moved_count :: "u32 \<Rightarrow> i64 \<Rightarrow> u32" where
  "moved_count n delta = (if delta = 0 then n else adjusted_count n delta)"

text \<open>The entry an operation on a wallet leaves behind.\<close>

definition entry_for :: "pubkey \<Rightarrow> pubkey \<Rightarrow> u8 \<Rightarrow> access_entry" where
  "entry_for thread wallet status =
     \<lparr>ae_tag = TAG_ACCESS_ENTRY, ae_thread = thread, ae_wallet = wallet, ae_status = status\<rparr>"

context solana
begin

lemma entry_not_access: "entry_at rt pid L k = Some e \<Longrightarrow> access_at rt pid L k = None"
  by (cases "access_at rt pid L k") (auto dest!: view_tag_byte simp: tag_defs)

lemma uninitialized_no_view:
  "is_uninitialized rt a L \<Longrightarrow> entry_at rt pid L (ai_key a) = None"
  "is_uninitialized rt a L \<Longrightarrow> access_at rt pid L (ai_key a) = None"
  using pid_not_system
  by (auto simp: is_uninitialized_def owner_def intro: entry_view.view_unowned
      access_view.view_unowned)

lemma set_access_entry_status_ok:
  assumes "set_access_entry_status rt pid payer entry sp thread wallet status L = Inr (prev, L')"
  shows "ai_key entry = fst (derive_access_entry_pda rt pid thread wallet)"
    "prev = map_option ae_status (entry_at rt pid L (ai_key entry))"
    "prev = None \<longleftrightarrow> is_uninitialized rt entry L"
    "entry_at rt pid L (ai_key entry) = Some e \<Longrightarrow> ae_thread e = thread \<and> ae_wallet e = wallet"
    "entry_at rt pid L' (ai_key entry) = Some (entry_for thread wallet status)"
    "ai_key payer \<in> P \<Longrightarrow> effect pid {ai_key entry} P L L'"
proof -
  show key: "ai_key entry = fst (derive_access_entry_pda rt pid thread wallet)"
    using assms by (auto simp: set_access_entry_status_def Let_def case_prod_beta ok_simps)
  have "prev = map_option ae_status (entry_at rt pid L (ai_key entry)) \<and>
    (prev = None \<longleftrightarrow> is_uninitialized rt entry L) \<and>
    (\<forall>e. entry_at rt pid L (ai_key entry) = Some e \<longrightarrow> ae_thread e = thread \<and> ae_wallet e = wallet) \<and>
    entry_at rt pid L' (ai_key entry) = Some (entry_for thread wallet status) \<and>
    (ai_key payer \<in> P \<longrightarrow> effect pid {ai_key entry} P L L')"
  proof (cases "is_uninitialized rt entry L")
    case True
    with assms obtain bump L1 where
      make: "create_pda_account rt pid payer entry sp AccessEntry_size
          [ACL_SEED, as_ref thread, as_ref wallet, [bump]] L = Inr L1"
      and put: "serialize (access_entry_codec (rt_borsh rt)) (entry_for thread wallet status)
          entry L1 = Inr L'"
      and prev: "prev = None"
      by (auto simp: set_access_entry_status_def Let_def case_prod_beta ok_simps entry_for_def)
    have "AccessEntry_size < 2 ^ 64" by (simp add: AccessEntry_size_def)
    from create_pda_account_ok(3) [OF make this]
    have "entry_at rt pid L' (ai_key entry) = Some (entry_for thread wallet status)"
      by (intro serialize_entry [OF put]) (simp_all add: entry_for_def)
    moreover have "ai_key payer \<in> P \<Longrightarrow> effect pid {ai_key entry} P L L'"
      by (rule effect_trans [OF create_pda_account_effect [OF make] serialize_effect [OF put]])
        simp_all
    ultimately show ?thesis
      using prev True uninitialized_no_view(1) [OF True] by simp
  next
    case False
    with assms obtain e where
      e: "entry_at rt pid L (ai_key entry) = Some e" "ae_thread e = thread" "ae_wallet e = wallet"
      and put: "serialize (access_entry_codec (rt_borsh rt)) (e\<lparr>ae_status := status\<rparr>) entry L = Inr L'"
      and prev: "prev = Some (ae_status e)"
      by (auto simp: set_access_entry_status_def Let_def case_prod_beta attempt_Inr_iff assert_Inr_iffs
          load_bound_access_entry_iff)
    from e(1) have own: "owner L entry = pid" "ae_tag e = TAG_ACCESS_ENTRY"
      by (simp_all add: entry_at_def stored_Some_iff owner_def)
    with e(2,3) have "e\<lparr>ae_status := status\<rparr> = entry_for thread wallet status"
      by (cases e) (simp add: entry_for_def)
    with serialize_entry [OF put own(1)] own(2)
    have "entry_at rt pid L' (ai_key entry) = Some (entry_for thread wallet status)"
      by (simp add: entry_for_def)
    moreover have "effect pid {ai_key entry} P L L'"
      by (rule serialize_effect [OF put]) simp
    ultimately show ?thesis using e prev False by simp
  qed
  then show "prev = map_option ae_status (entry_at rt pid L (ai_key entry))"
    "prev = None \<longleftrightarrow> is_uninitialized rt entry L"
    "entry_at rt pid L (ai_key entry) = Some e \<Longrightarrow> ae_thread e = thread \<and> ae_wallet e = wallet"
    "entry_at rt pid L' (ai_key entry) = Some (entry_for thread wallet status)"
    "ai_key payer \<in> P \<Longrightarrow> effect pid {ai_key entry} P L L'"
    by blast+
qed

lemma adjust_whitelist_count_ok:
  assumes "adjust_whitelist_count rt a delta L = Inr L'" "access_at rt pid L (ai_key a) = Some x"
  shows "access_at rt pid L' (ai_key a) =
      Some (x\<lparr>ta_whitelist_count := adjusted_count (ta_whitelist_count x) delta\<rparr>)"
    "effect pid {ai_key a} P L L'"
    "k \<noteq> ai_key a \<Longrightarrow> L' k = L k"
proof -
  from assms(2) have own: "owner L a = pid" "ta_tag x = TAG_ACCESS"
    by (simp_all add: access_at_def stored_Some_iff owner_def)
  with assms have put: "serialize (thread_access_codec (rt_borsh rt))
      (x\<lparr>ta_whitelist_count := adjusted_count (ta_whitelist_count x) delta\<rparr>) a L = Inr L'"
    by (auto simp: adjust_whitelist_count_def attempt_Inr_iff load_thread_access_iff)
  from serialize_access [OF put own(1)] own(2)
  show "access_at rt pid L' (ai_key a) =
      Some (x\<lparr>ta_whitelist_count := adjusted_count (ta_whitelist_count x) delta\<rparr>)" by simp
  show "effect pid {ai_key a} P L L'" by (rule serialize_effect [OF put]) simp
  show "k \<noteq> ai_key a \<Longrightarrow> L' k = L k" by (rule serialize_other [OF put])
qed

lemma close_program_account_contents:
  assumes "close_program_account rt a recipient L = Inr L'"
  shows "acc_data (L' (ai_key a)) = []" "acc_owner (L' (ai_key a)) = rt_system_id rt"
    "k \<noteq> ai_key a \<Longrightarrow> acc_owner (L' k) = acc_owner (L k) \<and> acc_data (L' k) = acc_data (L k)"
  using assms
  by (auto simp: close_program_account_def ok_simps Let_def ledger_defs dest!: resize_ok)

text \<open>Setting a status: the entry says so afterwards, and the counter has moved by the
  difference it makes to the number of allowed entries.\<close>

lemma apply_access_entry_status_ok:
  assumes "apply_access_entry_status rt pid authority access entry sp wallet status L = Inr L'"
  shows "\<exists>x. is_signer authority \<and> access_at rt pid L (ai_key access) = Some x \<and>
    ta_admin x = ai_key authority \<and> ai_key access = fst (derive_access_pda rt pid (ta_thread x)) \<and>
    ai_key entry = fst (derive_access_entry_pda rt pid (ta_thread x) wallet) \<and>
    (\<forall>e. entry_at rt pid L (ai_key entry) = Some e \<longrightarrow>
      ae_thread e = ta_thread x \<and> ae_wallet e = wallet) \<and>
    access_at rt pid L (ai_key entry) = None \<and>
    tag_byte pid L (ai_key entry) \<in> {None, Some TAG_ACCESS_ENTRY} \<and>
    entry_at rt pid L' (ai_key entry) = Some (entry_for (ta_thread x) wallet status) \<and>
    access_at rt pid L' (ai_key access) = Some (x\<lparr>ta_whitelist_count :=
      moved_count (ta_whitelist_count x)
        (counter_delta (map_option ae_status (entry_at rt pid L (ai_key entry))) (Some status))\<rparr>) \<and>
    effect pid {ai_key entry, ai_key access} {ai_key authority} L L'"
proof -
  let ?d = "\<lambda>prev. counter_delta prev (Some status)"
  from assms obtain x prev L1 where
    gate: "is_signer authority" "access_at rt pid L (ai_key access) = Some x"
      "ta_admin x = ai_key authority" "ai_key access = fst (derive_access_pda rt pid (ta_thread x))"
    and entry: "set_access_entry_status rt pid authority entry sp (ta_thread x) wallet status L
        = Inr (prev, L1)"
    and run: "(let d = of_bool (status = ACCESS_ALLOWED) - of_bool (prev = Some ACCESS_ALLOWED) in
        if d \<noteq> 0 then adjust_whitelist_count rt access d L1 else Inr L1) = Inr L'"
    by (auto simp: apply_access_entry_status_def Let_def attempt_Inr_iff load_admin_access_iff)
  from run have adjust: "(if ?d prev \<noteq> 0 then adjust_whitelist_count rt access (?d prev) L1
      else Inr L1) = Inr L'"
    by (simp only: counter_delta_def option.inject Let_def)
  note e = set_access_entry_status_ok [OF entry]
  have free: "access_at rt pid L (ai_key entry) = None"
    using uninitialized_no_view(2) [of entry L] e(2,3) entry_not_access [of L "ai_key entry"]
    by (cases "entry_at rt pid L (ai_key entry)") auto
  have kind: "tag_byte pid L (ai_key entry) \<in> {None, Some TAG_ACCESS_ENTRY}"
    using e(2,3) by (cases "entry_at rt pid L (ai_key entry)") (auto dest: tags)
  from gate(2) free have ne: "ai_key access \<noteq> ai_key entry" by auto
  have eff1: "effect pid {ai_key entry} {ai_key authority} L L1" by (rule e(6)) simp
  from access_view.view_effect [OF eff1] ne gate(2)
  have x1: "access_at rt pid L1 (ai_key access) = Some x" by simp
  have "access_at rt pid L' (ai_key access) = Some (x\<lparr>ta_whitelist_count :=
      moved_count (ta_whitelist_count x) (?d prev)\<rparr>) \<and>
    effect pid {ai_key access} {ai_key authority} L1 L' \<and> (\<forall>k. k \<noteq> ai_key access \<longrightarrow> L' k = L1 k)"
  proof (cases "?d prev = 0")
    case True
    with adjust x1 show ?thesis by (simp add: moved_count_def)
  next
    case False
    with adjust have run: "adjust_whitelist_count rt access (?d prev) L1 = Inr L'" by simp
    from adjust_whitelist_count_ok [OF run x1] False show ?thesis by (simp add: moved_count_def)
  qed
  then have a: "access_at rt pid L' (ai_key access) = Some (x\<lparr>ta_whitelist_count :=
      moved_count (ta_whitelist_count x) (?d prev)\<rparr>)"
    and eff2: "effect pid {ai_key access} {ai_key authority} L1 L'"
    and other: "L' (ai_key entry) = L1 (ai_key entry)" using ne by auto
  have "entry_at rt pid L' (ai_key entry) = Some (entry_for (ta_thread x) wallet status)"
    using entry_view.view_same [of L' _ L1, OF other] e(5) by simp
  moreover have "effect pid {ai_key entry, ai_key access} {ai_key authority} L L'"
    by (rule effect_trans [OF effect_mono [OF eff1] effect_mono [OF eff2]]) auto
  ultimately show ?thesis using gate e(1,2,4) a free kind by blast
qed

lemma remove_access_entry_ok:
  assumes "remove_access_entry rt pid authority access entry wallet status L = Inr L'"
  shows "\<exists>x. is_signer authority \<and> access_at rt pid L (ai_key access) = Some x \<and>
    ta_admin x = ai_key authority \<and> ai_key access = fst (derive_access_pda rt pid (ta_thread x)) \<and>
    ai_key entry = fst (derive_access_entry_pda rt pid (ta_thread x) wallet) \<and>
    entry_at rt pid L (ai_key entry) = Some (entry_for (ta_thread x) wallet status) \<and>
    acc_data (L' (ai_key entry)) = [] \<and>
    entry_at rt pid L' (ai_key entry) = None \<and> access_at rt pid L' (ai_key entry) = None \<and>
    access_at rt pid L' (ai_key access) = Some (x\<lparr>ta_whitelist_count :=
      moved_count (ta_whitelist_count x) (counter_delta (Some status) None)\<rparr>) \<and>
    quiet pid {ai_key entry, ai_key access} L L' \<and>
    (ai_key entry \<noteq> ai_key authority \<longrightarrow>
      effect pid {ai_key entry, ai_key access} {ai_key entry} L L' \<and>
      unat (lamports L' authority) = unat (lamports L authority) + unat (lamports L entry))"
proof -
  let ?d = "counter_delta (Some status) None"
  from assms obtain x e L1 where
    gate: "is_signer authority" "access_at rt pid L (ai_key access) = Some x"
      "ta_admin x = ai_key authority" "ai_key access = fst (derive_access_pda rt pid (ta_thread x))"
      "ai_key entry = fst (derive_access_entry_pda rt pid (ta_thread x) wallet)"
    and e: "entry_at rt pid L (ai_key entry) = Some e" "ae_thread e = ta_thread x"
      "ae_wallet e = wallet" "ae_status e = status"
    and close: "close_program_account rt entry authority L = Inr L1"
    and adjust: "(if status = ACCESS_ALLOWED then adjust_whitelist_count rt access (- 1) L1
        else Inr L1) = Inr L'"
    by (auto simp: remove_access_entry_def close_access_entry_def Let_def case_prod_beta
        attempt_Inr_iff load_admin_access_iff load_bound_access_entry_iff assert_Inr_iffs
        if_Inl_Inr_iff)
  from e have entry: "e = entry_for (ta_thread x) wallet status"
    by (cases e) (simp add: entry_for_def entry_at_def stored_Some_iff)
  have ne: "ai_key access \<noteq> ai_key entry"
    using entry_not_access [OF e(1)] gate(2) by auto
  note c = close_program_account_contents [OF close]
  have q1: "quiet pid {ai_key entry} L L1" using c(3) by (simp add: quiet_def)
  from access_view.view_quiet [OF q1] ne gate(2)
  have x1: "access_at rt pid L1 (ai_key access) = Some x" by simp
  have "access_at rt pid L' (ai_key access) = Some (x\<lparr>ta_whitelist_count :=
      moved_count (ta_whitelist_count x) ?d\<rparr>) \<and>
    effect pid {ai_key access} {ai_key entry} L1 L' \<and> (\<forall>k. k \<noteq> ai_key access \<longrightarrow> L' k = L1 k) \<and>
    (\<forall>k. acc_lamports (L' k) = acc_lamports (L1 k))"
  proof (cases "status = ACCESS_ALLOWED")
    case True
    with adjust have run: "adjust_whitelist_count rt access (- 1) L1 = Inr L'" by simp
    then have "\<forall>k. acc_lamports (L' k) = acc_lamports (L1 k)"
      using serialize_keeps(2) by (fastforce simp: adjust_whitelist_count_def attempt_Inr_iff)
    with adjust_whitelist_count_ok [OF run x1] True show ?thesis
      by (simp add: moved_count_def counter_delta_def)
  next
    case False
    with adjust x1 show ?thesis by (simp add: moved_count_def counter_delta_def)
  qed
  then have a: "access_at rt pid L' (ai_key access) = Some (x\<lparr>ta_whitelist_count :=
      moved_count (ta_whitelist_count x) ?d\<rparr>)"
    and eff2: "effect pid {ai_key access} {ai_key entry} L1 L'"
    and other: "L' (ai_key entry) = L1 (ai_key entry)"
    and lam: "lamports L' authority = lamports L1 authority"
    using ne by (auto simp: lamports_def)
  have gone: "acc_data (L' (ai_key entry)) = []" "entry_at rt pid L' (ai_key entry) = None" "access_at rt pid L' (ai_key entry) = None"
    using c(1) other by (auto intro: entry_view.view_empty access_view.view_empty)
  have q: "quiet pid {ai_key entry, ai_key access} L L'"
    by (rule quiet_trans [OF quiet_mono [OF q1] quiet_mono [OF effect_quiet [OF eff2]]]) auto
  have "effect pid {ai_key entry, ai_key access} {ai_key entry} L L' \<and>
      unat (lamports L' authority) = unat (lamports L authority) + unat (lamports L entry)"
    if "ai_key entry \<noteq> ai_key authority"
  proof -
    have "effect pid {ai_key entry} {ai_key entry} L L1"
      by (rule close_program_account_effect [OF close that]) simp_all
    then have "effect pid {ai_key entry, ai_key access} {ai_key entry} L L'"
      by (rule effect_trans [OF effect_mono effect_mono [OF eff2]]) auto
    with close_program_account_ok(4) [OF close that] lam show ?thesis by simp
  qed
  with gate e(1) entry gone a q show ?thesis by blast
qed

text \<open>Self-service access: only for a fee, only for a wallet without an entry.\<close>

lemma request_access_ok:
  assumes "process_request_access rt pid accounts i j L = Inr L'"
  shows "\<exists>payer access entry th st ts fs sp rest x s t.
    accounts = payer # access # entry # th # st # ts # fs # sp # rest \<and> is_signer payer \<and>
    thread_at rt pid L (ai_key th) = Some t \<and> settings_at rt pid L (ai_key st) = Some s \<and>
    access_at rt pid L (ai_key access) = Some x \<and> ta_thread x = ai_key th \<and>
    ai_key access = fst (derive_access_pda rt pid (ai_key th)) \<and> ta_entry_fee x \<noteq> 0 \<and>
    ai_key entry = fst (derive_access_entry_pda rt pid (ai_key th) (ai_key payer)) \<and>
    is_uninitialized rt entry L \<and>
    ai_key ts = fst (derive_treasury_shard_pda rt pid i) \<and>
    ai_key fs = fst (derive_author_fee_pda rt pid (ai_key th) j) \<and>
    entry_at rt pid L' (ai_key entry) =
      Some (entry_for (ai_key th) (ai_key payer) ACCESS_ALLOWED) \<and>
    access_at rt pid L' (ai_key access) = Some (x\<lparr>ta_whitelist_count :=
      moved_count (ta_whitelist_count x) (counter_delta None (Some ACCESS_ALLOWED))\<rparr>) \<and>
    effect pid {ai_key entry, ai_key access} {ai_key payer} L L' \<and>
    (ai_key payer \<noteq> ai_key ts \<and> ai_key payer \<noteq> ai_key fs \<longrightarrow>
      unat (lamports L ts) + unat (snd (compute_fee_split (ta_entry_fee x) (ps_entry_cut_bps s)))
        \<le> unat (lamports L' ts) \<and>
      unat (lamports L fs) + unat (fst (compute_fee_split (ta_entry_fee x) (ps_entry_cut_bps s)))
        \<le> unat (lamports L' fs))"
proof -
  from assms obtain payer access entry th st ts fs sp rest x s t L1 L2 prev L3 where
    acc: "accounts = payer # access # entry # th # st # ts # fs # sp # rest" "is_signer payer"
    and own: "owner L access = pid"
    and x: "load_thread_access rt access L = Inr x" "ta_thread x = ai_key th"
      "ai_key access = fst (derive_access_pda rt pid (ai_key th))" "ta_entry_fee x \<noteq> 0"
    and gate: "thread_at rt pid L (ai_key th) = Some t" "settings_at rt pid L (ai_key st) = Some s"
      "ai_key entry = fst (derive_access_entry_pda rt pid (ai_key th) (ai_key payer))"
      "is_uninitialized rt entry L"
    and shards: "prepare_fee_shards rt pid payer ts fs sp (ai_key th) i j L = Inr L1"
    and pay: "transfer_fee_split rt (ta_entry_fee x) (ps_entry_cut_bps s) payer fs ts L1 = Inr L2"
    and put: "set_access_entry_status rt pid payer entry sp (ai_key th) (ai_key payer)
        ACCESS_ALLOWED L2 = Inr (prev, L3)"
    and adjust: "adjust_whitelist_count rt access 1 L3 = Inr L'"
    by (auto simp: process_request_access_def Let_def case_prod_beta attempt_Inr_iff
        next_account_info_Inr_iff assert_Inr_iffs if_Inl_Inr_iff load_thread_iff load_settings_iff
        split: if_splits)
  have a: "access_at rt pid L (ai_key access) = Some x"
    using x(1) own by (simp add: load_thread_access_iff)
  from shards have keys: "ai_key ts = fst (derive_treasury_shard_pda rt pid i)"
    "ai_key fs = fst (derive_author_fee_pda rt pid (ai_key th) j)"
    by (auto simp: prepare_fee_shards_def attempt_Inr_iff validate_fee_shards_iff)
  let ?P = "{ai_key payer}"
  have e1: "effect pid {} ?P L L1" by (rule prepare_fee_shards_effect [OF shards]) simp
  have e2: "effect pid {} ?P L1 L2" by (rule transfer_fee_split_effect [OF pay]) simp
  have e3: "effect pid {ai_key entry} ?P L2 L3" by (rule set_access_entry_status_ok(6) [OF put]) simp
  have e13: "effect pid {ai_key entry} ?P L L3"
    by (rule effect_trans [OF effect_mono [OF effect_trans [OF e1 e2]] e3]) auto
  have ne: "ai_key access \<noteq> ai_key entry"
    using a uninitialized_no_view(2) [OF gate(4)] by auto
  from access_view.view_effect [OF e13] a ne have a3: "access_at rt pid L3 (ai_key access) = Some x"
    by simp
  note adj = adjust_whitelist_count_ok [OF adjust a3]
  have "entry_at rt pid L' (ai_key entry) =
      Some (entry_for (ai_key th) (ai_key payer) ACCESS_ALLOWED)"
    using set_access_entry_status_ok(5) [OF put] adj(3) [of "ai_key entry"] ne
      entry_view.view_same [of L' "ai_key entry" L3] by simp
  moreover have "counter_delta None (Some ACCESS_ALLOWED) = 1" by (simp add: counter_delta_def)
  then have "access_at rt pid L' (ai_key access) = Some (x\<lparr>ta_whitelist_count :=
      moved_count (ta_whitelist_count x) (counter_delta None (Some ACCESS_ALLOWED))\<rparr>)"
    using adj(1) by (simp add: moved_count_def)
  moreover have eff: "effect pid {ai_key entry, ai_key access} ?P L L'"
    by (rule effect_trans [OF effect_mono [OF e13] effect_mono [OF adj(2)]]) auto
  moreover have e2': "effect pid {ai_key entry, ai_key access} ?P L2 L'"
    by (rule effect_trans [OF effect_mono [OF e3] effect_mono [OF adj(2)]]) auto
  have "unat (lamports L ts) + unat (snd (compute_fee_split (ta_entry_fee x) (ps_entry_cut_bps s)))
        \<le> unat (lamports L' ts) \<and>
      unat (lamports L fs) + unat (fst (compute_fee_split (ta_entry_fee x) (ps_entry_cut_bps s)))
        \<le> unat (lamports L' fs)"
    if "ai_key payer \<noteq> ai_key ts" "ai_key payer \<noteq> ai_key fs"
    using transfer_fee_split_paid [OF pay that(2,1)] effect_balance [OF e1, of ts]
      effect_balance [OF e1, of fs] effect_balance [OF e2', of ts] effect_balance [OF e2', of fs] that
    by simp
  ultimately show ?thesis
    using acc gate x a keys by blast
qed

end

end
