(* ===== verification/Whitelist.thy ===== *)
theory Whitelist
  imports Acl
begin

text \<open>
  The books of access control: the counter of a thread's access account is the number of its
  allowed entries, every access handler keeps it so, and what each handler demands of its
  caller. The access account's own switches are one more use of the contract \<open>gated_update\<close>.
\<close>

section \<open>The counter counts\<close>

definition access_address :: "runtime \<Rightarrow> pubkey \<Rightarrow> pubkey \<Rightarrow> pubkey" where
  "access_address rt pid thread = fst (derive_access_pda rt pid thread)"

definition allowed_entries :: "runtime \<Rightarrow> pubkey \<Rightarrow> ledger \<Rightarrow> pubkey \<Rightarrow> pubkey set" where
  "allowed_entries rt pid L thread =
     {k. \<exists>e. entry_at rt pid L k = Some e \<and> ae_thread e = thread \<and> ae_status e = ACCESS_ALLOWED}"

text \<open>The access account of a thread, where it is bound to that thread.\<close>

definition access_of :: "runtime \<Rightarrow> pubkey \<Rightarrow> ledger \<Rightarrow> pubkey \<Rightarrow> thread_access option" where
  "access_of rt pid L thread =
     (case access_at rt pid L (access_address rt pid thread) of
        None \<Rightarrow> None
      | Some x \<Rightarrow> if ta_thread x = thread then Some x else None)"

text \<open>A thread's counter is the number of its allowed entries; a thread without an access
  account has none.\<close>

definition whitelist_exact :: "runtime \<Rightarrow> pubkey \<Rightarrow> ledger \<Rightarrow> bool" where
  "whitelist_exact rt pid L \<longleftrightarrow> (\<forall>thread. card (allowed_entries rt pid L thread) =
     (case access_of rt pid L thread of None \<Rightarrow> 0 | Some x \<Rightarrow> unat (ta_whitelist_count x)))"

lemma moved_count_eq:
  assumes "unat n + of_bool (after = Some ACCESS_ALLOWED) =
      m + of_bool (before = Some ACCESS_ALLOWED)" "m < 2 ^ 32"
  shows "unat (moved_count n (counter_delta before after)) = m"
proof (cases "before = Some ACCESS_ALLOWED")
  case True
  then show ?thesis using assms adjusted_count_down [of n]
    by (cases "after = Some ACCESS_ALLOWED") (auto simp: moved_count_def counter_delta_def)
next
  case False
  then show ?thesis using assms adjusted_count_up [of n]
    by (cases "after = Some ACCESS_ALLOWED") (auto simp: moved_count_def counter_delta_def)
qed

context solana
begin

lemma whitelist_frame:
  assumes "whitelist_exact rt pid L"
    and "\<And>k. entry_at rt pid L' k = entry_at rt pid L k"
    and "\<And>thread. map_option ta_whitelist_count (access_of rt pid L' thread) =
      map_option ta_whitelist_count (access_of rt pid L thread)"
  shows "whitelist_exact rt pid L'"
  unfolding whitelist_exact_def
proof
  fix thread
  have "allowed_entries rt pid L' thread = allowed_entries rt pid L thread"
    by (simp add: allowed_entries_def assms(2))
  with assms(1) assms(3) [of thread] show "card (allowed_entries rt pid L' thread) =
     (case access_of rt pid L' thread of None \<Rightarrow> 0 | Some x \<Rightarrow> unat (ta_whitelist_count x))"
    unfolding whitelist_exact_def
    by (cases "access_of rt pid L' thread"; cases "access_of rt pid L thread") auto
qed

text \<open>One entry of one thread changes, and the counter moves with it.\<close>

lemma whitelist_step:
  assumes "whitelist_exact rt pid L" and q: "quiet pid {e, a} L L'" and "a \<noteq> e"
    and a: "a = access_address rt pid (ta_thread x)" "access_at rt pid L a = Some x"
    and a': "access_at rt pid L' a = Some (x\<lparr>ta_whitelist_count :=
      moved_count (ta_whitelist_count x)
        (counter_delta (map_option ae_status (entry_at rt pid L e))
          (map_option ae_status (entry_at rt pid L' e)))\<rparr>)"
    and e: "\<And>y. entry_at rt pid L e = Some y \<Longrightarrow> ae_thread y = ta_thread x"
    and e': "\<And>y. entry_at rt pid L' e = Some y \<Longrightarrow> ae_thread y = ta_thread x"
    and access_e: "access_at rt pid L e = None" "access_at rt pid L' e = None"
    and small: "card (allowed_entries rt pid L' (ta_thread x)) < 2 ^ 32"
  shows "whitelist_exact rt pid L'"
  unfolding whitelist_exact_def
proof
  fix thread
  let ?A = "allowed_entries rt pid L" and ?A' = "allowed_entries rt pid L'"
  have access: "access_at rt pid L' k = access_at rt pid L k" if "k \<noteq> a" for k
    using access_view.view_quiet [OF q, of k] that access_e by (cases "k = e") simp_all
  have entry: "entry_at rt pid L' k = entry_at rt pid L k" if "k \<noteq> e" for k
  proof (cases "k = a")
    case True
    have "entry_at rt pid L a = None" "entry_at rt pid L' a = None"
      using a(2) a' entry_not_access [of L a] entry_not_access [of L' a]
      by (cases "entry_at rt pid L a"; cases "entry_at rt pid L' a"; simp)+
    with True show ?thesis by simp
  qed (use entry_view.view_quiet [OF q, of k] that in simp)
  have in_A: "k \<in> ?A' t \<longleftrightarrow> k \<in> ?A t" if "k \<noteq> e" for k t
    by (simp add: allowed_entries_def entry [OF that])
  show "card (?A' thread) =
     (case access_of rt pid L' thread of None \<Rightarrow> 0 | Some x \<Rightarrow> unat (ta_whitelist_count x))"
  proof (cases "thread = ta_thread x")
    case False
    have "e \<notin> ?A thread" "e \<notin> ?A' thread"
      using e e' False by (auto simp: allowed_entries_def)
    with in_A have "?A' thread = ?A thread" by (metis subsetI subset_antisym)
    moreover have "access_of rt pid L' thread = access_of rt pid L thread"
      using access [of "access_address rt pid thread"] a' a(2) False
      by (cases "access_address rt pid thread = a") (simp_all add: access_of_def)
    ultimately show ?thesis using assms(1) by (simp add: whitelist_exact_def)
  next
    case True
    have old: "card (?A thread) = unat (ta_whitelist_count x)"
      using assms(1) a True by (simp add: whitelist_exact_def access_of_def)
    have s: "e \<in> ?A thread \<longleftrightarrow> map_option ae_status (entry_at rt pid L e) = Some ACCESS_ALLOWED"
      "e \<in> ?A' thread \<longleftrightarrow> map_option ae_status (entry_at rt pid L' e) = Some ACCESS_ALLOWED"
      using e e' True by (auto simp: allowed_entries_def)
    have "card (?A' thread) + of_bool (e \<in> ?A thread) = card (?A thread) + of_bool (e \<in> ?A' thread)"
      by (rule card_change_one) (rule in_A)
    with moved_count_eq [OF _ small] True s old
    have "unat (moved_count (ta_whitelist_count x)
        (counter_delta (map_option ae_status (entry_at rt pid L e))
          (map_option ae_status (entry_at rt pid L' e)))) = card (?A' thread)" by simp
    with a a' True show ?thesis by (simp add: access_of_def)
  qed
qed

text \<open>The operations on entries.\<close>

lemma whitelist_apply:
  assumes "apply_access_entry_status rt pid authority access entry sp wallet status L = Inr L'"
    and "whitelist_exact rt pid L" "\<And>t. card (allowed_entries rt pid L' t) < 2 ^ 32"
  shows "whitelist_exact rt pid L'"
proof -
  from apply_access_entry_status_ok [OF assms(1), folded access_address_def] obtain x where
    x: "access_at rt pid L (ai_key access) = Some x"
      "ai_key access = access_address rt pid (ta_thread x)"
    and e: "\<forall>e. entry_at rt pid L (ai_key entry) = Some e \<longrightarrow>
      ae_thread e = ta_thread x \<and> ae_wallet e = wallet"
    and free: "access_at rt pid L (ai_key entry) = None"
    and e': "entry_at rt pid L' (ai_key entry) = Some (entry_for (ta_thread x) wallet status)"
    and x': "access_at rt pid L' (ai_key access) = Some (x\<lparr>ta_whitelist_count :=
      moved_count (ta_whitelist_count x)
        (counter_delta (map_option ae_status (entry_at rt pid L (ai_key entry))) (Some status))\<rparr>)"
    and eff: "effect pid {ai_key entry, ai_key access} {ai_key authority} L L'"
    by (elim exE conjE)
  have free': "access_at rt pid L' (ai_key entry) = None" using entry_not_access [OF e'] .
  from x(1) free have "ai_key access \<noteq> ai_key entry" by auto
  from whitelist_step [OF assms(2) effect_quiet [OF eff] this x(2,1) _ _ _ free free' assms(3)]
    x' e e' show ?thesis by (simp add: entry_for_def)
qed

lemma whitelist_remove:
  assumes "remove_access_entry rt pid authority access entry wallet status L = Inr L'"
    and "whitelist_exact rt pid L" "\<And>t. card (allowed_entries rt pid L' t) < 2 ^ 32"
  shows "whitelist_exact rt pid L'"
proof -
  from remove_access_entry_ok [OF assms(1), folded access_address_def] obtain x where
    x: "access_at rt pid L (ai_key access) = Some x"
      "ai_key access = access_address rt pid (ta_thread x)"
    and e: "entry_at rt pid L (ai_key entry) = Some (entry_for (ta_thread x) wallet status)"
    and e': "entry_at rt pid L' (ai_key entry) = None"
    and free': "access_at rt pid L' (ai_key entry) = None"
    and x': "access_at rt pid L' (ai_key access) = Some (x\<lparr>ta_whitelist_count :=
      moved_count (ta_whitelist_count x) (counter_delta (Some status) None)\<rparr>)"
    and q: "quiet pid {ai_key entry, ai_key access} L L'"
    by (elim exE conjE)
  have free: "access_at rt pid L (ai_key entry) = None" using entry_not_access [OF e] .
  from x(1) free have ne: "ai_key access \<noteq> ai_key entry" by auto
  from whitelist_step [OF assms(2) q ne x(2,1) _ _ _ free free' assms(3)]
    x' e e' show ?thesis by (simp add: entry_for_def)
qed

lemma whitelist_request:
  assumes "process_request_access rt pid accounts i j L = Inr L'"
    and "whitelist_exact rt pid L" "\<And>t. card (allowed_entries rt pid L' t) < 2 ^ 32"
  shows "whitelist_exact rt pid L'"
proof -
  from request_access_ok [OF assms(1), folded access_address_def] obtain
      payer access entry th :: account_info and x where
    x: "access_at rt pid L (ai_key access) = Some x" "ta_thread x = ai_key th"
      "ai_key access = access_address rt pid (ai_key th)"
    and new: "is_uninitialized rt entry L"
    and e': "entry_at rt pid L' (ai_key entry) =
      Some (entry_for (ai_key th) (ai_key payer) ACCESS_ALLOWED)"
    and x': "access_at rt pid L' (ai_key access) = Some (x\<lparr>ta_whitelist_count :=
      moved_count (ta_whitelist_count x) (counter_delta None (Some ACCESS_ALLOWED))\<rparr>)"
    and eff: "effect pid {ai_key entry, ai_key access} {ai_key payer} L L'"
    by (elim exE conjE)
  note free = uninitialized_no_view [OF new]
  have free': "access_at rt pid L' (ai_key entry) = None" using entry_not_access [OF e'] .
  from x(1) free have "ai_key access \<noteq> ai_key entry" by auto
  from whitelist_step [OF assms(2) effect_quiet [OF eff] this _ x(1) _ _ _ free(2) free' assms(3)]
    x x' e' free(1) show ?thesis by (simp add: entry_for_def)
qed

end

section \<open>The access account\<close>

sublocale solana \<subseteq> access_update: gated_update "access_at rt pid" pid
    "load_admin_access rt pid" "serialize (thread_access_codec (rt_borsh rt))" ta_admin
    "\<lambda>x k. k = fst (derive_access_pda rt pid (ta_thread x))"
    "\<lambda>x x'. ta_tag x' = ta_tag x"
proof (unfold_locales, goal_cases)
  case (1 authority a L x)
  show ?case unfolding load_admin_access_iff by blast
next
  case (2 L a x x' L')
  then have "owner L a = pid" "ta_tag x' = TAG_ACCESS"
    by (auto simp: access_at_def stored_Some_iff owner_def)
  with 2 show ?case by (metis serialize_access)
next
  case (3 L a x x')
  then obtain p r where "enc (thread_access_codec (rt_borsh rt)) x = Some p" "data L a = p @ r"
    by (auto simp: access_at_def stored_Some_iff data_def fmt.access.deserialize_iff)
  then have "ThreadAccess_size \<le> length (data L a)"
    using fmt.access.enc_size by fastforce
  then show ?case
    by (intro fmt.access.serialize_succeeds fmt.encodable) simp
next
  case (4 x' a L L')
  then show ?case using serialize_other serialize_keeps by metis
qed

context solana
begin

lemma init_thread_access_ok:
  assumes "process_init_thread_access rt pid accounts enabled i L = Inr L'"
  shows "\<exists>authority th access ts sp rest t. accounts = authority # th # access # ts # sp # rest \<and>
    is_signer authority \<and> thread_at rt pid L (ai_key th) = Some t \<and>
    tn_author t = ai_key authority \<and>
    ai_key access = fst (derive_access_pda rt pid (ai_key th)) \<and> is_uninitialized rt access L \<and>
    access_at rt pid L' (ai_key access) = Some \<lparr>ta_tag = TAG_ACCESS, ta_thread = ai_key th,
      ta_enabled = enabled, ta_admin = ai_key authority, ta_entry_fee = 0,
      ta_whitelist_count = 0\<rparr> \<and>
    effect pid {ai_key access} {ai_key authority} L L'"
proof -
  let ?x = "\<lambda>authority th. \<lparr>ta_tag = TAG_ACCESS, ta_thread = ai_key th, ta_enabled = enabled,
      ta_admin = ai_key authority, ta_entry_fee = 0, ta_whitelist_count = 0\<rparr>"
  from assms obtain authority th access ts sp rest t bump L1 n L2 L3 where
    acc: "accounts = authority # th # access # ts # sp # rest"
    and gate: "is_signer authority" "thread_at rt pid L (ai_key th) = Some t"
      "tn_author t = ai_key authority"
      "ai_key access = fst (derive_access_pda rt pid (ai_key th))" "is_uninitialized rt access L"
    and shard: "ensure_shard_initialized rt pid authority ts sp
        [TREASURY_SHARD_SEED, le_bytes 2 (unat i)] bump L = Inr L1"
    and fee: "collect_fee_to_shard rt n authority ts L1 = Inr L2"
    and make: "create_pda_account rt pid authority access sp ThreadAccess_size
        [ACCESS_SEED, as_ref (ai_key th), [snd (derive_access_pda rt pid (ai_key th))]] L2 = Inr L3"
    and put: "serialize (thread_access_codec (rt_borsh rt)) (?x authority th) access L3 = Inr L'"
    by (auto simp: process_init_thread_access_def ok_simps Let_def case_prod_beta)
  let ?P = "{ai_key authority}"
  have "ThreadAccess_size < 2 ^ 64" by (simp add: ThreadAccess_size_def)
  from create_pda_account_ok(3) [OF make this]
  have "access_at rt pid L' (ai_key access) = Some (?x authority th)"
    by (intro serialize_access [OF put]) simp_all
  moreover have "effect pid {ai_key access} ?P L L2"
    by (rule effect_trans [OF ensure_shard_effect [OF shard] collect_fee_effect [OF fee]]) simp_all
  moreover have "effect pid {ai_key access} ?P L2 L'"
    by (rule effect_trans [OF create_pda_account_effect [OF make] serialize_effect [OF put]])
      simp_all
  ultimately show ?thesis using acc gate effect_trans by blast
qed

lemma whitelist_init:
  assumes "process_init_thread_access rt pid accounts enabled i L = Inr L'"
    and "whitelist_exact rt pid L"
  shows "whitelist_exact rt pid L'"
proof -
  from init_thread_access_ok [OF assms(1), folded access_address_def] obtain
      authority th access :: account_info where
    new: "ai_key access = access_address rt pid (ai_key th)" "is_uninitialized rt access L"
    and x': "access_at rt pid L' (ai_key access) = Some \<lparr>ta_tag = TAG_ACCESS, ta_thread = ai_key th,
      ta_enabled = enabled, ta_admin = ai_key authority, ta_entry_fee = 0,
      ta_whitelist_count = 0\<rparr>"
    and eff: "effect pid {ai_key access} {ai_key authority} L L'"
    by (elim exE conjE)
  note free = uninitialized_no_view [OF new(2)]
  have free': "entry_at rt pid L' (ai_key access) = None"
    using entry_not_access [of L' "ai_key access"] x'
    by (cases "entry_at rt pid L' (ai_key access)") simp_all
  have entry: "entry_at rt pid L' k = entry_at rt pid L k" for k
    using entry_view.view_effect [OF eff, of k] free(1) free' by (cases "k = ai_key access") simp_all
  show ?thesis
    unfolding whitelist_exact_def
  proof
    fix t
    have "allowed_entries rt pid L' t = allowed_entries rt pid L t"
      by (simp add: allowed_entries_def entry)
    moreover have "(case access_of rt pid L' t of None \<Rightarrow> 0 | Some x \<Rightarrow> unat (ta_whitelist_count x)) =
        (case access_of rt pid L t of None \<Rightarrow> 0 | Some x \<Rightarrow> unat (ta_whitelist_count x))"
      using access_view.view_effect [OF eff, of "access_address rt pid t"] free(2) x'
      by (cases "access_address rt pid t = ai_key access") (auto simp: access_of_def)
    ultimately show "card (allowed_entries rt pid L' t) =
        (case access_of rt pid L' t of None \<Rightarrow> 0 | Some x \<Rightarrow> unat (ta_whitelist_count x))"
      using assms(2) unfolding whitelist_exact_def by metis
  qed
qed

text \<open>The admin's switches keep the counter.\<close>

lemma whitelist_field:
  assumes "whitelist_exact rt pid L" "access_at rt pid L k = Some x" "access_at rt pid L' k = Some x'"
    and "ta_thread x' = ta_thread x" "ta_whitelist_count x' = ta_whitelist_count x"
    and "\<And>j. j \<noteq> k \<Longrightarrow> L' j = L j"
  shows "whitelist_exact rt pid L'"
proof (rule whitelist_frame [OF assms(1)])
  have no: "entry_at rt pid L k = None" "entry_at rt pid L' k = None"
    using assms(2,3) entry_not_access [of L k] entry_not_access [of L' k]
    by (cases "entry_at rt pid L k"; cases "entry_at rt pid L' k"; simp)+
  show "entry_at rt pid L' j = entry_at rt pid L j" for j
    using no assms(6) [of j] entry_view.view_same [of L' j L] by (cases "j = k") simp_all
  have "access_at rt pid L' j = access_at rt pid L j" if "j \<noteq> k" for j
    using assms(6) [OF that] access_view.view_same [of L' j L] by simp
  then show "map_option ta_whitelist_count (access_of rt pid L' t) =
      map_option ta_whitelist_count (access_of rt pid L t)" for t
    using assms(2-5) by (cases "access_address rt pid t = k") (simp_all add: access_of_def)
qed

end

section \<open>The handlers\<close>

lemmas acl_handlers [run_simps] = process_init_thread_access_def process_set_thread_access_def
  process_set_entry_fee_def process_add_to_whitelist_def process_add_to_fee_whitelist_def
  process_add_to_blacklist_def process_remove_from_whitelist_def
  process_remove_from_fee_whitelist_def process_remove_from_blacklist_def
  process_request_access_def

text \<open>Three handlers set a status, three remove an entry of one.\<close>

definition status_setter ::
  "u8 \<Rightarrow> runtime \<Rightarrow> pubkey \<Rightarrow> account_info list \<Rightarrow> pubkey \<Rightarrow> ledger \<Rightarrow> ledger res" where
  "status_setter status =
     (if status = ACCESS_ALLOWED then process_add_to_whitelist
      else if status = ACCESS_FEE_EXEMPT then process_add_to_fee_whitelist
      else process_add_to_blacklist)"

definition status_remover ::
  "u8 \<Rightarrow> runtime \<Rightarrow> pubkey \<Rightarrow> account_info list \<Rightarrow> pubkey \<Rightarrow> ledger \<Rightarrow> ledger res" where
  "status_remover status =
     (if status = ACCESS_ALLOWED then process_remove_from_whitelist
      else if status = ACCESS_FEE_EXEMPT then process_remove_from_fee_whitelist
      else process_remove_from_blacklist)"

abbreviation a_status :: "u8 \<Rightarrow> bool" where
  "a_status s \<equiv> s \<in> {ACCESS_ALLOWED, ACCESS_FEE_EXEMPT, ACCESS_DENIED}"

lemma status_setter_Inr_iff:
  assumes "a_status status"
  shows "status_setter status rt pid accounts wallet L = Inr L' \<longleftrightarrow>
    (\<exists>authority access entry sp rest. accounts = authority # access # entry # sp # rest \<and>
      apply_access_entry_status rt pid authority access entry sp wallet status L = Inr L')"
  using assms
  by (auto simp: status_setter_def acl_handlers attempt_Inr_iff next_account_info_Inr_iff
      status_defs)

lemma status_remover_Inr_iff:
  assumes "a_status status"
  shows "status_remover status rt pid accounts wallet L = Inr L' \<longleftrightarrow>
    (\<exists>authority access entry sp rest. accounts = authority # access # entry # sp # rest \<and>
      remove_access_entry rt pid authority access entry wallet status L = Inr L')"
  using assms
  by (auto simp: status_remover_def acl_handlers attempt_Inr_iff next_account_info_Inr_iff
      status_defs)

text \<open>The standing of a wallet with a thread, as its entry account says.\<close>

definition entry_status :: "runtime \<Rightarrow> pubkey \<Rightarrow> ledger \<Rightarrow> pubkey \<Rightarrow> pubkey \<Rightarrow> u8 option" where
  "entry_status rt pid L thread wallet =
     map_option ae_status (entry_at rt pid L (fst (derive_access_entry_pda rt pid thread wallet)))"

context solana
begin

lemma access_switch_iff:
  "(\<exists>L'. process_set_thread_access rt pid accounts enabled L = Inr L') \<longleftrightarrow>
     (\<exists>authority a rest x. accounts = authority # a # rest \<and> is_signer authority \<and>
       is_writable a \<and> access_at rt pid L (ai_key a) = Some x \<and> ta_admin x = ai_key authority \<and>
       ai_key a = fst (derive_access_pda rt pid (ta_thread x)))"
  "(\<exists>L'. process_set_entry_fee rt pid accounts fee L = Inr L') \<longleftrightarrow>
     (\<exists>authority a rest x. accounts = authority # a # rest \<and> is_signer authority \<and>
       is_writable a \<and> access_at rt pid L (ai_key a) = Some x \<and> ta_admin x = ai_key authority \<and>
       ai_key a = fst (derive_access_pda rt pid (ta_thread x)))"
  unfolding process_set_thread_access_def process_set_entry_fee_def
  by (rule access_update.update_iff [of "\<lambda>x. x\<lparr>ta_enabled := enabled\<rparr>"], simp,
      rule access_update.update_iff [of "\<lambda>x. x\<lparr>ta_entry_fee := fee\<rparr>"], simp)

lemma access_switch_ok:
  "process_set_thread_access rt pid accounts enabled L = Inr L' \<Longrightarrow>
    \<exists>authority a rest x. accounts = authority # a # rest \<and>
      access_at rt pid L (ai_key a) = Some x \<and>
      access_at rt pid L' (ai_key a) = Some (x\<lparr>ta_enabled := enabled\<rparr>) \<and>
      (\<forall>k. k \<noteq> ai_key a \<longrightarrow> L' k = L k) \<and> (\<forall>k. acc_lamports (L' k) = acc_lamports (L k))"
  "process_set_entry_fee rt pid accounts fee L = Inr L' \<Longrightarrow>
    \<exists>authority a rest x. accounts = authority # a # rest \<and>
      access_at rt pid L (ai_key a) = Some x \<and>
      access_at rt pid L' (ai_key a) = Some (x\<lparr>ta_entry_fee := fee\<rparr>) \<and>
      (\<forall>k. k \<noteq> ai_key a \<longrightarrow> L' k = L k) \<and> (\<forall>k. acc_lamports (L' k) = acc_lamports (L k))"
  unfolding process_set_thread_access_def process_set_entry_fee_def
  by (drule access_update.update_ok, simp, elim exE conjE, (intro exI conjI; assumption))
    (drule access_update.update_ok, simp, elim exE conjE, (intro exI conjI; assumption))

end

context solana
begin

lemma whitelist_switch:
  assumes "process_set_thread_access rt pid accounts enabled L = Inr L' \<or>
      process_set_entry_fee rt pid accounts fee L = Inr L'"
    and "whitelist_exact rt pid L"
  shows "whitelist_exact rt pid L'"
proof -
  from assms(1) obtain a :: account_info and x x' where
    x: "access_at rt pid L (ai_key a) = Some x" "access_at rt pid L' (ai_key a) = Some x'"
    and x': "x' = x\<lparr>ta_enabled := enabled\<rparr> \<or> x' = x\<lparr>ta_entry_fee := fee\<rparr>"
    and same: "\<forall>k. k \<noteq> ai_key a \<longrightarrow> L' k = L k"
    by (elim disjE) (drule access_switch_ok, elim exE conjE, rule that,
      assumption, assumption, simp, assumption)+
  from x' have "ta_thread x' = ta_thread x" "ta_whitelist_count x' = ta_whitelist_count x" by auto
  from whitelist_field [OF assms(2) x this] same show ?thesis by blast
qed

end

section \<open>Properties\<close>

text \<open>Whitelisting, fee-whitelisting and blacklisting are the access admin's alone, by
  signature: afterwards the wallet's entry is bound to the thread and has the new status, the
  counter has moved by the difference this makes, every other account keeps owner and data, and
  only the admin pays.\<close>

theorem status_is_set_by_admin:
  assumes "solana rt pid" "a_status status"
    and "status_setter status rt pid accounts wallet L = Inr L'"
  shows "\<exists>authority access entry sp rest x. accounts = authority # access # entry # sp # rest \<and>
    is_signer authority \<and> access_at rt pid L (ai_key access) = Some x \<and>
    ta_admin x = ai_key authority \<and> ai_key access = access_address rt pid (ta_thread x) \<and>
    ai_key entry = fst (derive_access_entry_pda rt pid (ta_thread x) wallet) \<and>
    entry_at rt pid L' (ai_key entry) = Some \<lparr>ae_tag = TAG_ACCESS_ENTRY,
      ae_thread = ta_thread x, ae_wallet = wallet, ae_status = status\<rparr> \<and>
    access_at rt pid L' (ai_key access) = Some (x\<lparr>ta_whitelist_count :=
      moved_count (ta_whitelist_count x)
        (counter_delta (entry_status rt pid L (ta_thread x) wallet) (Some status))\<rparr>) \<and>
    effect pid {ai_key entry, ai_key access} {ai_key authority} L L'"
proof -
  from assms(2,3) obtain authority access entry sp rest where
    acc: "accounts = authority # access # entry # sp # rest"
    and run: "apply_access_entry_status rt pid authority access entry sp wallet status L = Inr L'"
    by (auto simp: status_setter_Inr_iff)
  from solana.apply_access_entry_status_ok [OF assms(1) run, folded access_address_def] obtain x where
    x: "is_signer authority" "access_at rt pid L (ai_key access) = Some x"
      "ta_admin x = ai_key authority" "ai_key access = access_address rt pid (ta_thread x)"
      "ai_key entry = fst (derive_access_entry_pda rt pid (ta_thread x) wallet)"
      "entry_at rt pid L' (ai_key entry) = Some (entry_for (ta_thread x) wallet status)"
      "access_at rt pid L' (ai_key access) = Some (x\<lparr>ta_whitelist_count :=
        moved_count (ta_whitelist_count x)
          (counter_delta (map_option ae_status (entry_at rt pid L (ai_key entry))) (Some status))\<rparr>)"
      "effect pid {ai_key entry, ai_key access} {ai_key authority} L L'"
    by (elim exE conjE)
  note x' = x(6) [unfolded entry_for_def] x(7) [unfolded x(5), folded entry_status_def]
  show ?thesis by (intro exI conjI) (fact acc x x')+
qed

theorem status_is_set_by_admin_witness:
  "entry_at (ref_rt 0) ref_pid (ok_value (process_add_to_whitelist (ref_rt 0) ref_pid
     [signer_info 20, plain_info 870984, plain_info 438257, plain_info 0] 21 stage)) 438257 =
   Some (stage_entry 21 ACCESS_ALLOWED)"
proof -
  have run: "is_ok (status_setter ACCESS_ALLOWED (ref_rt 0) ref_pid
     [signer_info 20, plain_info 870984, plain_info 438257, plain_info 0] 21 stage)"
    by (simp add: status_setter_def run_simps cong: run_congs)
  have "access_at (ref_rt 0) ref_pid stage 870984 = Some stage_access"
    by (simp add: run_simps)
  with status_is_set_by_admin [OF ref_runtime.solana_axioms _ is_ok_ok_value [OF run]]
  show ?thesis
    by (auto simp: status_setter_def stage_access_def stage_entry_def plain_info_def)
qed

text \<open>An entry leaves a list only if it is on it: removal needs the admin's signature and
  the very status the handler is for; the entry's account is emptied and closed, its rent goes to
  the admin, and the counter drops exactly when the wallet was on the whitelist.\<close>

theorem removal_needs_the_status:
  assumes "solana rt pid" "a_status status"
    and "status_remover status rt pid accounts wallet L = Inr L'"
  shows "\<exists>authority access entry sp rest x. accounts = authority # access # entry # sp # rest \<and>
    is_signer authority \<and> access_at rt pid L (ai_key access) = Some x \<and>
    ta_admin x = ai_key authority \<and> ai_key access = access_address rt pid (ta_thread x) \<and>
    entry_status rt pid L (ta_thread x) wallet = Some status \<and>
    entry_status rt pid L' (ta_thread x) wallet = None \<and>
    access_at rt pid L' (ai_key access) = Some (x\<lparr>ta_whitelist_count :=
      moved_count (ta_whitelist_count x) (counter_delta (Some status) None)\<rparr>) \<and>
    (ai_key entry \<noteq> ai_key authority \<longrightarrow>
      effect pid {ai_key entry, ai_key access} {ai_key entry} L L' \<and>
      unat (lamports L' authority) = unat (lamports L authority) + unat (lamports L entry))"
proof -
  from assms(2,3) obtain authority access entry sp rest where
    acc: "accounts = authority # access # entry # sp # rest"
    and run: "remove_access_entry rt pid authority access entry wallet status L = Inr L'"
    by (auto simp: status_remover_Inr_iff)
  from solana.remove_access_entry_ok [OF assms(1) run, folded access_address_def] obtain x where
    x: "is_signer authority" "access_at rt pid L (ai_key access) = Some x"
      "ta_admin x = ai_key authority" "ai_key access = access_address rt pid (ta_thread x)"
      "ai_key entry = fst (derive_access_entry_pda rt pid (ta_thread x) wallet)"
      "entry_at rt pid L (ai_key entry) = Some (entry_for (ta_thread x) wallet status)"
      "entry_at rt pid L' (ai_key entry) = None"
      "access_at rt pid L' (ai_key access) = Some (x\<lparr>ta_whitelist_count :=
        moved_count (ta_whitelist_count x) (counter_delta (Some status) None)\<rparr>)"
      "ai_key entry \<noteq> ai_key authority \<longrightarrow>
        effect pid {ai_key entry, ai_key access} {ai_key entry} L L' \<and>
        unat (lamports L' authority) = unat (lamports L authority) + unat (lamports L entry)"
    by (elim exE conjE)
  have st: "entry_status rt pid L (ta_thread x) wallet = Some status"
    "entry_status rt pid L' (ta_thread x) wallet = None"
    using x(5-7) by (simp_all add: entry_status_def entry_for_def)
  show ?thesis by (intro exI conjI) (fact acc x st)+
qed

theorem removal_needs_the_status_witness:
  "entry_status (ref_rt 0) ref_pid (ok_value (process_remove_from_whitelist (ref_rt 0) ref_pid
     [signer_info 20, plain_info 870984, plain_info 438771, plain_info 0] 23 stage)) 30 23 = None"
proof -
  have run: "is_ok (status_remover ACCESS_ALLOWED (ref_rt 0) ref_pid
     [signer_info 20, plain_info 870984, plain_info 438771, plain_info 0] 23 stage)"
    by (simp add: status_remover_def run_simps cong: run_congs)
  have "access_at (ref_rt 0) ref_pid stage 870984 = Some stage_access"
    by (simp add: run_simps)
  with removal_needs_the_status [OF ref_runtime.solana_axioms _ is_ok_ok_value [OF run]]
  show ?thesis by (auto simp: status_remover_def stage_access_def plain_info_def)
qed

text \<open>Adding a wallet without an entry and removing it again changes nothing: no entry is
  left, and the access account is what it was, counter included.\<close>

theorem add_then_remove:
  assumes "solana rt pid" "a_status status"
    and "status_setter status rt pid (authority # access # entry # rest) wallet L = Inr L1"
    and "status_remover status rt pid (authority # access # entry # rest) wallet L1 = Inr L2"
    and "access_at rt pid L (ai_key access) = Some x"
    and "entry_status rt pid L (ta_thread x) wallet = None"
    and "unat (ta_whitelist_count x) + 1 < 2 ^ 32"
  shows "entry_status rt pid L2 (ta_thread x) wallet = None \<and>
    access_at rt pid L2 (ai_key access) = Some x \<and>
    quiet pid {ai_key entry, ai_key access} L L2"
proof -
  let ?n = "\<lambda>x d. moved_count (ta_whitelist_count x) d"
  from status_setter_Inr_iff [OF assms(2)] assms(3) obtain sp where
    add: "apply_access_entry_status rt pid authority access entry sp wallet status L = Inr L1"
    by auto
  from status_remover_Inr_iff [OF assms(2)] assms(4) have
    rem: "remove_access_entry rt pid authority access entry wallet status L1 = Inr L2"
    by auto
  from solana.apply_access_entry_status_ok [OF assms(1) add] assms(5)
  have a: "ai_key entry = fst (derive_access_entry_pda rt pid (ta_thread x) wallet)"
    "access_at rt pid L1 (ai_key access) = Some (x\<lparr>ta_whitelist_count :=
      ?n x (counter_delta (map_option ae_status (entry_at rt pid L (ai_key entry))) (Some status))\<rparr>)"
    and q1: "effect pid {ai_key entry, ai_key access} {ai_key authority} L L1"
    by auto
  have none: "map_option ae_status (entry_at rt pid L (ai_key entry)) = None"
    using assms(6) by (simp add: entry_status_def a(1))
  let ?x1 = "x\<lparr>ta_whitelist_count := ?n x (counter_delta None (Some status))\<rparr>"
  from solana.remove_access_entry_ok [OF assms(1) rem] a(2) [unfolded none]
  have r: "entry_at rt pid L2 (ai_key entry) = None"
    "access_at rt pid L2 (ai_key access) = Some (?x1\<lparr>ta_whitelist_count :=
      ?n ?x1 (counter_delta (Some status) None)\<rparr>)"
    and q2: "quiet pid {ai_key entry, ai_key access} L1 L2"
    by auto
  have "unat (?n x (counter_delta None (Some status))) =
      unat (ta_whitelist_count x) + of_bool (status = ACCESS_ALLOWED)"
    using assms(7) by (intro moved_count_eq) auto
  then have "unat (?n ?x1 (counter_delta (Some status) None)) = unat (ta_whitelist_count x)"
    using unat_less_2p [of "ta_whitelist_count x"] by (intro moved_count_eq) auto
  then have "?x1\<lparr>ta_whitelist_count := ?n ?x1 (counter_delta (Some status) None)\<rparr> = x"
    by (cases x) (simp add: word_unat_eq_iff)
  with r quiet_trans [OF effect_quiet [OF q1] q2] show ?thesis
    by (simp add: entry_status_def a(1))
qed

theorem add_then_remove_witness:
  "access_at (ref_rt 0) ref_pid (ok_value (process_remove_from_whitelist (ref_rt 0) ref_pid
     [signer_info 20, plain_info 870984, plain_info 438257, plain_info 0] 21
     (ok_value (process_add_to_whitelist (ref_rt 0) ref_pid
     [signer_info 20, plain_info 870984, plain_info 438257, plain_info 0] 21 stage)))) 870984 =
   Some stage_access"
proof -
  let ?accounts = "[signer_info 20, plain_info 870984, plain_info 438257, plain_info 0]"
  have run: "is_ok (status_setter ACCESS_ALLOWED (ref_rt 0) ref_pid ?accounts 21 stage)"
    by (simp add: status_setter_def run_simps cong: run_congs)
  have run': "is_ok (status_remover ACCESS_ALLOWED (ref_rt 0) ref_pid ?accounts 21
      (ok_value (status_setter ACCESS_ALLOWED (ref_rt 0) ref_pid ?accounts 21 stage)))"
    by (simp add: status_setter_def status_remover_def run_simps cong: run_congs)
  have x: "access_at (ref_rt 0) ref_pid stage (ai_key (plain_info 870984)) = Some stage_access"
    by (simp add: run_simps)
  have new: "entry_status (ref_rt 0) ref_pid stage (ta_thread stage_access) 21 = None"
    by (simp add: entry_status_def run_simps)
  from add_then_remove [OF ref_runtime.solana_axioms _ is_ok_ok_value [OF run]
      is_ok_ok_value [OF run'] x new]
  show ?thesis by (simp add: status_setter_def status_remover_def stage_access_def plain_info_def)
qed

text \<open>The access account is made by the thread's author alone, at the thread's own address
  and only once, with an empty whitelist and the author as its admin; the author pays the rent a
  second time to the treasury.\<close>

theorem access_account_is_the_authors:
  assumes "solana rt pid" "process_init_thread_access rt pid accounts enabled i L = Inr L'"
  shows "\<exists>authority th access ts sp rest t. accounts = authority # th # access # ts # sp # rest \<and>
    is_signer authority \<and> thread_at rt pid L (ai_key th) = Some t \<and>
    tn_author t = ai_key authority \<and> is_uninitialized rt access L \<and>
    access_of rt pid L (ai_key th) = None \<and>
    access_of rt pid L' (ai_key th) = Some \<lparr>ta_tag = TAG_ACCESS, ta_thread = ai_key th,
      ta_enabled = enabled, ta_admin = ai_key authority, ta_entry_fee = 0,
      ta_whitelist_count = 0\<rparr> \<and>
    effect pid {ai_key access} {ai_key authority} L L'"
proof -
  from solana.init_thread_access_ok [OF assms, folded access_address_def] obtain
      authority th access ts sp :: account_info and rest t where
    a: "accounts = authority # th # access # ts # sp # rest" "is_signer authority"
      "thread_at rt pid L (ai_key th) = Some t" "tn_author t = ai_key authority"
      "is_uninitialized rt access L"
      "effect pid {ai_key access} {ai_key authority} L L'"
    and key: "ai_key access = access_address rt pid (ai_key th)"
    and x: "access_at rt pid L' (ai_key access) = Some \<lparr>ta_tag = TAG_ACCESS, ta_thread = ai_key th,
      ta_enabled = enabled, ta_admin = ai_key authority, ta_entry_fee = 0,
      ta_whitelist_count = 0\<rparr>"
    by (elim exE conjE)
  have "access_of rt pid L (ai_key th) = None"
    using solana.uninitialized_no_view(2) [OF assms(1) a(5)] by (simp add: access_of_def key)
  moreover have "access_of rt pid L' (ai_key th) = Some \<lparr>ta_tag = TAG_ACCESS, ta_thread = ai_key th,
      ta_enabled = enabled, ta_admin = ai_key authority, ta_entry_fee = 0,
      ta_whitelist_count = 0\<rparr>"
    using x by (simp add: access_of_def key)
  ultimately show ?thesis using a by blast
qed

theorem access_account_is_the_authors_witness:
  "access_of (ref_rt 0) ref_pid (ok_value (process_init_thread_access (ref_rt 0) ref_pid
     [signer_info 20, plain_info 32, plain_info 871498, plain_info 32017, plain_info 0] True 3
     stage)) 32 = Some \<lparr>ta_tag = TAG_ACCESS, ta_thread = 32, ta_enabled = True, ta_admin = 20,
       ta_entry_fee = 0, ta_whitelist_count = 0\<rparr>"
proof -
  have run: "is_ok (process_init_thread_access (ref_rt 0) ref_pid
     [signer_info 20, plain_info 32, plain_info 871498, plain_info 32017, plain_info 0] True 3
     stage)"
    by (simp add: run_simps cong: run_congs)
  from access_account_is_the_authors [OF ref_runtime.solana_axioms is_ok_ok_value [OF run]]
  show ?thesis by (auto simp: signer_info_def plain_info_def)
qed

text \<open>The admin's switches: gating and the entry fee are changed exactly by the admin of the
  thread's access account on that account, and only that field of it.\<close>

theorem access_switches_are_exact:
  assumes "solana rt pid"
  shows "((\<exists>L'. process_set_thread_access rt pid accounts enabled L = Inr L') \<longleftrightarrow>
      (\<exists>authority a rest x. accounts = authority # a # rest \<and> is_signer authority \<and>
        is_writable a \<and> access_at rt pid L (ai_key a) = Some x \<and> ta_admin x = ai_key authority \<and>
        ai_key a = fst (derive_access_pda rt pid (ta_thread x)))) \<and>
    ((\<exists>L'. process_set_entry_fee rt pid accounts fee L = Inr L') \<longleftrightarrow>
      (\<exists>L'. process_set_thread_access rt pid accounts enabled L = Inr L')) \<and>
    (\<forall>L'. process_set_thread_access rt pid accounts enabled L = Inr L' \<longrightarrow>
      (\<exists>authority a rest x. accounts = authority # a # rest \<and>
        access_at rt pid L (ai_key a) = Some x \<and>
        access_at rt pid L' (ai_key a) = Some (x\<lparr>ta_enabled := enabled\<rparr>) \<and>
        (\<forall>k. k \<noteq> ai_key a \<longrightarrow> L' k = L k) \<and>
        (\<forall>k. acc_lamports (L' k) = acc_lamports (L k)))) \<and>
    (\<forall>L'. process_set_entry_fee rt pid accounts fee L = Inr L' \<longrightarrow>
      (\<exists>authority a rest x. accounts = authority # a # rest \<and>
        access_at rt pid L (ai_key a) = Some x \<and>
        access_at rt pid L' (ai_key a) = Some (x\<lparr>ta_entry_fee := fee\<rparr>) \<and>
        (\<forall>k. k \<noteq> ai_key a \<longrightarrow> L' k = L k) \<and>
        (\<forall>k. acc_lamports (L' k) = acc_lamports (L k))))"
  by (intro conjI allI impI, rule solana.access_switch_iff(1) [OF assms],
      simp only: solana.access_switch_iff [OF assms])
    (erule solana.access_switch_ok [OF assms])+

theorem access_switches_are_exact_witness:
  "\<exists>L'. process_set_entry_fee (ref_rt 0) ref_pid [signer_info 20, plain_info 870984] 9 stage = Inr L'"
proof -
  have "access_at (ref_rt 0) ref_pid stage 870984 = Some stage_access"
    by (simp add: run_simps)
  with access_switches_are_exact [OF ref_runtime.solana_axioms, where accounts =
      "[signer_info 20, plain_info 870984]" and L = stage and fee = 9 and enabled = True]
  show ?thesis by (auto simp: signer_info_def plain_info_def stage_access_def)
qed

end
