(* ===== verification/Posting.thy ===== *)
theory Posting
  imports Content Whitelist
begin

text \<open>
  Posting: \<open>fill_slot.rs\<close>. A message is a content node at the address of its thread, alloc
  number and slot; the handler takes the first free slot of the caller's candidates. Who may
  post is the policy \<open>may_post\<close>, which the handler's two access checks implement.
\<close>

section \<open>Filling a slot\<close>

text \<open>The checks of \<open>fill_slot\<close> before the loop: whether the thread is gated, and what the
  payer's entry allows.\<close>

definition gating_of ::
  "runtime \<Rightarrow> pubkey \<Rightarrow> account_info \<Rightarrow> pubkey \<Rightarrow> ledger \<Rightarrow> bool res" where
  "gating_of rt pid access_account thread_key L =
     (if \<not> is_uninitialized rt access_account L then
        attempt (assert_owned_by access_account pid L) (\<lambda>_.
        attempt (load_thread_access rt access_account L) (\<lambda>access.
        if ta_thread access \<noteq> thread_key then err ThreadMismatch
        else Inr (ta_enabled access \<and> (ta_whitelist_count access > 0 \<or> ta_entry_fee access > 0))))
      else Inr False)"

definition standing_of ::
  "runtime \<Rightarrow> pubkey \<Rightarrow> account_info \<Rightarrow> pubkey \<Rightarrow> account_info \<Rightarrow> thread_node \<Rightarrow> ledger \<Rightarrow>
   (bool \<times> bool) res" where
  "standing_of rt pid entry_account thread_key payer thread L =
     (let allowed = (ai_key payer = tn_author thread);
          fee_exempt = (ai_key payer = tn_author thread) in
      if \<not> is_uninitialized rt entry_account L then
        attempt (load_bound_access_entry rt pid entry_account thread_key (ai_key payer) L) (\<lambda>entry.
        if ae_status entry = ACCESS_DENIED then err AccessDenied
        else Inr
          (allowed \<or> ae_status entry = ACCESS_ALLOWED \<or> ae_status entry = ACCESS_FEE_EXEMPT,
           fee_exempt \<or> ae_status entry = ACCESS_FEE_EXEMPT))
      else Inr (allowed, fee_exempt))"

text \<open>What the loop carries besides the candidates.\<close>

record fill_context =
  fc_payer :: account_info
  fc_thread_key :: pubkey
  fc_thread :: thread_node
  fc_settings :: program_settings
  fc_treasury_shard :: account_info
  fc_author_fee_shard :: account_info
  fc_system_program :: account_info
  fc_fee_exempt :: bool
  fc_created_at :: i64
  fc_rent :: "nat \<Rightarrow> u64"
  fc_kind :: u16
  fc_body :: "u8 list"
  fc_reply_alloc_seq :: u32
  fc_reply_slot :: u8
  fc_max_fee :: u64

definition new_content :: "fill_context \<Rightarrow> candidate_slot \<Rightarrow> content_node" where
  "new_content c candidate =
     \<lparr>cn_header = \<lparr>ch_tag = TAG_CONTENT, ch_alloc_seq = cs_alloc_seq candidate,
        ch_slot = cs_slot candidate, ch_thread = fc_thread_key c, ch_author = ai_key (fc_payer c),
        ch_created_at = fc_created_at c, ch_reply_alloc_seq = fc_reply_alloc_seq c,
        ch_reply_slot = fc_reply_slot c\<rparr>,
      cn_kind = fc_kind c, cn_body = fc_body c\<rparr>"

text \<open>The body of the loop for a free candidate: the account, the message, the fees.\<close>

definition fill_candidate ::
  "runtime \<Rightarrow> pubkey \<Rightarrow> fill_context \<Rightarrow> candidate_slot \<Rightarrow> account_info \<Rightarrow> u8 \<Rightarrow> ledger \<Rightarrow>
   ledger res" where
  "fill_candidate rt pid c candidate content_account content_bump L =
     attempt (assert_writable content_account) (\<lambda>_.
     let content_size = ContentNode_size (length (fc_body c));
         content_lamports = fc_rent c content_size in
     attempt (create_pda_account rt pid (fc_payer c) content_account (fc_system_program c)
       content_size [CONTENT_SEED, as_ref (fc_thread_key c),
         le_bytes 4 (unat (cs_alloc_seq candidate)), [cs_slot candidate], [content_bump]] L) (\<lambda>L1.
     attempt (serialize (content_node_codec (rt_borsh rt)) (new_content c candidate)
       content_account L1) (\<lambda>L2.
     attempt (ok_or (program_error_of InvalidAccountData)
       (checked_mul_u128 (unat content_lamports) (unat (ps_base_fee_bps (fc_settings c)))))
       (\<lambda>product.
     let base_fee = of_nat (product div 10000);
         total_author_fee = (if fc_fee_exempt c then 0 else tn_message_fee (fc_thread c)) in
     attempt (ok_or (program_error_of InvalidAccountData)
       (checked_add base_fee total_author_fee)) (\<lambda>total_fee.
     if total_fee > fc_max_fee c then err FeeExceedsMax
     else
     attempt (collect_base_fee rt content_lamports (ps_base_fee_bps (fc_settings c)) (fc_payer c)
       (fc_treasury_shard c) L2) (\<lambda>L3.
     if total_author_fee > 0
     then transfer_fee_split rt total_author_fee (ps_author_fee_cut_bps (fc_settings c))
       (fc_payer c) (fc_author_fee_shard c) (fc_treasury_shard c) L3
     else Inr L3))))))"

text \<open>The loop: candidates in order, each with its account, until one is free.\<close>

fun fill_loop ::
  "runtime \<Rightarrow> pubkey \<Rightarrow> fill_context \<Rightarrow> (candidate_slot \<times> account_info) list \<Rightarrow> ledger \<Rightarrow>
   ledger res" where
  "fill_loop rt pid c [] L = err NoFreeSlot"
| "fill_loop rt pid c ((candidate, content_account) # rest) L =
     (if cs_alloc_seq candidate > tn_last_alloc_seq (fc_thread c) then err InvalidAllocSeq
      else if unat (cs_slot candidate) \<ge> CONTENT_SLOTS then err InvalidSlot
      else
        let (expected_content, content_bump) = derive_content_pda rt pid (fc_thread_key c)
              (cs_alloc_seq candidate) (cs_slot candidate) in
        attempt (assert_pda content_account expected_content) (\<lambda>_.
        if \<not> is_uninitialized rt content_account L then fill_loop rt pid c rest L
        else fill_candidate rt pid c candidate content_account content_bump L))"

definition process_fill_slot ::
  "runtime \<Rightarrow> pubkey \<Rightarrow> account_info list \<Rightarrow> u16 \<Rightarrow> u8 list \<Rightarrow> candidate_slot list \<Rightarrow> u16 \<Rightarrow> u8 \<Rightarrow>
   u32 \<Rightarrow> u8 \<Rightarrow> u64 \<Rightarrow> ledger \<Rightarrow> ledger res" where
  "process_fill_slot rt pid accounts kind body candidates treasury_shard_idx
       author_fee_shard_idx reply_alloc_seq reply_slot max_fee L =
     (if length body > MAX_BODY_LEN then err TextTooLong
      else
     attempt (if from_u16 kind = Text then text_validate \<lparr>tb_text = body\<rparr> else Inr ()) (\<lambda>_.
     if candidates = [] then err InvalidCandidateCount
     else
     attempt (next_account_info accounts) (\<lambda>(payer, it).
     attempt (next_account_info it) (\<lambda>(thread_account, it).
     attempt (next_account_info it) (\<lambda>(settings_account, it).
     attempt (next_account_info it) (\<lambda>(treasury_shard, it).
     attempt (next_account_info it) (\<lambda>(author_fee_shard, it).
     attempt (next_account_info it) (\<lambda>(system_program, it).
     attempt (assert_signer payer) (\<lambda>_.
     attempt (assert_fee_shard_accounts rt treasury_shard author_fee_shard system_program) (\<lambda>_.
     attempt (load_thread rt pid thread_account L) (\<lambda>thread.
     let thread_key = ai_key thread_account in
     attempt (load_settings rt pid settings_account L) (\<lambda>settings.
     attempt (validate_fee_shards rt pid treasury_shard author_fee_shard thread_key
       treasury_shard_idx author_fee_shard_idx) (\<lambda>(treasury_shard_bump, author_fee_shard_bump).
     let remaining = it; n_candidates = length candidates in
     if length remaining < n_candidates + 2 then err InvalidCandidateCount
     else
     let candidate_accounts = take n_candidates remaining;
         access_account = remaining ! n_candidates;
         entry_account = remaining ! (n_candidates + 1);
         (expected_access, _) = derive_access_pda rt pid thread_key in
     attempt (assert_pda access_account expected_access) (\<lambda>_.
     let (expected_entry, _) = derive_access_entry_pda rt pid thread_key (ai_key payer) in
     attempt (assert_pda entry_account expected_entry) (\<lambda>_.
     attempt (gating_of rt pid access_account thread_key L) (\<lambda>gating_enabled.
     attempt (standing_of rt pid entry_account thread_key payer thread L) (\<lambda>(allowed, fee_exempt).
     if gating_enabled \<and> \<not> allowed then err AccessDenied
     else
     attempt (ensure_fee_shards_initialized rt pid payer treasury_shard author_fee_shard
       system_program thread_key treasury_shard_idx author_fee_shard_idx treasury_shard_bump
       author_fee_shard_bump L) (\<lambda>L1.
     attempt (rt_rent rt) (\<lambda>rent.
     attempt (rt_clock rt) (\<lambda>created_at.
     fill_loop rt pid \<lparr>fc_payer = payer, fc_thread_key = thread_key, fc_thread = thread,
         fc_settings = settings, fc_treasury_shard = treasury_shard,
         fc_author_fee_shard = author_fee_shard, fc_system_program = system_program,
         fc_fee_exempt = fee_exempt, fc_created_at = created_at, fc_rent = rent, fc_kind = kind,
         fc_body = body, fc_reply_alloc_seq = reply_alloc_seq, fc_reply_slot = reply_slot,
         fc_max_fee = max_fee\<rparr>
       (zip candidates candidate_accounts) L1))))))))))))))))))))"

lemmas posting_run [run_simps] = gating_of_def standing_of_def new_content_def fill_candidate_def
  from_u16_def KIND_TEXT_def text_validate_def process_fill_slot_def

section \<open>Who may post\<close>

lemma gating_of_iff:
  "gating_of rt pid a thread L = Inr g \<longleftrightarrow>
     (if is_uninitialized rt a L then \<not> g
      else \<exists>x. access_at rt pid L (ai_key a) = Some x \<and> ta_thread x = thread \<and>
        g = (ta_enabled x \<and> (ta_whitelist_count x > 0 \<or> ta_entry_fee x > 0)))"
  by (cases "owner L a = pid")
    (auto simp: gating_of_def attempt_Inr_iff assert_Inr_iffs load_thread_access_iff if_Inl_Inr_iff
      access_at_def stored_Some_iff owner_def)

lemma standing_of_iff:
  "standing_of rt pid a thread payer t L = Inr (allowed, exempt) \<longleftrightarrow>
     (if is_uninitialized rt a L
      then allowed = (ai_key payer = tn_author t) \<and> exempt = (ai_key payer = tn_author t)
      else \<exists>e. entry_at rt pid L (ai_key a) = Some e \<and> ae_thread e = thread \<and>
        ae_wallet e = ai_key payer \<and> ae_status e \<noteq> ACCESS_DENIED \<and>
        allowed = (ai_key payer = tn_author t \<or> ae_status e = ACCESS_ALLOWED \<or>
          ae_status e = ACCESS_FEE_EXEMPT) \<and>
        exempt = (ai_key payer = tn_author t \<or> ae_status e = ACCESS_FEE_EXEMPT))"
  by (auto simp: standing_of_def Let_def attempt_Inr_iff load_bound_access_entry_iff if_Inl_Inr_iff)

section \<open>Filling one candidate\<close>

context solana
begin

text \<open>A content node written into a buffer of exactly its size.\<close>

lemma serialize_content:
  assumes "serialize (content_node_codec (rt_borsh rt)) n a L = Inr L'"
    and "owner L a = pid" "length (data L a) = ContentNode_size (length (cn_body n))"
    and "ch_tag (cn_header n) = TAG_CONTENT"
  shows "content_at rt pid L' (ai_key a) = Some n"
  using fmt.content.serialize_exact [OF assms(1)] serialize_keeps [OF assms(1)] assms(2-4)
  by (simp add: content_at_def stored_Some_iff owner_def data_def)

lemma fill_candidate_ok:
  assumes "fill_candidate rt pid c cand a bump L = Inr L'" "length (fc_body c) \<le> MAX_BODY_LEN"
  shows "content_at rt pid L' (ai_key a) = Some (new_content c cand)"
    "is_uninitialized rt a L"
    "ai_key (fc_payer c) \<in> P \<Longrightarrow> effect pid {ai_key a} P L L'"
    "ps_base_fee_bps (fc_settings c) \<le> 10000 \<Longrightarrow>
      unat (fc_rent c (ContentNode_size (length (fc_body c)))) *
          unat (ps_base_fee_bps (fc_settings c)) div 10000 +
        (if fc_fee_exempt c then 0 else unat (tn_message_fee (fc_thread c))) \<le> unat (fc_max_fee c)"
    "ps_base_fee_bps (fc_settings c) \<le> 10000 \<Longrightarrow>
      ai_key (fc_payer c) \<noteq> ai_key (fc_treasury_shard c) \<Longrightarrow>
      unat (lamports L (fc_treasury_shard c)) +
        unat (fc_rent c (ContentNode_size (length (fc_body c)))) *
          unat (ps_base_fee_bps (fc_settings c)) div 10000
      \<le> unat (lamports L' (fc_treasury_shard c))"
    "ai_key (fc_payer c) \<noteq> ai_key (fc_treasury_shard c) \<Longrightarrow>
      ai_key (fc_payer c) \<noteq> ai_key (fc_author_fee_shard c) \<Longrightarrow> \<not> fc_fee_exempt c \<Longrightarrow>
      unat (lamports L (fc_author_fee_shard c)) +
        unat (fst (compute_fee_split (tn_message_fee (fc_thread c))
          (ps_author_fee_cut_bps (fc_settings c))))
      \<le> unat (lamports L' (fc_author_fee_shard c))"
proof -
  let ?size = "ContentNode_size (length (fc_body c))"
  let ?rent = "fc_rent c ?size" and ?bps = "ps_base_fee_bps (fc_settings c)"
  let ?msg = "if fc_fee_exempt c then 0 else tn_message_fee (fc_thread c)"
  let ?base = "of_nat (unat ?rent * unat ?bps div 10000) :: u64"
  let ?P = "{ai_key (fc_payer c)}"
  from assms(1) obtain L1 L2 f L3 where
    make: "create_pda_account rt pid (fc_payer c) a (fc_system_program c) ?size
       [CONTENT_SEED, as_ref (fc_thread_key c), le_bytes 4 (unat (cs_alloc_seq cand)),
         [cs_slot cand], [bump]] L = Inr L1"
    and put: "serialize (content_node_codec (rt_borsh rt)) (new_content c cand) a L1 = Inr L2"
    and sum: "checked_add ?base ?msg = Some f" "\<not> f > fc_max_fee c"
    and base: "collect_base_fee rt ?rent ?bps (fc_payer c) (fc_treasury_shard c) L2 = Inr L3"
    and msg: "(if ?msg > 0 then transfer_fee_split rt ?msg (ps_author_fee_cut_bps (fc_settings c))
       (fc_payer c) (fc_author_fee_shard c) (fc_treasury_shard c) L3 else Inr L3) = Inr L'"
    by (auto simp: fill_candidate_def Let_def attempt_Inr_iff ok_or_Inr_iff if_Inl_Inr_iff)
  have small: "?size < 2 ^ 64"
    using assms(2) by (simp add: ContentNode_size_def ContentHeader_SIZE_def MAX_BODY_LEN_def)
  note m = create_pda_account_ok [OF make small]
  from m(1,2) show "is_uninitialized rt a L" by (simp add: is_uninitialized_def)
  have c2: "content_at rt pid L2 (ai_key a) = Some (new_content c cand)"
    using m(3,4) by (intro serialize_content [OF put]) (simp_all add: new_content_def)
  have e12: "effect pid {ai_key a} Q L L2" if "ai_key (fc_payer c) \<in> Q" for Q
    by (rule effect_trans [OF create_pda_account_effect [OF make that] serialize_effect [OF put]])
      simp_all
  have e3: "effect pid K Q L2 L3" if "ai_key (fc_payer c) \<in> Q" for K Q
    by (rule collect_base_fee_effect [OF base that])
  have e4: "effect pid K Q L3 L'" if "ai_key (fc_payer c) \<in> Q" for K Q
    using msg by (auto split: if_splits intro: transfer_fee_split_effect [OF _ that])
  have pin: "ai_key (fc_payer c) \<in> ?P" by simp
  have "effect pid {} ?P L2 L'"
    by (rule effect_trans [OF e3 [OF pin] e4 [OF pin]])
  from content_view.view_effect [OF this] c2
  show "content_at rt pid L' (ai_key a) = Some (new_content c cand)" by simp
  show "effect pid {ai_key a} P L L'" if "ai_key (fc_payer c) \<in> P"
    by (rule effect_trans [OF effect_trans [OF e12 e3] e4]) (rule that)+
  show "unat ?rent * unat ?bps div 10000 +
      (if fc_fee_exempt c then 0 else unat (tn_message_fee (fc_thread c))) \<le> unat (fc_max_fee c)"
    if "?bps \<le> 10000"
    using sum unat_fee_cut [OF that, of ?rent]
    by (auto simp: checked_add_Some_iff unat_add_lt word_le_nat_alt not_less split: if_splits)
  show "unat (lamports L (fc_treasury_shard c)) + unat ?rent * unat ?bps div 10000
      \<le> unat (lamports L' (fc_treasury_shard c))"
    if "?bps \<le> 10000" and ne: "ai_key (fc_payer c) \<noteq> ai_key (fc_treasury_shard c)"
    using collect_base_fee_paid [OF base that]
      effect_balance [OF e12 [OF pin], of "fc_treasury_shard c"]
      effect_balance [OF e4 [OF pin, of "{}"], of "fc_treasury_shard c"] ne
    by simp
  show "unat (lamports L (fc_author_fee_shard c)) +
        unat (fst (compute_fee_split (tn_message_fee (fc_thread c))
          (ps_author_fee_cut_bps (fc_settings c))))
      \<le> unat (lamports L' (fc_author_fee_shard c))"
    if ne: "ai_key (fc_payer c) \<noteq> ai_key (fc_treasury_shard c)"
      "ai_key (fc_payer c) \<noteq> ai_key (fc_author_fee_shard c)" and "\<not> fc_fee_exempt c"
  proof -
    have "unat (lamports L3 (fc_author_fee_shard c)) + unat (fst (compute_fee_split ?msg
        (ps_author_fee_cut_bps (fc_settings c)))) \<le> unat (lamports L' (fc_author_fee_shard c))"
    proof (cases "?msg > 0")
      case True
      with msg show ?thesis using transfer_fee_split_paid(2) [OF _ ne(2,1)] by simp
    next
      case False
      then have "?msg = 0" by (simp only: word_neq_0_conv [symmetric] not_not)
      with msg show ?thesis by (simp add: compute_fee_split_0)
    qed
    with that(3) effect_balance [OF e12 [OF pin], of "fc_author_fee_shard c"]
      effect_balance [OF e3 [OF pin, of "{}"], of "fc_author_fee_shard c"] ne
    show ?thesis by simp
  qed
qed

end

context solana
begin

text \<open>The vaults a handler may create are the only accounts whose owner can change.\<close>

lemma ensure_shard_contents:
  assumes "ensure_shard_initialized rt pid payer shard sp seeds bump L = Inr L'"
  shows "acc_owner (L' k) = acc_owner (L k) \<and> acc_data (L' k) = acc_data (L k) \<or>
    k = ai_key shard \<and> acc_owner (L' k) = pid"
proof (cases "is_uninitialized rt shard L")
  case True
  with assms have make: "create_pda_account rt pid payer shard sp 0 (seeds @ [[bump]]) L = Inr L'"
    by (simp add: ensure_shard_initialized_def)
  from create_pda_account_ok(3,6) [OF make] show ?thesis
    by (cases "k = ai_key shard") (simp_all add: owner_def)
next
  case False
  with assms show ?thesis by (simp add: ensure_shard_initialized_def)
qed

lemma ensure_fee_shards_contents:
  assumes "ensure_fee_shards_initialized rt pid payer t a sp thread i j tb ab L = Inr L'"
  shows "acc_owner (L' k) = acc_owner (L k) \<and> acc_data (L' k) = acc_data (L k) \<or>
    k \<in> {ai_key t, ai_key a} \<and> acc_owner (L' k) = pid"
proof -
  from assms obtain L1 where
    1: "ensure_shard_initialized rt pid payer t sp
         [TREASURY_SHARD_SEED, le_bytes 2 (unat i)] tb L = Inr L1"
    and 2: "ensure_shard_initialized rt pid payer a sp [AUTHOR_FEE_SEED, as_ref thread, [j]] ab L1
         = Inr L'"
    by (auto simp: ensure_fee_shards_initialized_def attempt_Inr_iff)
  from ensure_shard_contents [OF 1, of k] ensure_shard_contents [OF 2, of k] show ?thesis by auto
qed

lemma uninitialized_before:
  assumes "ensure_fee_shards_initialized rt pid payer t f sp thread i j tb ab L = Inr L'"
    and "is_uninitialized rt a L'"
  shows "is_uninitialized rt a L"
  using ensure_fee_shards_contents [OF assms(1), of "ai_key a"] assms(2) owned_initialized [of L' a]
  by (auto simp: is_uninitialized_def owner_def data_def)

lemma initialized_before:
  assumes "ensure_fee_shards_initialized rt pid payer t f sp thread i j tb ab L = Inr L'"
    and "\<not> is_uninitialized rt a L'"
  shows "\<not> is_uninitialized rt a L \<or> ai_key a \<in> {ai_key t, ai_key f}"
  using ensure_fee_shards_contents [OF assms(1), of "ai_key a"] assms(2)
  by (auto simp: is_uninitialized_def owner_def data_def)

end

section \<open>The loop\<close>

text \<open>The address of a candidate, and the checks it passes before its account is looked at.\<close>

definition candidate_address :: "runtime \<Rightarrow> pubkey \<Rightarrow> pubkey \<Rightarrow> candidate_slot \<Rightarrow> pubkey" where
  "candidate_address rt pid thread cand =
     fst (derive_content_pda rt pid thread (cs_alloc_seq cand) (cs_slot cand))"

definition candidate_valid ::
  "runtime \<Rightarrow> pubkey \<Rightarrow> fill_context \<Rightarrow> candidate_slot \<Rightarrow> account_info \<Rightarrow> bool" where
  "candidate_valid rt pid c cand a \<longleftrightarrow>
     cs_alloc_seq cand \<le> tn_last_alloc_seq (fc_thread c) \<and> unat (cs_slot cand) < CONTENT_SLOTS \<and>
     ai_key a = candidate_address rt pid (fc_thread_key c) cand"

lemma fill_loop_step:
  "candidate_valid rt pid c cand a \<Longrightarrow>
   fill_loop rt pid c ((cand, a) # rest) L =
     (if is_uninitialized rt a L
      then fill_candidate rt pid c cand a
        (snd (derive_content_pda rt pid (fc_thread_key c) (cs_alloc_seq cand) (cs_slot cand))) L
      else fill_loop rt pid c rest L)"
  by (auto simp: candidate_valid_def candidate_address_def assert_pda_def Let_def case_prod_beta
      not_less not_le)

lemma fill_loop_valid:
  "fill_loop rt pid c ((cand, a) # rest) L = Inr L' \<Longrightarrow> candidate_valid rt pid c cand a"
  by (auto simp: candidate_valid_def candidate_address_def assert_Inr_iffs attempt_Inr_iff Let_def
      case_prod_beta if_Inl_Inr_iff not_less not_le)

text \<open>A successful run: every candidate up to the chosen one is valid, the earlier ones are
  taken, and the chosen one, free, is filled.\<close>

lemma fill_loop_ok:
  "fill_loop rt pid c cs L = Inr L' \<Longrightarrow>
   \<exists>before cand a rest. cs = before @ (cand, a) # rest \<and>
     (\<forall>(d, b)\<in>set before. candidate_valid rt pid c d b \<and> \<not> is_uninitialized rt b L) \<and>
     candidate_valid rt pid c cand a \<and> is_uninitialized rt a L \<and>
     fill_candidate rt pid c cand a
       (snd (derive_content_pda rt pid (fc_thread_key c) (cs_alloc_seq cand) (cs_slot cand))) L
     = Inr L'"
proof (induction cs)
  case Nil
  then show ?case by simp
next
  case (Cons p cs)
  obtain cand a where p: "p = (cand, a)" by fastforce
  from fill_loop_valid Cons.prems have v: "candidate_valid rt pid c cand a" by (simp only: p)
  show ?case
  proof (cases "is_uninitialized rt a L")
    case True
    with Cons.prems v have "fill_candidate rt pid c cand a
       (snd (derive_content_pda rt pid (fc_thread_key c) (cs_alloc_seq cand) (cs_slot cand))) L
     = Inr L'" by (simp only: p fill_loop_step if_True)
    with v True show ?thesis
      by (intro exI [of _ "[]"] exI [of _ cand] exI [of _ a] exI [of _ cs]) (simp add: p)
  next
    case False
    with Cons.prems v have "fill_loop rt pid c cs L = Inr L'"
      by (simp only: p fill_loop_step if_False)
    from Cons.IH [OF this] obtain before d b rest where
      "cs = before @ (d, b) # rest"
      "\<forall>(d, b)\<in>set before. candidate_valid rt pid c d b \<and> \<not> is_uninitialized rt b L"
      "candidate_valid rt pid c d b \<and> is_uninitialized rt b L \<and>
       fill_candidate rt pid c d b
        (snd (derive_content_pda rt pid (fc_thread_key c) (cs_alloc_seq d) (cs_slot d))) L = Inr L'"
      by blast
    with v False show ?thesis
      by (intro exI [of _ "(cand, a) # before"] exI [of _ d] exI [of _ b] exI [of _ rest])
        (simp add: p)
  qed
qed

text \<open>On valid candidates the loop is a search for the first free one.\<close>

lemma fill_loop_find:
  assumes "\<forall>(d, b)\<in>set cs. candidate_valid rt pid c d b"
  shows "fill_loop rt pid c cs L =
    (case find (\<lambda>(d, b). is_uninitialized rt b L) cs of
       None \<Rightarrow> err NoFreeSlot
     | Some (d, b) \<Rightarrow> fill_candidate rt pid c d b
         (snd (derive_content_pda rt pid (fc_thread_key c) (cs_alloc_seq d) (cs_slot d))) L)"
  using assms
proof (induction cs)
  case Nil
  then show ?case by simp
next
  case (Cons p cs)
  obtain cand a where p: "p = (cand, a)" by fastforce
  with Cons.prems have v: "candidate_valid rt pid c cand a" by simp
  show ?case
    by (simp only: p fill_loop_step [OF v] find.simps prod.case)
      (use Cons in \<open>simp add: p\<close>)
qed

section \<open>Filling a slot, as a whole\<close>

text \<open>Whether a thread is gated, and whether a wallet may post: the abstract policy the two
  access checks implement.\<close>

definition gated :: "runtime \<Rightarrow> pubkey \<Rightarrow> ledger \<Rightarrow> pubkey \<Rightarrow> bool" where
  "gated rt pid L thread =
     (case access_of rt pid L thread of
        None \<Rightarrow> False
      | Some x \<Rightarrow> ta_enabled x \<and> (ta_whitelist_count x > 0 \<or> ta_entry_fee x > 0))"

definition may_post :: "runtime \<Rightarrow> pubkey \<Rightarrow> ledger \<Rightarrow> pubkey \<Rightarrow> pubkey \<Rightarrow> pubkey \<Rightarrow> bool" where
  "may_post rt pid L thread author wallet \<longleftrightarrow>
     entry_status rt pid L thread wallet \<noteq> Some ACCESS_DENIED \<and>
     (gated rt pid L thread \<longrightarrow> wallet = author \<or>
       entry_status rt pid L thread wallet \<in> {Some ACCESS_ALLOWED, Some ACCESS_FEE_EXEMPT})"

definition fee_exempt :: "runtime \<Rightarrow> pubkey \<Rightarrow> ledger \<Rightarrow> pubkey \<Rightarrow> pubkey \<Rightarrow> pubkey \<Rightarrow> bool" where
  "fee_exempt rt pid L thread author wallet \<longleftrightarrow>
     wallet = author \<or> entry_status rt pid L thread wallet = Some ACCESS_FEE_EXEMPT"

context solana
begin

lemma gating_of_policy:
  assumes "gating_of rt pid a thread L = Inr g" "ai_key a = access_address rt pid thread"
  shows "g = gated rt pid L thread"
proof (cases "is_uninitialized rt a L")
  case True
  with assms uninitialized_no_view(2) [OF True] show ?thesis
    by (simp add: gating_of_iff gated_def access_of_def)
next
  case False
  with assms show ?thesis by (auto simp: gating_of_iff gated_def access_of_def)
qed

lemma standing_of_policy:
  assumes "standing_of rt pid a thread payer t L = Inr (allowed, exempt)"
    and "ai_key a = fst (derive_access_entry_pda rt pid thread (ai_key payer))"
  shows "entry_status rt pid L thread (ai_key payer) \<noteq> Some ACCESS_DENIED \<and>
    allowed = (ai_key payer = tn_author t \<or> entry_status rt pid L thread (ai_key payer) \<in>
      {Some ACCESS_ALLOWED, Some ACCESS_FEE_EXEMPT}) \<and>
    exempt = fee_exempt rt pid L thread (tn_author t) (ai_key payer)"
proof (cases "is_uninitialized rt a L")
  case True
  with assms uninitialized_no_view(1) [OF True] show ?thesis
    by (simp add: standing_of_iff entry_status_def fee_exempt_def)
next
  case False
  with assms show ?thesis by (auto simp: standing_of_iff entry_status_def fee_exempt_def)
qed

lemma fill_slot_ok:
  assumes "process_fill_slot rt pid accounts kind body cands i j ra rs max_fee L = Inr L'"
  shows "\<exists>payer th st ts fs sp rest t s rent now L1 c.
    accounts = payer # th # st # ts # fs # sp # rest \<and> is_signer payer \<and>
    length body \<le> MAX_BODY_LEN \<and> length cands + 2 \<le> length rest \<and>
    thread_at rt pid L (ai_key th) = Some t \<and> settings_at rt pid L (ai_key st) = Some s \<and>
    ai_key st = fst (derive_settings_pda rt pid) \<and>
    ai_key ts = fst (derive_treasury_shard_pda rt pid i) \<and>
    ai_key fs = fst (derive_author_fee_pda rt pid (ai_key th) j) \<and>
    may_post rt pid L (ai_key th) (tn_author t) (ai_key payer) \<and>
    rt_rent rt = Inr rent \<and> rt_clock rt = Inr now \<and>
    (\<exists>tb fb. ensure_fee_shards_initialized rt pid payer ts fs sp (ai_key th) i j tb fb L = Inr L1) \<and>
    c = \<lparr>fc_payer = payer, fc_thread_key = ai_key th, fc_thread = t, fc_settings = s,
      fc_treasury_shard = ts, fc_author_fee_shard = fs, fc_system_program = sp,
      fc_fee_exempt = fee_exempt rt pid L (ai_key th) (tn_author t) (ai_key payer),
      fc_created_at = now, fc_rent = rent, fc_kind = kind, fc_body = body,
      fc_reply_alloc_seq = ra, fc_reply_slot = rs, fc_max_fee = max_fee\<rparr> \<and>
    fill_loop rt pid c (zip cands rest) L1 = Inr L'"
proof -
  have zip: "zip cands (take (length cands) xs) = zip cands xs" for xs :: "account_info list"
    using take_zip [of "length cands" cands xs] by simp
  from assms obtain payer th st ts fs sp rest t s g al ex tb fb L1 rent now where
    acc: "accounts = payer # th # st # ts # fs # sp # rest" "is_signer payer"
      "length body \<le> MAX_BODY_LEN" "length cands + 2 \<le> length rest"
    and at: "thread_at rt pid L (ai_key th) = Some t" "settings_at rt pid L (ai_key st) = Some s"
      "ai_key st = fst (derive_settings_pda rt pid)"
      "ai_key ts = fst (derive_treasury_shard_pda rt pid i)"
      "ai_key fs = fst (derive_author_fee_pda rt pid (ai_key th) j)"
    and g: "gating_of rt pid (rest ! length cands) (ai_key th) L = Inr g"
      "ai_key (rest ! length cands) = fst (derive_access_pda rt pid (ai_key th))"
    and st: "standing_of rt pid (rest ! (length cands + 1)) (ai_key th) payer t L = Inr (al, ex)"
      "ai_key (rest ! (length cands + 1)) =
        fst (derive_access_entry_pda rt pid (ai_key th) (ai_key payer))"
    and ok: "\<not> (g \<and> \<not> al)"
    and shards: "ensure_fee_shards_initialized rt pid payer ts fs sp (ai_key th) i j tb fb L = Inr L1"
    and sys: "rt_rent rt = Inr rent" "rt_clock rt = Inr now"
    and loop: "fill_loop rt pid \<lparr>fc_payer = payer, fc_thread_key = ai_key th, fc_thread = t,
        fc_settings = s, fc_treasury_shard = ts, fc_author_fee_shard = fs, fc_system_program = sp,
        fc_fee_exempt = ex, fc_created_at = now, fc_rent = rent, fc_kind = kind, fc_body = body,
        fc_reply_alloc_seq = ra, fc_reply_slot = rs, fc_max_fee = max_fee\<rparr>
       (zip cands (take (length cands) rest)) L1 = Inr L'"
    by (auto simp: process_fill_slot_def Let_def case_prod_beta attempt_Inr_iff
        next_account_info_Inr_iff assert_Inr_iffs if_Inl_Inr_iff load_thread_iff load_settings_iff
        validate_fee_shards_iff not_less)
  from gating_of_policy [OF g [folded access_address_def]] standing_of_policy [OF st] ok
  have may: "may_post rt pid L (ai_key th) (tn_author t) (ai_key payer)"
    and ex: "ex = fee_exempt rt pid L (ai_key th) (tn_author t) (ai_key payer)"
    by (auto simp: may_post_def)
  from loop [unfolded zip ex] acc at may sys shards show ?thesis by blast
qed

end

context solana
begin

lemma fill_slot_posts:
  assumes "process_fill_slot rt pid accounts kind body cands i j ra rs max_fee L = Inr L'"
  shows "\<exists>payer th st ts fs sp rest t now before cand a after.
    accounts = payer # th # st # ts # fs # sp # rest \<and> is_signer payer \<and>
    length body \<le> MAX_BODY_LEN \<and> thread_at rt pid L (ai_key th) = Some t \<and>
    rt_clock rt = Inr now \<and> zip cands rest = before @ (cand, a) # after \<and>
    (\<forall>(d, b)\<in>set before. \<not> is_uninitialized rt b L \<or> ai_key b \<in> {ai_key ts, ai_key fs}) \<and>
    cs_alloc_seq cand \<le> tn_last_alloc_seq t \<and> unat (cs_slot cand) < CONTENT_SLOTS \<and>
    ai_key a = fst (derive_content_pda rt pid (ai_key th) (cs_alloc_seq cand) (cs_slot cand)) \<and>
    is_uninitialized rt a L \<and>
    content_at rt pid L' (ai_key a) = Some
      \<lparr>cn_header = \<lparr>ch_tag = TAG_CONTENT, ch_alloc_seq = cs_alloc_seq cand,
         ch_slot = cs_slot cand, ch_thread = ai_key th, ch_author = ai_key payer,
         ch_created_at = now, ch_reply_alloc_seq = ra, ch_reply_slot = rs\<rparr>,
       cn_kind = kind, cn_body = body\<rparr> \<and>
    effect pid {ai_key a} {ai_key payer} L L'"
proof -
  from fill_slot_ok [OF assms] obtain
      payer th st ts fs sp :: account_info and rest t s rent now L1 c tb fb where
    acc: "accounts = payer # th # st # ts # fs # sp # rest" "is_signer payer"
      "length body \<le> MAX_BODY_LEN" "thread_at rt pid L (ai_key th) = Some t" "rt_clock rt = Inr now"
    and shards: "ensure_fee_shards_initialized rt pid payer ts fs sp (ai_key th) i j tb fb L = Inr L1"
    and c: "c = \<lparr>fc_payer = payer, fc_thread_key = ai_key th, fc_thread = t, fc_settings = s,
      fc_treasury_shard = ts, fc_author_fee_shard = fs, fc_system_program = sp,
      fc_fee_exempt = fee_exempt rt pid L (ai_key th) (tn_author t) (ai_key payer),
      fc_created_at = now, fc_rent = rent, fc_kind = kind, fc_body = body,
      fc_reply_alloc_seq = ra, fc_reply_slot = rs, fc_max_fee = max_fee\<rparr>"
    and loop: "fill_loop rt pid c (zip cands rest) L1 = Inr L'"
    by (elim exE conjE)
  from fill_loop_ok [OF loop] obtain before cand a after where
    zip: "zip cands rest = before @ (cand, a) # after"
    and taken: "\<forall>(d, b)\<in>set before. candidate_valid rt pid c d b \<and> \<not> is_uninitialized rt b L1"
    and valid: "candidate_valid rt pid c cand a" and free: "is_uninitialized rt a L1"
    and fill: "fill_candidate rt pid c cand a
       (snd (derive_content_pda rt pid (fc_thread_key c) (cs_alloc_seq cand) (cs_slot cand))) L1
      = Inr L'"
    by (elim exE conjE)
  have taken_before: "\<forall>(d, b)\<in>set before. \<not> is_uninitialized rt b L \<or>
      ai_key b \<in> {ai_key ts, ai_key fs}"
    using taken initialized_before [OF shards] by fast
  have free_before: "is_uninitialized rt a L"
    using uninitialized_before [OF shards free] .
  have len: "length (fc_body c) \<le> MAX_BODY_LEN" using acc(3) c by simp
  note f = fill_candidate_ok [OF fill len]
  have "effect pid {ai_key a} {ai_key payer} L L1"
    by (rule ensure_fee_shards_effect [OF shards]) simp
  moreover have "effect pid {ai_key a} {ai_key payer} L1 L'"
    by (rule f(3)) (simp add: c)
  ultimately have eff: "effect pid {ai_key a} {ai_key payer} L L'" by (rule effect_trans)
  from valid have v: "cs_alloc_seq cand \<le> tn_last_alloc_seq t" "unat (cs_slot cand) < CONTENT_SLOTS"
    "ai_key a = fst (derive_content_pda rt pid (ai_key th) (cs_alloc_seq cand) (cs_slot cand))"
    by (simp_all add: candidate_valid_def candidate_address_def c)
  note msg = f(1) [unfolded new_content_def c fill_context.simps]
  show ?thesis
    by (intro exI conjI) (fact acc zip taken_before v free_before msg eff)+
qed

end

section \<open>Properties\<close>

text \<open>C14. A message lands in the first free slot of the caller's list: the candidates before it
  are taken, the chosen one belongs to the thread's chain and was free, and its account holds
  exactly the given message, stamped with the clock. Nothing else of the program's state
  changes (fresh vaults apart), and only the payer spends.\<close>

theorem message_lands_in_first_free_slot:
  assumes "solana rt pid"
    and "process_fill_slot rt pid accounts kind body cands i j ra rs max_fee L = Inr L'"
  shows "\<exists>payer th st ts fs sp rest t now before cand a after.
    accounts = payer # th # st # ts # fs # sp # rest \<and> is_signer payer \<and>
    length body \<le> MAX_BODY_LEN \<and> thread_at rt pid L (ai_key th) = Some t \<and>
    rt_clock rt = Inr now \<and> zip cands rest = before @ (cand, a) # after \<and>
    (\<forall>(d, b)\<in>set before. \<not> is_uninitialized rt b L \<or> ai_key b \<in> {ai_key ts, ai_key fs}) \<and>
    cs_alloc_seq cand \<le> tn_last_alloc_seq t \<and> unat (cs_slot cand) < CONTENT_SLOTS \<and>
    ai_key a = fst (derive_content_pda rt pid (ai_key th) (cs_alloc_seq cand) (cs_slot cand)) \<and>
    is_uninitialized rt a L \<and>
    content_at rt pid L' (ai_key a) = Some
      \<lparr>cn_header = \<lparr>ch_tag = TAG_CONTENT, ch_alloc_seq = cs_alloc_seq cand,
         ch_slot = cs_slot cand, ch_thread = ai_key th, ch_author = ai_key payer,
         ch_created_at = now, ch_reply_alloc_seq = ra, ch_reply_slot = rs\<rparr>,
       cn_kind = kind, cn_body = body\<rparr> \<and>
    effect pid {ai_key a} {ai_key payer} L L'"
  by (rule solana.fill_slot_posts [OF assms])

theorem message_lands_in_first_free_slot_witness:
  "content_at (ref_rt 1000) ref_pid (ok_value (process_fill_slot (ref_rt 1000) ref_pid
     [signer_info 23, plain_info 30, plain_info 254147, plain_info 32017, plain_info 624592,
      plain_info 0, plain_info 398068, plain_info 398325, plain_info 870984, plain_info 438771]
     0 [97] [\<lparr>cs_alloc_seq = 0, cs_slot = 0\<rparr>, \<lparr>cs_alloc_seq = 0, cs_slot = 1\<rparr>] 3 1 0 0 1000000
     stage)) 398325 = Some
      \<lparr>cn_header = \<lparr>ch_tag = TAG_CONTENT, ch_alloc_seq = 0, ch_slot = 1, ch_thread = 30,
         ch_author = 23, ch_created_at = 1000, ch_reply_alloc_seq = 0, ch_reply_slot = 0\<rparr>,
       cn_kind = 0, cn_body = [97]\<rparr>"
proof -
  have run: "is_ok (process_fill_slot (ref_rt 1000) ref_pid
     [signer_info 23, plain_info 30, plain_info 254147, plain_info 32017, plain_info 624592,
      plain_info 0, plain_info 398068, plain_info 398325, plain_info 870984, plain_info 438771]
     0 [97] [\<lparr>cs_alloc_seq = 0, cs_slot = 0\<rparr>, \<lparr>cs_alloc_seq = 0, cs_slot = 1\<rparr>] 3 1 0 0 1000000
     stage)"
    by (simp add: run_simps cong: run_congs)
  from message_lands_in_first_free_slot [OF ref_runtime.solana_axioms is_ok_ok_value [OF run]]
  show ?thesis
    by (auto simp: signer_info_def plain_info_def is_uninitialized_def ledger_defs
        program_account_def ref_system_id_def Cons_eq_append_conv)
qed

text \<open>C15. Who may post is decided by the policy \<open>may_post\<close>, and by nothing else: where the access
  account and the payer's entry are unset or the thread's own, the two checks and the test after
  them admit exactly the admitted wallets, tell whether they pay the author, and refuse the
  others with \<open>AccessDenied\<close>.\<close>

theorem access_checks_implement_policy:
  assumes "solana rt pid"
    and "ai_key access = access_address rt pid thread"
    and "ai_key entry = fst (derive_access_entry_pda rt pid thread (ai_key payer))"
    and "is_uninitialized rt access L \<or>
      (\<exists>x. access_at rt pid L (ai_key access) = Some x \<and> ta_thread x = thread)"
    and "is_uninitialized rt entry L \<or> (\<exists>e. entry_at rt pid L (ai_key entry) = Some e \<and>
      ae_thread e = thread \<and> ae_wallet e = ai_key payer)"
  shows "attempt (gating_of rt pid access thread L) (\<lambda>gating_enabled.
      attempt (standing_of rt pid entry thread payer t L) (\<lambda>(allowed, exempt).
      if gating_enabled \<and> \<not> allowed then err AccessDenied else Inr exempt)) =
    (if may_post rt pid L thread (tn_author t) (ai_key payer)
     then Inr (fee_exempt rt pid L thread (tn_author t) (ai_key payer)) else err AccessDenied)"
proof -
  have g: "gating_of rt pid access thread L = Inr (gated rt pid L thread)"
  proof (cases "is_uninitialized rt access L")
    case True
    with solana.uninitialized_no_view(2) [OF assms(1) True] assms(2) show ?thesis
      by (simp add: gating_of_iff gated_def access_of_def)
  next
    case False
    with assms(2,4) show ?thesis by (auto simp: gating_of_iff gated_def access_of_def)
  qed
  show ?thesis
  proof (cases "is_uninitialized rt entry L")
    case True
    with solana.uninitialized_no_view(1) [OF assms(1) True] assms(3) show ?thesis
      by (simp add: g standing_of_def Let_def may_post_def fee_exempt_def entry_status_def)
  next
    case False
    with assms(5) obtain e where e: "entry_at rt pid L (ai_key entry) = Some e"
      "ae_thread e = thread" "ae_wallet e = ai_key payer" by blast
    then have "load_bound_access_entry rt pid entry thread (ai_key payer) L = Inr e"
      by (simp add: load_bound_access_entry_iff)
    with False e(1) assms(3) show ?thesis
      by (simp add: g standing_of_def Let_def may_post_def fee_exempt_def entry_status_def)
  qed
qed

text \<open>On a gated thread, a wallet without an entry.\<close>

theorem access_checks_implement_policy_witness:
  "attempt (gating_of (ref_rt 0) ref_pid (plain_info 870984) 30 stage) (\<lambda>gating_enabled.
      attempt (standing_of (ref_rt 0) ref_pid (plain_info 438257) 30 (signer_info 21) stage_thread
        stage) (\<lambda>(allowed, exempt).
      if gating_enabled \<and> \<not> allowed then err AccessDenied else Inr exempt)) = err AccessDenied"
proof -
  have "\<not> may_post (ref_rt 0) ref_pid stage 30 20 21"
    by (simp add: may_post_def gated_def access_of_def access_address_def entry_status_def
        view_defs stored_def program_account_def wallet_account_def stage_structs ref_system_id_def
        tag_defs status_defs)
  moreover have "is_uninitialized (ref_rt 0) (plain_info 438257) stage"
    by (simp add: run_simps)
  moreover have "access_at (ref_rt 0) ref_pid stage 870984 = Some stage_access"
    by (simp add: run_simps)
  ultimately show ?thesis
    using access_checks_implement_policy [OF ref_runtime.solana_axioms, of "plain_info 870984" 0 30
        "plain_info 438257" "signer_info 21" stage stage_thread]
    by (simp add: access_address_def plain_info_def signer_info_def stage_thread_def
        stage_access_def)
qed

text \<open>C35. The loop is a search: over candidates that are in range and matched by their accounts,
  it fills the first whose account is free, and answers \<open>NoFreeSlot\<close> when there is none.\<close>

theorem fill_loop_is_first_free_search:
  assumes "\<forall>(d, b)\<in>set cs. cs_alloc_seq d \<le> tn_last_alloc_seq (fc_thread c) \<and>
      unat (cs_slot d) < CONTENT_SLOTS \<and>
      ai_key b = fst (derive_content_pda rt pid (fc_thread_key c) (cs_alloc_seq d) (cs_slot d))"
  shows "fill_loop rt pid c cs L =
    (case find (\<lambda>(d, b). is_uninitialized rt b L) cs of
       None \<Rightarrow> err NoFreeSlot
     | Some (d, b) \<Rightarrow> fill_candidate rt pid c d b
         (snd (derive_content_pda rt pid (fc_thread_key c) (cs_alloc_seq d) (cs_slot d))) L)"
  using assms
  by (intro fill_loop_find) (simp add: candidate_valid_def candidate_address_def)

text \<open>The only candidate is taken by the message on the stage.\<close>

definition stage_post :: fill_context where
  "stage_post = \<lparr>fc_payer = signer_info 23, fc_thread_key = 30, fc_thread = stage_thread,
     fc_settings = stage_settings, fc_treasury_shard = plain_info 32017,
     fc_author_fee_shard = plain_info 624592, fc_system_program = plain_info 0,
     fc_fee_exempt = False, fc_created_at = 1000, fc_rent = ref_rent, fc_kind = 0,
     fc_body = [97], fc_reply_alloc_seq = 0, fc_reply_slot = 0, fc_max_fee = 1000000\<rparr>"

theorem fill_loop_is_first_free_search_witness:
  "fill_loop (ref_rt 0) ref_pid stage_post
     [(\<lparr>cs_alloc_seq = 0, cs_slot = 0\<rparr>, plain_info 398068)] stage = err NoFreeSlot"
proof -
  have no: "\<not> is_uninitialized (ref_rt 0) (plain_info 398068) stage"
    by (simp add: run_simps)
  show ?thesis
    by (subst fill_loop_is_first_free_search)
      (simp_all add: no, simp add: stage_post_def stage_thread_def plain_info_def CONTENT_SLOTS_def)
qed

end
