(* ===== verification/Messages.thy ===== *)
theory Messages
  imports Posting
begin

text \<open>
  A message after it was posted: \<open>append_content.rs\<close>, \<open>close_account.rs\<close> and
  \<open>like_content.rs\<close>. The likes of the 32 slots of one alloc number share one account.
\<close>

section \<open>Appending\<close>

definition APPEND_WINDOW_SECS :: int where
  "APPEND_WINDOW_SECS = 120"

definition process_append_content ::
  "runtime \<Rightarrow> pubkey \<Rightarrow> account_info list \<Rightarrow> u8 list \<Rightarrow> u16 \<Rightarrow> u8 \<Rightarrow> ledger \<Rightarrow> ledger res" where
  "process_append_content rt pid accounts chunk treasury_shard_idx author_fee_shard_idx L =
     attempt (next_account_info accounts) (\<lambda>(payer, it).
     attempt (next_account_info it) (\<lambda>(content_account, it).
     attempt (next_account_info it) (\<lambda>(thread_account, it).
     attempt (next_account_info it) (\<lambda>(settings_account, it).
     attempt (next_account_info it) (\<lambda>(treasury_shard, it).
     attempt (next_account_info it) (\<lambda>(author_fee_shard, it).
     attempt (next_account_info it) (\<lambda>(system_program, it).
     attempt (assert_signer payer) (\<lambda>_.
     attempt (assert_writable content_account) (\<lambda>_.
     attempt (assert_owned_by content_account pid L) (\<lambda>_.
     attempt (assert_fee_shard_accounts rt treasury_shard author_fee_shard system_program) (\<lambda>_.
     attempt (load_thread rt pid thread_account L) (\<lambda>_.
     attempt (load_settings rt pid settings_account L) (\<lambda>settings.
     let thread_key = ai_key thread_account in
     attempt (validate_fee_shards rt pid treasury_shard author_fee_shard thread_key
       treasury_shard_idx author_fee_shard_idx) (\<lambda>(treasury_shard_bump, _).
     attempt (load_content rt pid content_account L) (\<lambda>content.
     if ch_thread (cn_header content) \<noteq> thread_key then err ThreadMismatch
     else if ch_author (cn_header content) \<noteq> ai_key payer then err Unauthorized
     else
     attempt (rt_clock rt) (\<lambda>now.
     let age = sint now - sint (ch_created_at (cn_header content)) in
     if age < - (2 ^ 63) \<or> age \<ge> 2 ^ 63 then Inl Panicked
     else if age > APPEND_WINDOW_SECS then err AppendWindowExpired
     else
     let new_body_len = length (cn_body content) + length chunk in
     if new_body_len > MAX_BODY_LEN then err TextTooLong
     else
     let old_size = ContentNode_size (length (cn_body content));
         content' = content\<lparr>cn_body := cn_body content @ chunk\<rparr>;
         new_size = ContentNode_size (length (cn_body content')) in
     attempt (rt_resize rt content_account new_size L) (\<lambda>L1.
     attempt (rt_rent rt) (\<lambda>rent.
     let required = rent new_size; current = lamports L1 content_account in
     attempt (if required > current
              then rt_transfer rt payer content_account (required - current) L1
              else Inr L1) (\<lambda>L2.
     let rent_delta = saturating_sub (rent new_size) (rent old_size) in
     attempt (if rent_delta > 0 then
                attempt (ensure_shard_initialized rt pid payer treasury_shard system_program
                  [TREASURY_SHARD_SEED, le_bytes 2 (unat treasury_shard_idx)]
                  treasury_shard_bump L2) (\<lambda>L3.
                collect_base_fee rt rent_delta (ps_base_fee_bps settings) payer
                  treasury_shard L3)
              else Inr L2) (\<lambda>L4.
     serialize (content_node_codec (rt_borsh rt)) content' content_account L4))))))))))))))))))))"

section \<open>Closing\<close>

text \<open>The optional third account: the likes of the message's alloc number, reset for its slot.
  An index past the array panics.\<close>

definition reset_likes ::
  "runtime \<Rightarrow> pubkey \<Rightarrow> content_node \<Rightarrow> account_info \<Rightarrow> ledger \<Rightarrow> ledger res" where
  "reset_likes rt pid content likes_account L =
     (let (expected_likes, _) = derive_likes_pda rt pid (ch_thread (cn_header content))
            (ch_alloc_seq (cn_header content)) in
      attempt (assert_pda likes_account expected_likes) (\<lambda>_.
      if \<not> is_uninitialized rt likes_account L then
        attempt (assert_writable likes_account) (\<lambda>_.
        attempt (assert_owned_by likes_account pid L) (\<lambda>_.
        attempt (load_alloc_likes rt likes_account L) (\<lambda>likes.
        if al_alloc_seq likes \<noteq> ch_alloc_seq (cn_header content) then err InvalidAllocSeq
        else
        let slot = unat (ch_slot (cn_header content)) in
        if slot \<ge> length (al_counts likes) then Inl Panicked
        else serialize (alloc_likes_codec (rt_borsh rt))
          (likes\<lparr>al_counts := (al_counts likes)[slot := 0]\<rparr>) likes_account L)))
      else Inr L))"

definition process_close_account ::
  "runtime \<Rightarrow> pubkey \<Rightarrow> account_info list \<Rightarrow> ledger \<Rightarrow> ledger res" where
  "process_close_account rt pid accounts L =
     attempt (next_account_info accounts) (\<lambda>(payer, it).
     attempt (next_account_info it) (\<lambda>(target_account, it).
     let likes_account = (case it of [] \<Rightarrow> None | a # _ \<Rightarrow> Some a) in
     attempt (assert_signer payer) (\<lambda>_.
     attempt (assert_writable target_account) (\<lambda>_.
     attempt (assert_owned_by target_account pid L) (\<lambda>_.
     attempt (read_tag target_account L) (\<lambda>tag.
     if tag = TAG_CONTENT then
       attempt (load_content rt pid target_account L) (\<lambda>content.
       if ch_author (cn_header content) \<noteq> ai_key payer then err Unauthorized
       else
       attempt (case likes_account of None \<Rightarrow> Inr L
                | Some a \<Rightarrow> reset_likes rt pid content a L) (\<lambda>L1.
       close_program_account rt target_account payer L1))
     else err InvalidTag))))))"

section \<open>Liking\<close>

definition process_like_content ::
  "runtime \<Rightarrow> pubkey \<Rightarrow> account_info list \<Rightarrow> u32 \<Rightarrow> u8 \<Rightarrow> u16 \<Rightarrow> u8 \<Rightarrow> u64 \<Rightarrow> ledger \<Rightarrow>
   ledger res" where
  "process_like_content rt pid accounts alloc_seq slot treasury_shard_idx author_fee_shard_idx
       max_fee L =
     (if unat slot \<ge> CONTENT_SLOTS then err InvalidSlot
      else
     attempt (next_account_info accounts) (\<lambda>(payer, it).
     attempt (next_account_info it) (\<lambda>(likes_account, it).
     attempt (next_account_info it) (\<lambda>(content_account, it).
     attempt (next_account_info it) (\<lambda>(thread_account, it).
     attempt (next_account_info it) (\<lambda>(settings_account, it).
     attempt (next_account_info it) (\<lambda>(treasury_shard, it).
     attempt (next_account_info it) (\<lambda>(author_fee_shard, it).
     attempt (next_account_info it) (\<lambda>(system_program, it).
     attempt (assert_signer payer) (\<lambda>_.
     attempt (assert_writable likes_account) (\<lambda>_.
     attempt (assert_fee_shard_accounts rt treasury_shard author_fee_shard system_program) (\<lambda>_.
     let thread_key = ai_key thread_account in
     attempt (load_content rt pid content_account L) (\<lambda>content.
     let (expected_content, _) = derive_content_pda rt pid thread_key alloc_seq slot in
     attempt (assert_pda content_account expected_content) (\<lambda>_.
     attempt (load_thread rt pid thread_account L) (\<lambda>thread.
     attempt (load_settings rt pid settings_account L) (\<lambda>settings.
     attempt (prepare_fee_shards rt pid payer treasury_shard author_fee_shard system_program
       thread_key treasury_shard_idx author_fee_shard_idx L) (\<lambda>L1.
     let (expected_likes, likes_bump) = derive_likes_pda rt pid thread_key alloc_seq in
     attempt (assert_pda likes_account expected_likes) (\<lambda>_.
     attempt (if owner L1 likes_account = rt_system_id rt \<and> length (data L1 likes_account) = 0 then
                let size = AllocLikes_size in
                attempt (create_pda_account rt pid payer likes_account system_program size
                  [LIKES_SEED, as_ref thread_key, le_bytes 4 (unat alloc_seq), [likes_bump]] L1)
                  (\<lambda>L2.
                let likes = \<lparr>al_tag = TAG_LIKES, al_alloc_seq = alloc_seq,
                  al_counts = replicate CONTENT_SLOTS 0\<rparr> in
                serialize (alloc_likes_codec (rt_borsh rt)) likes likes_account L2)
              else Inr L1) (\<lambda>L3.
     attempt (assert_owned_by likes_account pid L3) (\<lambda>_.
     attempt (load_alloc_likes rt likes_account L3) (\<lambda>likes.
     let n = saturating_add (al_counts likes ! unat slot) 1 in
     attempt (serialize (alloc_likes_codec (rt_borsh rt))
       (likes\<lparr>al_counts := (al_counts likes)[unat slot := n]\<rparr>) likes_account L3) (\<lambda>L4.
     if tn_like_fee thread > 0 \<and> ai_key payer \<noteq> ch_author (cn_header content) then
       if tn_like_fee thread > max_fee then err FeeExceedsMax
       else transfer_fee_split rt (tn_like_fee thread) (ps_like_cut_bps settings) payer
         author_fee_shard treasury_shard L4
     else Inr L4))))))))))))))))))))))"

lemmas message_run [run_simps] = reset_likes_def APPEND_WINDOW_SECS_def load_content_def
  process_append_content_def process_close_account_def process_like_content_def

text \<open>The counters of an alloc number; an account not yet created counts zero.\<close>

definition like_counts :: "runtime \<Rightarrow> pubkey \<Rightarrow> ledger \<Rightarrow> pubkey \<Rightarrow> u32 list" where
  "like_counts rt pid L k =
     (case likes_at rt pid L k of None \<Rightarrow> replicate CONTENT_SLOTS 0 | Some l \<Rightarrow> al_counts l)"

abbreviation no_likes :: "u32 \<Rightarrow> alloc_likes" where
  "no_likes seq \<equiv> \<lparr>al_tag = TAG_LIKES, al_alloc_seq = seq, al_counts = replicate CONTENT_SLOTS 0\<rparr>"

section \<open>What appending does\<close>

context solana
begin

lemma resize_shape:
  assumes "rt_resize rt a len L = Inr L1"
  shows "owner L1 a = owner L a" "length (data L1 a) = len" "k \<noteq> ai_key a \<Longrightarrow> L1 k = L k"
    "acc_lamports (L1 j) = acc_lamports (L j)"
  using resize_ok [OF assms] by (auto simp: owner_def data_def)

text \<open>The top-up of the message's account to its new rent, and the base fee on the difference.\<close>

lemma top_up:
  assumes "(if n > lamports L a then rt_transfer rt payer a (n - lamports L a) L else Inr L) = Inr L'"
  shows "effect pid K {ai_key payer} L L'" "ai_key payer \<noteq> ai_key a \<Longrightarrow> n \<le> lamports L' a"
proof -
  show "effect pid K {ai_key payer} L L'"
    using assms by (auto split: if_splits intro: transfer_effect)
  show "n \<le> lamports L' a" if ne: "ai_key payer \<noteq> ai_key a"
  proof (cases "n > lamports L a")
    case True
    with assms have "rt_transfer rt payer a (n - lamports L a) L = Inr L'" by simp
    from transfer_ok [OF this] ne show ?thesis by (auto simp: lamports_def move_lamports_acc)
  next
    case False
    with assms show ?thesis by auto
  qed
qed

lemma delta_fee:
  assumes "(if d > 0 then attempt (ensure_shard_initialized rt pid payer ts sp seeds bump L)
      (\<lambda>L1. collect_base_fee rt d bps payer ts L1) else Inr L) = Inr L'"
  shows "effect pid K {ai_key payer} L L'"
    "bps \<le> 10000 \<Longrightarrow> ai_key payer \<noteq> ai_key ts \<Longrightarrow>
      unat (lamports L ts) + unat d * unat bps div 10000 \<le> unat (lamports L' ts)"
proof -
  show "effect pid K {ai_key payer} L L'"
    using assms by (auto simp: attempt_Inr_iff split: if_splits
        intro: effect_trans ensure_shard_effect collect_base_fee_effect)
  show "unat (lamports L ts) + unat d * unat bps div 10000 \<le> unat (lamports L' ts)"
    if bps: "bps \<le> 10000" and ne: "ai_key payer \<noteq> ai_key ts"
  proof (cases "d > 0")
    case True
    with assms obtain L1 where
      1: "ensure_shard_initialized rt pid payer ts sp seeds bump L = Inr L1"
      and 2: "collect_base_fee rt d bps payer ts L1 = Inr L'"
      by (auto simp: attempt_Inr_iff)
    have "effect pid {} {ai_key payer} L L1" by (rule ensure_shard_effect [OF 1]) simp
    with collect_base_fee_paid [OF 2 bps ne] effect_balance [of pid "{}" "{ai_key payer}" L L1 ts] ne
    show ?thesis by auto
  next
    case False
    with assms show ?thesis by (simp add: not_less)
  qed
qed

lemma append_content_ok:
  assumes "process_append_content rt pid accounts chunk i j L = Inr L'"
  shows "\<exists>payer ca th st ts fs sp rest t s n now rent.
    accounts = payer # ca # th # st # ts # fs # sp # rest \<and> is_signer payer \<and>
    thread_at rt pid L (ai_key th) = Some t \<and> settings_at rt pid L (ai_key st) = Some s \<and>
    content_at rt pid L (ai_key ca) = Some n \<and>
    ai_key ca = content_address rt pid (cn_header n) \<and>
    ch_thread (cn_header n) = ai_key th \<and> ch_author (cn_header n) = ai_key payer \<and>
    rt_clock rt = Inr now \<and> rt_rent rt = Inr rent \<and>
    sint now - sint (ch_created_at (cn_header n)) \<le> APPEND_WINDOW_SECS \<and>
    length (cn_body n) + length chunk \<le> MAX_BODY_LEN \<and>
    content_at rt pid L' (ai_key ca) = Some (n\<lparr>cn_body := cn_body n @ chunk\<rparr>) \<and>
    effect pid {ai_key ca} {ai_key payer} L L' \<and>
    (ai_key payer \<noteq> ai_key ca \<longrightarrow>
      rent (ContentNode_size (length (cn_body n) + length chunk)) \<le> lamports L' ca) \<and>
    (ps_base_fee_bps s \<le> 10000 \<and> ai_key payer \<noteq> ai_key ts \<longrightarrow>
      unat (lamports L ts) +
        (unat (rent (ContentNode_size (length (cn_body n) + length chunk))) -
          unat (rent (ContentNode_size (length (cn_body n))))) * unat (ps_base_fee_bps s) div 10000
      \<le> unat (lamports L' ts))"
proof -
  let ?n' = "\<lambda>n. n\<lparr>cn_body := cn_body n @ chunk\<rparr>"
  let ?new = "\<lambda>n. ContentNode_size (length (cn_body n) + length chunk)"
  let ?delta = "\<lambda>rent n. saturating_sub (rent (?new n)) (rent (ContentNode_size (length (cn_body n))))"
  from assms obtain payer ca th st ts fs sp rest t s n now rent L1 L2 L4 where
    acc: "accounts = payer # ca # th # st # ts # fs # sp # rest" "is_signer payer"
      "thread_at rt pid L (ai_key th) = Some t" "settings_at rt pid L (ai_key st) = Some s"
    and n: "content_at rt pid L (ai_key ca) = Some n" "ai_key ca = content_address rt pid (cn_header n)"
      "ch_thread (cn_header n) = ai_key th" "ch_author (cn_header n) = ai_key payer"
    and sys: "rt_clock rt = Inr now" "rt_rent rt = Inr rent"
    and lim: "sint now - sint (ch_created_at (cn_header n)) \<le> APPEND_WINDOW_SECS"
      "length (cn_body n) + length chunk \<le> MAX_BODY_LEN"
    and grow: "rt_resize rt ca (?new n) L = Inr L1"
    and fund: "(if rent (?new n) > lamports L1 ca
       then rt_transfer rt payer ca (rent (?new n) - lamports L1 ca) L1 else Inr L1) = Inr L2"
    and fee: "(if ?delta rent n > 0 then
        attempt (ensure_shard_initialized rt pid payer ts sp
          [TREASURY_SHARD_SEED, le_bytes 2 (unat i)] (snd (derive_treasury_shard_pda rt pid i)) L2)
          (\<lambda>L3. collect_base_fee rt (?delta rent n) (ps_base_fee_bps s) payer ts L3)
       else Inr L2) = Inr L4"
    and put: "serialize (content_node_codec (rt_borsh rt)) (?n' n) ca L4 = Inr L'"
    by (auto simp: process_append_content_def Let_def case_prod_beta attempt_Inr_iff
        next_account_info_Inr_iff assert_Inr_iffs if_Inl_Inr_iff load_thread_iff load_settings_iff
        load_content_Inr_iff validate_fee_shards_iff not_less cong: if_cong)
  note g = resize_shape [OF grow]
  have own: "acc_owner (L (ai_key ca)) = pid" using content_view.view_owner [OF n(1)] .
  have tag: "ch_tag (cn_header n) = TAG_CONTENT"
    using n(1) by (simp add: content_at_def stored_Some_iff)
  let ?P = "{ai_key payer}"
  have e1: "effect pid {ai_key ca} ?P L L1" by (rule resize_effect [OF grow]) simp
  note e2 = top_up(1) [OF fund] and e4 = delta_fee(1) [OF fee]
  have e14: "effect pid K ?P L1 L4" for K by (rule effect_trans [OF e2 e4])
  have e5: "effect pid {ai_key ca} ?P L4 L'" by (rule serialize_effect [OF put]) simp
  have "owner L1 ca = pid" using g(1) own by (simp add: owner_def)
  then have "owner L4 ca = pid" "length (data L4 ca) = ?new n"
    using quiet_owned [OF effect_quiet [OF e14 [of "{}"]], of "ai_key ca"] g(2)
    by (simp_all add: owner_def data_def)
  then have body: "content_at rt pid L' (ai_key ca) = Some (?n' n)"
    using tag by (intro serialize_content [OF put]) simp_all
  have eff: "effect pid {ai_key ca} ?P L L'"
    by (rule effect_trans [OF e1 effect_trans [OF e14 e5]])
  have rent: "rent (?new n) \<le> lamports L' ca" if "ai_key payer \<noteq> ai_key ca"
    using top_up(2) [OF fund that] effect_spends [OF effect_trans [OF e4 e5]] that
    by (auto simp: spends_def lamports_def elim: order_trans)
  have paid: "unat (lamports L ts) +
        (unat (rent (?new n)) - unat (rent (ContentNode_size (length (cn_body n))))) *
          unat (ps_base_fee_bps s) div 10000 \<le> unat (lamports L' ts)"
    if "ps_base_fee_bps s \<le> 10000" and ne: "ai_key payer \<noteq> ai_key ts"
    using delta_fee(2) [OF fee that] effect_balance [OF effect_trans [OF e1 e2], of ts]
      effect_balance [OF e5, of ts] ne
    by (simp add: unat_saturating_sub)
  show ?thesis
    by (intro exI conjI) (fact acc n sys lim body eff | use rent paid in blast)+
qed


lemma likes_not_content: "likes_at rt pid L k = Some l \<Longrightarrow> content_at rt pid L k = None"
  by (cases "content_at rt pid L k") (auto dest!: view_tag_byte simp: tag_defs)

lemma uninitialized_no_likes: "is_uninitialized rt a L \<Longrightarrow> likes_at rt pid L (ai_key a) = None"
  using pid_not_system
  by (intro likes_view.view_unowned) (simp add: is_uninitialized_def owner_def)

lemma serialize_likes:
  assumes "serialize (alloc_likes_codec (rt_borsh rt)) l a L = Inr L'"
    and "owner L a = pid" "length (data L a) = AllocLikes_size" "al_tag l = TAG_LIKES"
  shows "likes_at rt pid L' (ai_key a) = Some l"
  using fmt.likes.serialize_exact [OF assms(1)] serialize_keeps [OF assms(1)] assms(2-4)
  by (simp add: likes_at_def stored_Some_iff owner_def data_def)

lemma likes_at_shape:
  assumes "likes_at rt pid L k = Some l"
  shows "acc_owner (L k) = pid" "length (acc_data (L k)) = AllocLikes_size" "al_tag l = TAG_LIKES"
    "length (al_counts l) = CONTENT_SLOTS"
proof -
  from assms have l: "acc_owner (L k) = pid"
    "try_from_slice (alloc_likes_codec (rt_borsh rt)) (acc_data (L k)) = Some l" "al_tag l = TAG_LIKES"
    by (simp_all add: likes_at_def stored_Some_iff)
  from l(2) have "enc (alloc_likes_codec (rt_borsh rt)) l \<noteq> None"
    by (simp add: fmt.likes.try_from_slice_iff)
  then have "length (al_counts l) = CONTENT_SLOTS" by (simp only: fmt.encodable_iff)
  with l fmt.likes.try_from_slice_size [OF l(2)]
  show "acc_owner (L k) = pid" "length (acc_data (L k)) = AllocLikes_size" "al_tag l = TAG_LIKES"
    "length (al_counts l) = CONTENT_SLOTS" by simp_all
qed

lemma reset_likes_ok:
  assumes "reset_likes rt pid n a L = Inr L'"
  shows "ai_key a = fst (derive_likes_pda rt pid (ch_thread (cn_header n)) (ch_alloc_seq (cn_header n)))"
    "k \<noteq> ai_key a \<Longrightarrow> L' k = L k" "acc_lamports (L' j) = acc_lamports (L j)"
    "effect pid {ai_key a} P L L'"
    "L' = L \<and> is_uninitialized rt a L \<or>
     (\<exists>l. likes_at rt pid L (ai_key a) = Some l \<and> al_alloc_seq l = ch_alloc_seq (cn_header n) \<and>
       unat (ch_slot (cn_header n)) < CONTENT_SLOTS \<and>
       likes_at rt pid L' (ai_key a) =
         Some (l\<lparr>al_counts := (al_counts l)[unat (ch_slot (cn_header n)) := 0]\<rparr>))"
proof -
  let ?slot = "unat (ch_slot (cn_header n))"
  from assms have
    key: "ai_key a = fst (derive_likes_pda rt pid (ch_thread (cn_header n)) (ch_alloc_seq (cn_header n)))"
    and cases: "is_uninitialized rt a L \<and> L' = L \<or>
      (\<exists>l. likes_at rt pid L (ai_key a) = Some l \<and> al_alloc_seq l = ch_alloc_seq (cn_header n) \<and>
        ?slot < length (al_counts l) \<and>
        serialize (alloc_likes_codec (rt_borsh rt)) (l\<lparr>al_counts := (al_counts l)[?slot := 0]\<rparr>) a L
          = Inr L')"
    by (auto simp: reset_likes_def Let_def case_prod_beta attempt_Inr_iff assert_Inr_iffs
        if_Inl_Inr_iff load_alloc_likes_iff not_le split: if_splits)
  show "ai_key a = fst (derive_likes_pda rt pid (ch_thread (cn_header n)) (ch_alloc_seq (cn_header n)))"
    by (rule key)
  show "k \<noteq> ai_key a \<Longrightarrow> L' k = L k"
    using cases by (auto dest: serialize_other)
  show "acc_lamports (L' j) = acc_lamports (L j)"
    using cases by (auto dest: serialize_keeps(2))
  show "effect pid {ai_key a} P L L'"
    using cases by (auto intro: serialize_effect)
  show "L' = L \<and> is_uninitialized rt a L \<or>
     (\<exists>l. likes_at rt pid L (ai_key a) = Some l \<and> al_alloc_seq l = ch_alloc_seq (cn_header n) \<and>
       ?slot < CONTENT_SLOTS \<and>
       likes_at rt pid L' (ai_key a) = Some (l\<lparr>al_counts := (al_counts l)[?slot := 0]\<rparr>))"
    using cases
  proof
    assume "\<exists>l. likes_at rt pid L (ai_key a) = Some l \<and> al_alloc_seq l = ch_alloc_seq (cn_header n) \<and>
        ?slot < length (al_counts l) \<and>
        serialize (alloc_likes_codec (rt_borsh rt)) (l\<lparr>al_counts := (al_counts l)[?slot := 0]\<rparr>) a L
          = Inr L'"
    then obtain l where l: "likes_at rt pid L (ai_key a) = Some l"
      "al_alloc_seq l = ch_alloc_seq (cn_header n)" "?slot < length (al_counts l)"
      and put: "serialize (alloc_likes_codec (rt_borsh rt))
        (l\<lparr>al_counts := (al_counts l)[?slot := 0]\<rparr>) a L = Inr L'"
      by blast
    note s = likes_at_shape [OF l(1)]
    have "likes_at rt pid L' (ai_key a) = Some (l\<lparr>al_counts := (al_counts l)[?slot := 0]\<rparr>)"
      using s by (intro serialize_likes [OF put]) (simp_all add: owner_def data_def)
    with l s show ?thesis by auto
  qed simp
qed

lemma close_account_ok:
  assumes "process_close_account rt pid accounts L = Inr L'"
  shows "\<exists>payer a rest n L1. accounts = payer # a # rest \<and> is_signer payer \<and>
    content_at rt pid L (ai_key a) = Some n \<and> ai_key a = content_address rt pid (cn_header n) \<and>
    ch_author (cn_header n) = ai_key payer \<and>
    acc_data (L' (ai_key a)) = [] \<and> acc_owner (L' (ai_key a)) = rt_system_id rt \<and>
    (rest = [] \<and> L1 = L \<or>
      (\<exists>lk tail. rest = lk # tail \<and> ai_key lk \<noteq> ai_key a \<and> reset_likes rt pid n lk L = Inr L1 \<and>
        acc_owner (L' (ai_key lk)) = acc_owner (L1 (ai_key lk)) \<and>
        acc_data (L' (ai_key lk)) = acc_data (L1 (ai_key lk)))) \<and>
    quiet pid (insert (ai_key a) (ai_key ` set (take 1 rest))) L L' \<and>
    (ai_key payer \<noteq> ai_key a \<longrightarrow>
      lamports L' a = 0 \<and> unat (lamports L' payer) = unat (lamports L payer) + unat (lamports L a) \<and>
      effect pid (insert (ai_key a) (ai_key ` set (take 1 rest))) {ai_key a} L L')"
proof -
  from assms obtain payer a rest n L1 where
    acc: "accounts = payer # a # rest" "is_signer payer"
      "content_at rt pid L (ai_key a) = Some n" "ai_key a = content_address rt pid (cn_header n)"
      "ch_author (cn_header n) = ai_key payer"
    and reset: "(case (case rest of [] \<Rightarrow> None | lk # _ \<Rightarrow> Some lk) of None \<Rightarrow> Inr L
        | Some lk \<Rightarrow> reset_likes rt pid n lk L) = Inr L1"
    and close: "close_program_account rt a payer L1 = Inr L'"
    by (auto simp: process_close_account_def Let_def case_prod_beta attempt_Inr_iff
        next_account_info_Inr_iff assert_Inr_iffs if_Inl_Inr_iff load_content_Inr_iff)
  note c = close_program_account_contents [OF close]
  let ?K = "insert (ai_key a) (ai_key ` set (take 1 rest))"
  have r: "rest = [] \<and> L1 = L \<or>
      (\<exists>lk tail. rest = lk # tail \<and> ai_key lk \<noteq> ai_key a \<and> reset_likes rt pid n lk L = Inr L1 \<and>
        acc_owner (L' (ai_key lk)) = acc_owner (L1 (ai_key lk)) \<and>
        acc_data (L' (ai_key lk)) = acc_data (L1 (ai_key lk))) \<and>
      L1 (ai_key a) = L (ai_key a)"
  proof (cases rest)
    case Nil
    with reset show ?thesis by simp
  next
    case (Cons lk tail)
    with reset have run: "reset_likes rt pid n lk L = Inr L1" by simp
    note k = reset_likes_ok [OF run]
    have ne: "ai_key lk \<noteq> ai_key a"
    proof
      assume eq: "ai_key lk = ai_key a"
      with acc(3) owned_initialized [of L a] have "\<not> is_uninitialized rt lk L"
        using content_view.view_owner [OF acc(3)] by (simp add: is_uninitialized_def owner_def data_def)
      with k(5) obtain l where "likes_at rt pid L (ai_key lk) = Some l" by blast
      from likes_not_content [OF this] eq acc(3) show False by simp
    qed
    with k(2) have "L1 (ai_key a) = L (ai_key a)" by simp
    with c(3) [OF ne] show ?thesis using Cons run ne by blast
  qed
  have e1: "effect pid ?K {ai_key a} L L1"
  proof (cases rest)
    case Nil
    with r show ?thesis by simp
  next
    case (Cons lk tail)
    with r have "reset_likes rt pid n lk L = Inr L1" by auto
    note e = reset_likes_ok(4) [OF this]
    show ?thesis using Cons by (auto intro!: effect_mono [OF e])
  qed
  have "quiet pid ?K L1 L'" using c(3) by (auto simp: quiet_def)
  with effect_quiet [OF e1] have q: "quiet pid ?K L L'" by (rule quiet_trans)
  have "lamports L' a = 0 \<and> unat (lamports L' payer) = unat (lamports L payer) + unat (lamports L a) \<and>
      effect pid ?K {ai_key a} L L'" if "ai_key payer \<noteq> ai_key a"
  proof -
    from that have ne: "ai_key a \<noteq> ai_key payer" by simp
    note m = close_program_account_ok [OF close ne]
    have "lamports L1 k = lamports L k" for k :: account_info
      using r reset_likes_ok(3) by (auto simp: lamports_def)
    moreover have "effect pid ?K {ai_key a} L1 L'"
      by (rule close_program_account_effect [OF close ne]) simp_all
    ultimately show ?thesis using m(1,4) effect_trans [OF e1] by simp
  qed
  with acc c(1,2) r q show ?thesis by blast
qed

text \<open>The counters' account, created with zeros where there is none, and the like's fee.\<close>

lemma open_likes:
  assumes "(if is_uninitialized rt lk L then
      attempt (create_pda_account rt pid payer lk sp AllocLikes_size seeds L)
        (serialize (alloc_likes_codec (rt_borsh rt)) (no_likes seq) lk)
     else Inr L) = Inr L'"
    and "likes_at rt pid L' (ai_key lk) = Some l"
  shows "al_counts l = like_counts rt pid L (ai_key lk)"
    "tag_byte pid L (ai_key lk) \<in> {None, Some TAG_LIKES}"
    "effect pid {ai_key lk} {ai_key payer} L L'"
proof -
  have "al_counts l = like_counts rt pid L (ai_key lk) \<and>
    tag_byte pid L (ai_key lk) \<in> {None, Some TAG_LIKES} \<and>
    effect pid {ai_key lk} {ai_key payer} L L'"
  proof (cases "is_uninitialized rt lk L")
    case True
    with assms(1) obtain L1 where
      1: "create_pda_account rt pid payer lk sp AllocLikes_size seeds L = Inr L1"
      and 2: "serialize (alloc_likes_codec (rt_borsh rt)) (no_likes seq) lk L1 = Inr L'"
      by (auto simp: attempt_Inr_iff)
    have small: "AllocLikes_size < 2 ^ 64" by (simp add: size_defs)
    have "likes_at rt pid L' (ai_key lk) = Some (no_likes seq)"
      using create_pda_account_ok(3,4) [OF 1 small] by (intro serialize_likes [OF 2]) simp_all
    with assms(2) have "l = no_likes seq" by simp
    moreover have "effect pid {ai_key lk} {ai_key payer} L L'"
      by (rule effect_trans [OF create_pda_account_effect [OF 1] serialize_effect [OF 2]]) simp_all
    ultimately show ?thesis
      using uninitialized_no_likes [OF True] tags(10) [OF True] by (simp add: like_counts_def)
  next
    case False
    with assms(1) have "L' = L" by simp
    with assms(2) show ?thesis by (auto simp: like_counts_def dest: tags)
  qed
  then show "al_counts l = like_counts rt pid L (ai_key lk)"
    "tag_byte pid L (ai_key lk) \<in> {None, Some TAG_LIKES}"
    "effect pid {ai_key lk} {ai_key payer} L L'"
    by blast+
qed

lemma like_fee:
  assumes "(if fee > 0 \<and> charged then
      if fee > max_fee then err FeeExceedsMax else transfer_fee_split rt fee bps payer fs ts L
     else Inr L) = Inr L'"
  shows "effect pid K {ai_key payer} L L'"
    "fee > 0 \<and> charged \<Longrightarrow> fee \<le> max_fee"
    "fee > 0 \<and> charged \<Longrightarrow> ai_key payer \<notin> {ai_key ts, ai_key fs} \<Longrightarrow>
      unat (lamports L ts) + unat (snd (compute_fee_split fee bps)) \<le> unat (lamports L' ts) \<and>
      unat (lamports L fs) + unat (fst (compute_fee_split fee bps)) \<le> unat (lamports L' fs)"
proof -
  show "effect pid K {ai_key payer} L L'"
    using assms by (auto split: if_splits intro: transfer_fee_split_effect)
  assume due: "fee > 0 \<and> charged"
  with assms show "fee \<le> max_fee" by (auto split: if_splits)
  assume "ai_key payer \<notin> {ai_key ts, ai_key fs}"
  moreover from assms due have "transfer_fee_split rt fee bps payer fs ts L = Inr L'"
    by (auto split: if_splits)
  ultimately show "unat (lamports L ts) + unat (snd (compute_fee_split fee bps)) \<le> unat (lamports L' ts) \<and>
      unat (lamports L fs) + unat (fst (compute_fee_split fee bps)) \<le> unat (lamports L' fs)"
    using transfer_fee_split_paid by auto
qed

lemma like_content_ok:
  assumes "process_like_content rt pid accounts alloc_seq slot i j max_fee L = Inr L'"
  shows "\<exists>payer lk ca th st ts fs sp rest n t s l.
    accounts = payer # lk # ca # th # st # ts # fs # sp # rest \<and> is_signer payer \<and>
    unat slot < CONTENT_SLOTS \<and>
    content_at rt pid L (ai_key ca) = Some n \<and>
    ai_key ca = fst (derive_content_pda rt pid (ai_key th) alloc_seq slot) \<and>
    thread_at rt pid L (ai_key th) = Some t \<and> settings_at rt pid L (ai_key st) = Some s \<and>
    ai_key lk = fst (derive_likes_pda rt pid (ai_key th) alloc_seq) \<and>
    tag_byte pid L (ai_key lk) \<in> {None, Some TAG_LIKES} \<and>
    likes_at rt pid L' (ai_key lk) = Some l \<and>
    al_counts l = (like_counts rt pid L (ai_key lk))
      [unat slot := saturating_add (like_counts rt pid L (ai_key lk) ! unat slot) 1] \<and>
    effect pid {ai_key lk} {ai_key payer} L L' \<and>
    (tn_like_fee t > 0 \<and> ai_key payer \<noteq> ch_author (cn_header n) \<longrightarrow> tn_like_fee t \<le> max_fee \<and>
      (ai_key payer \<notin> {ai_key ts, ai_key fs} \<longrightarrow>
      unat (lamports L ts) + unat (snd (compute_fee_split (tn_like_fee t) (ps_like_cut_bps s)))
        \<le> unat (lamports L' ts) \<and>
      unat (lamports L fs) + unat (fst (compute_fee_split (tn_like_fee t) (ps_like_cut_bps s)))
        \<le> unat (lamports L' fs)))"
proof -
  let ?slot = "unat slot"
  let ?l = "\<lambda>l. l\<lparr>al_counts := (al_counts l)[?slot := saturating_add (al_counts l ! ?slot) 1]\<rparr>"
  from assms obtain payer lk ca th st ts fs sp rest n t s L1 L3 l L4 where
    acc: "accounts = payer # lk # ca # th # st # ts # fs # sp # rest" "is_signer payer"
      "?slot < CONTENT_SLOTS" "content_at rt pid L (ai_key ca) = Some n"
      "ai_key ca = fst (derive_content_pda rt pid (ai_key th) alloc_seq slot)"
      "thread_at rt pid L (ai_key th) = Some t" "settings_at rt pid L (ai_key st) = Some s"
      "ai_key lk = fst (derive_likes_pda rt pid (ai_key th) alloc_seq)"
    and shards: "prepare_fee_shards rt pid payer ts fs sp (ai_key th) i j L = Inr L1"
    and make: "(if is_uninitialized rt lk L1 then
        attempt (create_pda_account rt pid payer lk sp AllocLikes_size
          [LIKES_SEED, as_ref (ai_key th), le_bytes 4 (unat alloc_seq),
            [snd (derive_likes_pda rt pid (ai_key th) alloc_seq)]] L1)
          (serialize (alloc_likes_codec (rt_borsh rt)) (no_likes alloc_seq) lk)
       else Inr L1) = Inr L3"
    and l: "likes_at rt pid L3 (ai_key lk) = Some l"
    and put: "serialize (alloc_likes_codec (rt_borsh rt)) (?l l) lk L3 = Inr L4"
    and fee: "(if tn_like_fee t > 0 \<and> ai_key payer \<noteq> ch_author (cn_header n) then
        if tn_like_fee t > max_fee then err FeeExceedsMax
        else transfer_fee_split rt (tn_like_fee t) (ps_like_cut_bps s) payer fs ts L4
       else Inr L4) = Inr L'"
    by (simp add: process_like_content_def Let_def derive_split attempt_Inr_iff
        next_account_info_Inr_iff assert_Inr_iffs if_Inl_Inr_iff(1) load_thread_iff load_settings_iff
        load_content_Inr_iff load_alloc_likes_iff not_le cong: if_cong)
      (elim exE conjE, rule that, (assumption | simp only: is_uninitialized_def length_0_conv)+)
  let ?P = "{ai_key payer}" and ?K = "{ai_key lk}"
  let ?old = "like_counts rt pid L (ai_key lk)"
  have e1: "effect pid K ?P L L1" for K by (rule prepare_fee_shards_effect [OF shards]) simp
  have same: "likes_at rt pid L1 (ai_key lk) = likes_at rt pid L (ai_key lk)"
    "tag_byte pid L1 (ai_key lk) = tag_byte pid L (ai_key lk)"
    using likes_view.view_effect [OF e1 [of "{}"]] tag_view.view_effect [OF e1 [of "{}"]] by simp_all
  note o = open_likes [OF make l]
  from o(1,2) same have counts: "al_counts l = ?old"
    and kind: "tag_byte pid L (ai_key lk) \<in> {None, Some TAG_LIKES}"
    by (simp_all add: like_counts_def)
  note s = likes_at_shape [OF l]
  have new: "likes_at rt pid L4 (ai_key lk) = Some (?l l)"
    using s by (intro serialize_likes [OF put]) (simp_all add: owner_def data_def)
  have e4: "effect pid ?K ?P L3 L4" by (rule serialize_effect [OF put]) simp
  note e5 = like_fee(1) [OF fee]
  have e14: "effect pid ?K ?P L L4" by (rule effect_trans [OF e1 effect_trans [OF o(3) e4]])
  have likes: "likes_at rt pid L' (ai_key lk) = Some (?l l)"
    using likes_view.view_effect [OF e5 [of "{}"]] new by simp
  have upd: "al_counts (?l l) = ?old[?slot := saturating_add (?old ! ?slot) 1]"
    by (simp add: counts)
  have eff: "effect pid ?K ?P L L'" by (rule effect_trans [OF e14 e5])
  have paid: "tn_like_fee t \<le> max_fee \<and> (ai_key payer \<notin> {ai_key ts, ai_key fs} \<longrightarrow>
      unat (lamports L ts) + unat (snd (compute_fee_split (tn_like_fee t) (ps_like_cut_bps s)))
        \<le> unat (lamports L' ts) \<and>
      unat (lamports L fs) + unat (fst (compute_fee_split (tn_like_fee t) (ps_like_cut_bps s)))
        \<le> unat (lamports L' fs))"
    if "tn_like_fee t > 0 \<and> ai_key payer \<noteq> ch_author (cn_header n)"
    using like_fee(2,3) [OF fee that] effect_balance [OF e14, of ts] effect_balance [OF e14, of fs]
    by auto
  from acc kind likes upd eff paid show ?thesis by blast
qed


lemma close_content_gone:
  assumes "process_close_account rt pid (payer # a # rest) L = Inr L'"
  shows "content_at rt pid L' (ai_key a) = None"
proof (rule content_view.view_empty)
  show "acc_data (L' (ai_key a)) = []" using close_account_ok [OF assms] by auto
qed

text \<open>The likes of a freed slot.\<close>

lemma close_likes:
  assumes "process_close_account rt pid (payer # a # rest) L = Inr L'"
    and "content_at rt pid L (ai_key a) = Some n"
    and lk: "lk = fst (derive_likes_pda rt pid (ch_thread (cn_header n)) (ch_alloc_seq (cn_header n)))"
  shows "rest = [] \<Longrightarrow> like_counts rt pid L' lk = like_counts rt pid L lk"
    "rest \<noteq> [] \<Longrightarrow> ai_key (hd rest) = lk"
    "rest \<noteq> [] \<Longrightarrow> like_counts rt pid L' lk =
      (like_counts rt pid L lk)[unat (ch_slot (cn_header n)) := 0]"
proof -
  from close_account_ok [OF assms(1)] assms(2) obtain L1 where
    gone: "acc_data (L' (ai_key a)) = []"
    and cases: "rest = [] \<and> L1 = L \<or>
      (\<exists>lk tail. rest = lk # tail \<and> ai_key lk \<noteq> ai_key a \<and> reset_likes rt pid n lk L = Inr L1 \<and>
        acc_owner (L' (ai_key lk)) = acc_owner (L1 (ai_key lk)) \<and>
        acc_data (L' (ai_key lk)) = acc_data (L1 (ai_key lk)))"
    and q: "quiet pid (insert (ai_key a) (ai_key ` set (take 1 rest))) L L'"
    by auto
  show "like_counts rt pid L' lk = like_counts rt pid L lk" if "rest = []"
  proof (cases "lk = ai_key a")
    case True
    have "likes_at rt pid L lk = None"
      using likes_not_content [of L lk] assms(2) True by (cases "likes_at rt pid L lk") auto
    with gone True show ?thesis by (simp add: like_counts_def likes_view.view_empty)
  next
    case False
    with likes_view.view_quiet [OF q] that show ?thesis by (simp add: like_counts_def)
  qed
  assume "rest \<noteq> []"
  with cases obtain b tail where b: "rest = b # tail" "reset_likes rt pid n b L = Inr L1"
    "acc_owner (L' (ai_key b)) = acc_owner (L1 (ai_key b))"
    "acc_data (L' (ai_key b)) = acc_data (L1 (ai_key b))"
    by auto
  note r = reset_likes_ok [OF b(2)] and same = likes_view.view_cong [of L' _ L1, OF b(3,4)]
  from r(1) b(1) show "ai_key (hd rest) = lk" by (simp add: lk)
  have key: "ai_key b = lk" using r(1) by (simp add: lk)
  have zeros: "(replicate k (0 :: u32))[j := 0] = replicate k 0" for k j
    by (metis list_update_id nth_replicate list_update_beyond length_replicate not_le)
  show "like_counts rt pid L' lk = (like_counts rt pid L lk)[unat (ch_slot (cn_header n)) := 0]"
    using r(5) same key uninitialized_no_likes [of b L]
    by (auto simp: like_counts_def zeros)
qed

end

text \<open>The tag byte of the stage's message, for runs that read it.\<close>

lemma stage_message_tag:
  "read_tag \<lparr>ai_key = 398068, is_signer = False, is_writable = True\<rparr> stage = Inr TAG_CONTENT"
proof -
  have "content_at (ref_rt 0) ref_pid stage 398068 = Some stage_message"
    by (simp add: run_simps)
  from ref_runtime.view_tag_byte(9) [OF this] show ?thesis
    by (auto simp: tag_byte_def read_tag_def data_def split: if_splits list.splits)
qed

section \<open>Properties\<close>

text \<open>C36. A message grows only by its author's hand, only within two minutes of its posting and
  only up to the size limit; it then reads exactly as the old text followed by the new, nothing
  else of the program's state changes, its account holds the rent of its new size, and the
  treasury got the base fee on the additional rent.\<close>

theorem append_extends_own_message:
  assumes "solana rt pid" "process_append_content rt pid accounts chunk i j L = Inr L'"
  shows "\<exists>payer ca th st ts fs sp rest s n now rent.
    accounts = payer # ca # th # st # ts # fs # sp # rest \<and> is_signer payer \<and>
    settings_at rt pid L (ai_key st) = Some s \<and>
    content_at rt pid L (ai_key ca) = Some n \<and> ch_thread (cn_header n) = ai_key th \<and>
    ch_author (cn_header n) = ai_key payer \<and> rt_clock rt = Inr now \<and> rt_rent rt = Inr rent \<and>
    sint now - sint (ch_created_at (cn_header n)) \<le> 120 \<and>
    length (cn_body n) + length chunk \<le> MAX_BODY_LEN \<and>
    content_at rt pid L' (ai_key ca) = Some (n\<lparr>cn_body := cn_body n @ chunk\<rparr>) \<and>
    effect pid {ai_key ca} {ai_key payer} L L' \<and>
    (ai_key payer \<noteq> ai_key ca \<longrightarrow>
      rent (ContentNode_size (length (cn_body n) + length chunk)) \<le> lamports L' ca) \<and>
    (settings_capped s \<and> ai_key payer \<noteq> ai_key ts \<longrightarrow>
      unat (lamports L ts) +
        (unat (rent (ContentNode_size (length (cn_body n) + length chunk))) -
          unat (rent (ContentNode_size (length (cn_body n))))) * unat (ps_base_fee_bps s) div 10000
      \<le> unat (lamports L' ts))"
proof -
  have cap: "settings_capped s \<Longrightarrow> ps_base_fee_bps s \<le> 10000" for s
    by (auto simp: settings_capped_def MAX_FEE_CUT_BPS_def elim: order_trans)
  from solana.append_content_ok [OF assms, unfolded APPEND_WINDOW_SECS_def] cap show ?thesis by blast
qed

theorem append_extends_own_message_witness:
  "content_at (ref_rt 1000) ref_pid (ok_value (process_append_content (ref_rt 1000) ref_pid
     [signer_info 21, plain_info 398068, plain_info 30, plain_info 254147, plain_info 32017,
      plain_info 624592, plain_info 0] [33] 3 1 stage)) 398068 =
   Some (stage_message\<lparr>cn_body := [104, 105, 33]\<rparr>)"
proof -
  have run: "is_ok (process_append_content (ref_rt 1000) ref_pid
     [signer_info 21, plain_info 398068, plain_info 30, plain_info 254147, plain_info 32017,
      plain_info 624592, plain_info 0] [33] 3 1 stage)"
    by (simp add: run_simps cong: run_congs)
  have "content_at (ref_rt 1000) ref_pid stage 398068 = Some stage_message"
    by (simp add: run_simps)
  with append_extends_own_message [OF ref_runtime.solana_axioms is_ok_ok_value [OF run]]
  show ?thesis by (auto simp: signer_info_def plain_info_def stage_message_def)
qed

text \<open>Closing is the author's alone: the message is gone, its account is empty, owned by the
  System Program and free for the next message, its lamports are back with the author, and no
  other program account changes except the likes account, if one was given.\<close>

theorem close_returns_the_account:
  assumes "solana rt pid" "process_close_account rt pid accounts L = Inr L'"
  shows "\<exists>payer a rest n. accounts = payer # a # rest \<and> is_signer payer \<and>
    content_at rt pid L (ai_key a) = Some n \<and> ch_author (cn_header n) = ai_key payer \<and>
    ai_key a = content_address rt pid (cn_header n) \<and>
    content_at rt pid L' (ai_key a) = None \<and> is_uninitialized rt a L' \<and>
    quiet pid (insert (ai_key a) (ai_key ` set (take 1 rest))) L L' \<and>
    (ai_key payer \<noteq> ai_key a \<longrightarrow> lamports L' a = 0 \<and> total L' = total L \<and>
      unat (lamports L' payer) = unat (lamports L payer) + unat (lamports L a))"
proof -
  from solana.close_account_ok [OF assms] obtain payer a :: account_info and rest n where
    c: "accounts = payer # a # rest" "is_signer payer" "content_at rt pid L (ai_key a) = Some n"
      "ch_author (cn_header n) = ai_key payer" "ai_key a = content_address rt pid (cn_header n)"
    and gone: "acc_data (L' (ai_key a)) = []" "acc_owner (L' (ai_key a)) = rt_system_id rt"
    and q: "quiet pid (insert (ai_key a) (ai_key ` set (take 1 rest))) L L'"
    and m: "ai_key payer \<noteq> ai_key a \<longrightarrow>
      lamports L' a = 0 \<and> unat (lamports L' payer) = unat (lamports L payer) + unat (lamports L a) \<and>
      effect pid (insert (ai_key a) (ai_key ` set (take 1 rest))) {ai_key a} L L'"
    by (elim exE conjE)
  have none: "content_at rt pid L' (ai_key a) = None"
    using solana.close_content_gone [OF assms(1) assms(2) [unfolded c(1)]] .
  have free: "is_uninitialized rt a L'"
    using gone by (simp add: is_uninitialized_def owner_def data_def)
  from m have "ai_key payer \<noteq> ai_key a \<longrightarrow> lamports L' a = 0 \<and> total L' = total L \<and>
      unat (lamports L' payer) = unat (lamports L payer) + unat (lamports L a)"
    by (auto dest: effect_total)
  with c none free q show ?thesis by blast
qed

theorem close_returns_the_account_witness:
  "is_uninitialized (ref_rt 0) (plain_info 398068) (ok_value (process_close_account (ref_rt 0)
     ref_pid [signer_info 21, plain_info 398068, plain_info 164693] stage))"
proof -
  have run: "is_ok (process_close_account (ref_rt 0) ref_pid
     [signer_info 21, plain_info 398068, plain_info 164693] stage)"
    by (simp add: run_simps stage_message_tag cong: run_congs)
  from close_returns_the_account [OF ref_runtime.solana_axioms is_ok_ok_value [OF run]]
  show ?thesis by auto
qed

text \<open>C37. The likes of a freed slot: if the caller passes the likes account, it must be the one of
  the message's alloc number, the slot's counter is zero afterwards and the others stay; if the
  caller leaves it out, every counter stays, so a later message in the slot inherits it.\<close>

theorem likes_after_close:
  assumes "solana rt pid" "process_close_account rt pid (payer # a # rest) L = Inr L'"
    and "content_at rt pid L (ai_key a) = Some n"
  shows "let lk = fst (derive_likes_pda rt pid (ch_thread (cn_header n)) (ch_alloc_seq (cn_header n)));
      slot = unat (ch_slot (cn_header n)) in
    (rest \<noteq> [] \<longrightarrow> ai_key (hd rest) = lk \<and>
      like_counts rt pid L' lk = (like_counts rt pid L lk)[slot := 0]) \<and>
    (rest = [] \<longrightarrow> like_counts rt pid L' lk = like_counts rt pid L lk)"
  using solana.close_likes [OF assms refl] by (simp add: Let_def)

theorem likes_after_close_witness:
  "like_counts (ref_rt 0) ref_pid (ok_value (process_close_account (ref_rt 0)
     ref_pid [signer_info 21, plain_info 398068, plain_info 164693] stage)) 164693 = replicate 32 0"
proof -
  have run: "is_ok (process_close_account (ref_rt 0) ref_pid
     [signer_info 21, plain_info 398068, plain_info 164693] stage)"
    by (simp add: run_simps stage_message_tag cong: run_congs)
  have "content_at (ref_rt 0) ref_pid stage (ai_key (plain_info 398068)) = Some stage_message"
    by (simp add: run_simps)
  from likes_after_close [OF ref_runtime.solana_axioms is_ok_ok_value [OF run] this]
  have "like_counts (ref_rt 0) ref_pid (ok_value (process_close_account (ref_rt 0)
     ref_pid [signer_info 21, plain_info 398068, plain_info 164693] stage)) 164693 =
     (like_counts (ref_rt 0) ref_pid stage 164693)[0 := 0]"
    by (simp add: stage_message_def Let_def)
  moreover have "like_counts (ref_rt 0) ref_pid stage 164693 = (replicate 32 0)[0 := 4]"
    by (simp add: like_counts_def run_simps)
  ultimately show ?thesis by (simp add: numeral_eq_Suc)
qed

end
