(* ===== verification/Sweep.thy ===== *)
theory Sweep
  imports Fees Loaders
begin

text \<open>
  Paying out the fee vaults: \<open>sweep_treasury.rs\<close> and \<open>sweep_author_fees.rs\<close>. The two loops
  differ in the validation of a shard and the recipient only; \<open>sweep_shards\<close> is their common
  body, over the locale \<open>shard_kind\<close>'s validation.
\<close>

fun sweep_shards ::
  "runtime \<Rightarrow> pubkey \<Rightarrow> (account_info \<Rightarrow> 'i \<Rightarrow> u8 res) \<Rightarrow> account_info \<Rightarrow> u64 \<Rightarrow>
   (account_info \<times> 'i) list \<Rightarrow> ledger \<Rightarrow> ledger res" where
  "sweep_shards rt pid validate recipient shard_rent_min [] L = Inr L"
| "sweep_shards rt pid validate recipient shard_rent_min ((shard_account, shard_idx) # rest) L =
     (if is_uninitialized rt shard_account L
      then sweep_shards rt pid validate recipient shard_rent_min rest L
      else
        attempt (assert_writable shard_account) (\<lambda>_.
        attempt (assert_owned_by shard_account pid L) (\<lambda>_.
        attempt (validate shard_account shard_idx) (\<lambda>_.
        attempt (sweep_shard_excess shard_account recipient shard_rent_min L) (\<lambda>L1.
        sweep_shards rt pid validate recipient shard_rent_min rest L1)))))"

definition process_sweep_treasury ::
  "runtime \<Rightarrow> pubkey \<Rightarrow> account_info list \<Rightarrow> u16 list \<Rightarrow> ledger \<Rightarrow> ledger res" where
  "process_sweep_treasury rt pid accounts shard_indices L =
     attempt (next_account_info accounts) (\<lambda>(settings_account, it).
     attempt (next_account_info it) (\<lambda>(treasury_wallet, it).
     attempt (load_settings rt pid settings_account L) (\<lambda>settings.
     if ai_key treasury_wallet \<noteq> ps_treasury settings then err InvalidTreasury
     else
     attempt (assert_writable treasury_wallet) (\<lambda>_.
     attempt (rt_rent rt) (\<lambda>rent.
     let shard_rent_min = rent 0; remaining = it in
     if remaining = [] then err NothingToSweep
     else if length remaining \<noteq> length shard_indices then err InvalidShard
     else sweep_shards rt pid (validate_treasury_shard rt pid) treasury_wallet shard_rent_min
       (zip remaining shard_indices) L)))))"

definition process_sweep_author_fees ::
  "runtime \<Rightarrow> pubkey \<Rightarrow> account_info list \<Rightarrow> u8 list \<Rightarrow> ledger \<Rightarrow> ledger res" where
  "process_sweep_author_fees rt pid accounts shard_indices L =
     attempt (next_account_info accounts) (\<lambda>(thread_account, it).
     attempt (next_account_info it) (\<lambda>(author_wallet, it).
     attempt (load_thread rt pid thread_account L) (\<lambda>thread.
     if ai_key author_wallet \<noteq> tn_author thread then err InvalidAuthor
     else
     attempt (assert_signer author_wallet) (\<lambda>_.
     attempt (assert_writable author_wallet) (\<lambda>_.
     attempt (rt_rent rt) (\<lambda>rent.
     let shard_rent_min = rent 0; thread_key = ai_key thread_account; remaining = it in
     if remaining = [] then err NothingToSweep
     else if length remaining \<noteq> length shard_indices then err InvalidShard
     else sweep_shards rt pid (validate_author_fee_shard rt pid thread_key) author_wallet
       shard_rent_min (zip remaining shard_indices) L))))))"

lemmas sweep_run [run_simps] = process_sweep_treasury_def process_sweep_author_fees_def

section \<open>The loop\<close>

text \<open>Each given shard that exists is validated and left with its rent-exempt minimum; what
  was above it goes to the recipient; nothing else moves.\<close>

lemma sweep_shards_ok:
  assumes "sweep_shards rt pid validate recipient m xs L = Inr L'"
  shows "acc_owner (L' k) = acc_owner (L k)" "acc_data (L' k) = acc_data (L k)"
    and "total L' = total L"
    and "k \<noteq> ai_key recipient \<Longrightarrow> k \<notin> (ai_key \<circ> fst) ` set xs \<Longrightarrow> L' k = L k"
    and "k \<noteq> ai_key recipient \<Longrightarrow> acc_lamports (L' k) \<le> acc_lamports (L k) \<and>
      min (acc_lamports (L k)) m \<le> acc_lamports (L' k)"
    and "(a, i) \<in> set xs \<Longrightarrow> \<not> is_uninitialized rt a L \<Longrightarrow> is_writable a \<and> owner L a = pid \<and>
      (\<exists>b. validate a i = Inr b) \<and>
      (ai_key a \<noteq> ai_key recipient \<longrightarrow> lamports L' a = min (lamports L a) m)"
proof -
  have "(\<forall>k. acc_owner (L' k) = acc_owner (L k) \<and> acc_data (L' k) = acc_data (L k)) \<and>
    total L' = total L \<and>
    (\<forall>k. k \<noteq> ai_key recipient \<longrightarrow> k \<notin> (ai_key \<circ> fst) ` set xs \<longrightarrow> L' k = L k) \<and>
    (\<forall>k. k \<noteq> ai_key recipient \<longrightarrow> acc_lamports (L' k) \<le> acc_lamports (L k) \<and>
      min (acc_lamports (L k)) m \<le> acc_lamports (L' k)) \<and>
    (\<forall>a i. (a, i) \<in> set xs \<longrightarrow> \<not> is_uninitialized rt a L \<longrightarrow> is_writable a \<and> owner L a = pid \<and>
      (\<exists>b. validate a i = Inr b) \<and>
      (ai_key a \<noteq> ai_key recipient \<longrightarrow> lamports L' a = min (lamports L a) m))"
    using assms
  proof (induction xs arbitrary: L)
    case Nil
    then show ?case by simp
  next
    case (Cons x xs)
    obtain a i where x: "x = (a, i)" by fastforce
    show ?case
    proof (cases "is_uninitialized rt a L")
      case True
      with Cons.prems x have "sweep_shards rt pid validate recipient m xs L = Inr L'" by simp
      from Cons.IH [OF this] True show ?thesis by (auto simp: x)
    next
      case False
      with Cons.prems x obtain b L1 where
        gate: "is_writable a" "owner L a = pid" "validate a i = Inr b"
        and one: "sweep_shard_excess a recipient m L = Inr L1"
        and rest: "sweep_shards rt pid validate recipient m xs L1 = Inr L'"
        by (auto simp: ok_simps)
      note o = sweep_shard_excess_ok [OF one]
      have u: "is_uninitialized rt c L1 = is_uninitialized rt c L" for c
        by (simp add: is_uninitialized_def owner_def data_def o(1,2))
      have le: "k \<noteq> ai_key recipient \<Longrightarrow> acc_lamports (L1 k) =
          (if k = ai_key a then min (acc_lamports (L k)) m else acc_lamports (L k))" for k
        using o(3) [of k] o(4) by (auto simp: lamports_def)
      note ih = Cons.IH [OF rest]
      have bound: "acc_lamports (L' k) \<le> acc_lamports (L k) \<and>
          min (acc_lamports (L k)) m \<le> acc_lamports (L' k)" if "k \<noteq> ai_key recipient" for k
        using ih le [OF that] that by (auto simp: min_def split: if_splits)
      have exact: "lamports L' c = min (lamports L c) m"
        if "(c, j) \<in> set xs" "\<not> is_uninitialized rt c L" "ai_key c \<noteq> ai_key recipient" for c j
        using ih that u le [OF that(3)] by (auto simp: lamports_def min_def split: if_splits)
      have this_one: "lamports L' a = min (lamports L a) m" if "ai_key a \<noteq> ai_key recipient"
        using bound [OF that] ih le [OF that] that by (auto simp: lamports_def min_def split: if_splits)
      show ?thesis
        using ih o(1,2,3,6) gate bound exact this_one u
        by (auto simp: x owner_def)
    qed
  qed
  then show "acc_owner (L' k) = acc_owner (L k)" "acc_data (L' k) = acc_data (L k)"
    and "total L' = total L"
    and "k \<noteq> ai_key recipient \<Longrightarrow> k \<notin> (ai_key \<circ> fst) ` set xs \<Longrightarrow> L' k = L k"
    and "k \<noteq> ai_key recipient \<Longrightarrow> acc_lamports (L' k) \<le> acc_lamports (L k) \<and>
      min (acc_lamports (L k)) m \<le> acc_lamports (L' k)"
    and "(a, i) \<in> set xs \<Longrightarrow> \<not> is_uninitialized rt a L \<Longrightarrow> is_writable a \<and> owner L a = pid \<and>
      (\<exists>b. validate a i = Inr b) \<and>
      (ai_key a \<noteq> ai_key recipient \<longrightarrow> lamports L' a = min (lamports L a) m)"
    by blast+
qed

text \<open>What a sweep of vaults into a wallet may do, over the accounts it was given: only the
  wallet gains, each vault keeps its minimum, nothing is created or rewritten, and accounts
  outside the list are untouched.\<close>

definition swept ::
  "runtime \<Rightarrow> pubkey \<Rightarrow> ('i \<Rightarrow> pubkey) \<Rightarrow> account_info \<Rightarrow> u64 \<Rightarrow> account_info list \<Rightarrow> 'i list \<Rightarrow>
   ledger \<Rightarrow> ledger \<Rightarrow> bool" where
  "swept rt pid vault_address recipient m shards indices L L' \<longleftrightarrow>
     total L' = total L \<and>
     (\<forall>k. acc_owner (L' k) = acc_owner (L k) \<and> acc_data (L' k) = acc_data (L k)) \<and>
     (\<forall>k. k \<noteq> ai_key recipient \<longrightarrow> acc_lamports (L' k) \<le> acc_lamports (L k)) \<and>
     (\<forall>k. k \<noteq> ai_key recipient \<longrightarrow> k \<notin> ai_key ` set shards \<longrightarrow> L' k = L k) \<and>
     (\<forall>n < length shards. \<not> is_uninitialized rt (shards ! n) L \<longrightarrow>
        owner L (shards ! n) = pid \<and> ai_key (shards ! n) = vault_address (indices ! n) \<and>
        (ai_key (shards ! n) \<noteq> ai_key recipient \<longrightarrow>
          lamports L' (shards ! n) = min (lamports L (shards ! n)) m))"

context shard_kind
begin

lemma sweep_loop:
  assumes "sweep_shards rt pid validate recipient m (zip shards indices) L = Inr L'"
    and "length shards = length indices"
  shows "swept rt pid (\<lambda>i. fst (derive i)) recipient m shards indices L L'"
proof -
  note o = sweep_shards_ok [OF assms(1)]
  have keys: "(ai_key \<circ> fst) ` set (zip shards indices) = ai_key ` set shards"
    using assms(2) by (metis image_comp list.set_map map_fst_zip)
  have "owner L (shards ! n) = pid \<and> ai_key (shards ! n) = fst (derive (indices ! n)) \<and>
      (ai_key (shards ! n) \<noteq> ai_key recipient \<longrightarrow>
        lamports L' (shards ! n) = min (lamports L (shards ! n)) m)"
    if "n < length shards" "\<not> is_uninitialized rt (shards ! n) L" for n
  proof -
    have "(shards ! n, indices ! n) \<in> set (zip shards indices)"
      using that(1) assms(2) by (auto simp: set_zip)
    from o(6) [OF this that(2)] show ?thesis by (auto simp: validate_iff)
  qed
  with o(1-5) keys show ?thesis unfolding swept_def by auto
qed

end

section \<open>Properties\<close>

text \<open>C24. A treasury sweep needs no authority because it can only do one thing: move what the
  listed treasury vaults hold above their rent to the treasury wallet of the settings.\<close>

theorem sweep_treasury_only_to_treasury:
  assumes "process_sweep_treasury rt pid accounts indices L = Inr L'"
  shows "\<exists>st w shards s rent. accounts = st # w # shards \<and>
    settings_at rt pid L (ai_key st) = Some s \<and>
    ai_key st = fst (derive_settings_pda rt pid) \<and> ai_key w = ps_treasury s \<and>
    rt_rent rt = Inr rent \<and> shards \<noteq> [] \<and> length shards = length indices \<and>
    swept rt pid (\<lambda>i. fst (derive_treasury_shard_pda rt pid i)) w (rent 0) shards indices L L'"
proof -
  from assms obtain st w shards s rent where
    "accounts = st # w # shards" "settings_at rt pid L (ai_key st) = Some s"
    "ai_key st = fst (derive_settings_pda rt pid)" "ai_key w = ps_treasury s"
    "rt_rent rt = Inr rent" "shards \<noteq> []" "length shards = length indices"
    and run: "sweep_shards rt pid (validate_treasury_shard rt pid) w (rent 0) (zip shards indices) L
      = Inr L'"
    by (auto simp: process_sweep_treasury_def Let_def attempt_Inr_iff next_account_info_Inr_iff
        load_settings_iff if_Inl_Inr_iff)
  with treasury_kind.sweep_loop [OF run] show ?thesis by blast
qed

theorem sweep_treasury_only_to_treasury_witness:
  "swept (ref_rt 0) ref_pid (\<lambda>i. fst (derive_treasury_shard_pda (ref_rt 0) ref_pid i))
     (plain_info 42) (ref_rent 0) [plain_info 32017] [3] stage
     (ok_value (process_sweep_treasury (ref_rt 0) ref_pid
       [plain_info 254147, plain_info 42, plain_info 32017] [3] stage))"
proof -
  have run: "is_ok (process_sweep_treasury (ref_rt 0) ref_pid
      [plain_info 254147, plain_info 42, plain_info 32017] [3] stage)"
    by (simp add: run_simps cong: run_congs)
  from sweep_treasury_only_to_treasury [OF is_ok_ok_value [OF run]] show ?thesis by auto
qed

text \<open>C31. Author vaults are swept by the thread's author only, by signature, and into the
  author's own wallet; the treasury's part is out of reach.\<close>

theorem sweep_author_fees_only_by_author:
  assumes "process_sweep_author_fees rt pid accounts indices L = Inr L'"
  shows "\<exists>th w shards t rent. accounts = th # w # shards \<and>
    thread_at rt pid L (ai_key th) = Some t \<and> ai_key w = tn_author t \<and> is_signer w \<and>
    rt_rent rt = Inr rent \<and> shards \<noteq> [] \<and> length shards = length indices \<and>
    swept rt pid (\<lambda>i. fst (derive_author_fee_pda rt pid (ai_key th) i)) w (rent 0)
      shards indices L L'"
proof -
  from assms obtain th w shards t rent where
    "accounts = th # w # shards" "thread_at rt pid L (ai_key th) = Some t"
    "ai_key w = tn_author t" "is_signer w"
    "rt_rent rt = Inr rent" "shards \<noteq> []" "length shards = length indices"
    and run: "sweep_shards rt pid (validate_author_fee_shard rt pid (ai_key th)) w (rent 0)
      (zip shards indices) L = Inr L'"
    by (auto simp: process_sweep_author_fees_def Let_def attempt_Inr_iff next_account_info_Inr_iff
        load_thread_iff assert_Inr_iffs if_Inl_Inr_iff)
  with author_kind.sweep_loop [OF run] show ?thesis by blast
qed

theorem sweep_author_fees_only_by_author_witness:
  "swept (ref_rt 0) ref_pid (\<lambda>i. fst (derive_author_fee_pda (ref_rt 0) ref_pid 30 i))
     (signer_info 20) (ref_rent 0) [plain_info 624592] [1] stage
     (ok_value (process_sweep_author_fees (ref_rt 0) ref_pid
       [plain_info 30, signer_info 20, plain_info 624592] [1] stage))"
proof -
  have run: "is_ok (process_sweep_author_fees (ref_rt 0) ref_pid
      [plain_info 30, signer_info 20, plain_info 624592] [1] stage)"
    by (simp add: run_simps cong: run_congs)
  from sweep_author_fees_only_by_author [OF is_ok_ok_value [OF run]] show ?thesis
    by (auto simp: plain_info_def)
qed

end
