(* ===== verification/Follow.thy ===== *)
theory Follow
  imports Loaders Fees
begin

text \<open>
  Follows: \<open>subscribe.rs\<close> and \<open>unsubscribe.rs\<close>. A user's registry is the list of followed
  threads at an address derived from the user; a thread's followers are counted in eight
  shards, the user's first byte choosing the shard.
\<close>

section \<open>Operations\<close>

definition process_subscribe ::
  "runtime \<Rightarrow> pubkey \<Rightarrow> account_info list \<Rightarrow> ledger \<Rightarrow> ledger res" where
  "process_subscribe rt pid accounts L =
     attempt (next_account_info accounts) (\<lambda>(user, it).
     attempt (next_account_info it) (\<lambda>(follow_registry, it).
     attempt (next_account_info it) (\<lambda>(follower_shard, it).
     attempt (next_account_info it) (\<lambda>(thread_account, it).
     attempt (next_account_info it) (\<lambda>(system_program, it).
     attempt (assert_signer user) (\<lambda>_.
     attempt (assert_writable user) (\<lambda>_.
     attempt (assert_writable follow_registry) (\<lambda>_.
     attempt (assert_writable follower_shard) (\<lambda>_.
     attempt (assert_system_program rt system_program) (\<lambda>_.
     attempt (load_thread rt pid thread_account L) (\<lambda>_.
     let thread_key = ai_key thread_account;
         (expected_registry, registry_bump) = derive_follow_registry_pda rt pid (ai_key user) in
     attempt (assert_pda follow_registry expected_registry) (\<lambda>_.
     let shard_idx = follower_shard_index (ai_key user);
         (expected_shard, shard_bump) = derive_follower_shard_pda rt pid thread_key shard_idx in
     attempt (assert_pda follower_shard expected_shard) (\<lambda>_.
     attempt
       (if is_uninitialized rt follow_registry L then
          attempt (create_pda_account rt pid user follow_registry system_program
            (FollowRegistry_size 0) [FOLLOWS_SEED, as_ref (ai_key user), [registry_bump]] L) (\<lambda>L1.
          let registry = \<lparr>fr_tag = TAG_FOLLOW_REGISTRY, fr_owner = ai_key user,
            fr_channels = []\<rparr> in
          attempt (serialize (follow_registry_codec (rt_borsh rt)) registry follow_registry L1)
            (\<lambda>L2. Inr (registry, L2)))
        else
          attempt (assert_owned_by follow_registry pid L) (\<lambda>_.
          attempt (load_follow_registry rt follow_registry L) (\<lambda>registry.
          if fr_owner registry \<noteq> ai_key user then err Unauthorized
          else Inr (registry, L)))) (\<lambda>(registry, L2).
     if list_ex (\<lambda>c. c = thread_key) (fr_channels registry) then err AlreadyFollowing
     else if length (fr_channels registry) \<ge> MAX_FOLLOWS then err FollowListFull
     else
     let registry = registry\<lparr>fr_channels := fr_channels registry @ [thread_key]\<rparr>;
         new_size = FollowRegistry_size (length (fr_channels registry)) in
     attempt (rt_resize rt follow_registry new_size L2) (\<lambda>L3.
     attempt (ensure_rent_exempt rt user follow_registry new_size L3) (\<lambda>L4.
     attempt (serialize (follow_registry_codec (rt_borsh rt)) registry follow_registry L4) (\<lambda>L5.
     if is_uninitialized rt follower_shard L5 then
       attempt (create_pda_account rt pid user follower_shard system_program FollowerShard_size
         [FOLLOWER_COUNT_SEED, as_ref thread_key, [shard_idx], [shard_bump]] L5) (\<lambda>L6.
       let shard = \<lparr>fs_tag = TAG_FOLLOWER_SHARD, fs_thread = thread_key, fs_shard = shard_idx,
         fs_count = 1\<rparr> in
       serialize (follower_shard_codec (rt_borsh rt)) shard follower_shard L6)
     else
       attempt (load_bound_follower_shard rt pid follower_shard thread_key shard_idx L5) (\<lambda>shard.
       attempt (ok_or (program_error_of InvalidAccountData) (checked_add (fs_count shard) 1))
         (\<lambda>n.
       serialize (follower_shard_codec (rt_borsh rt)) (shard\<lparr>fs_count := n\<rparr>)
         follower_shard L5)))))))))))))))))))"

definition process_unsubscribe ::
  "runtime \<Rightarrow> pubkey \<Rightarrow> account_info list \<Rightarrow> ledger \<Rightarrow> ledger res" where
  "process_unsubscribe rt pid accounts L =
     attempt (next_account_info accounts) (\<lambda>(user, it).
     attempt (next_account_info it) (\<lambda>(follow_registry, it).
     attempt (next_account_info it) (\<lambda>(follower_shard, it).
     attempt (next_account_info it) (\<lambda>(thread_account, it).
     attempt (next_account_info it) (\<lambda>(system_program, it).
     attempt (assert_signer user) (\<lambda>_.
     attempt (assert_writable user) (\<lambda>_.
     attempt (assert_writable follow_registry) (\<lambda>_.
     attempt (assert_writable follower_shard) (\<lambda>_.
     attempt (assert_system_program rt system_program) (\<lambda>_.
     attempt (assert_owned_by follow_registry pid L) (\<lambda>_.
     attempt (load_thread rt pid thread_account L) (\<lambda>_.
     let thread_key = ai_key thread_account;
         (expected_registry, _) = derive_follow_registry_pda rt pid (ai_key user) in
     attempt (assert_pda follow_registry expected_registry) (\<lambda>_.
     let shard_idx = follower_shard_index (ai_key user);
         (expected_shard, _) = derive_follower_shard_pda rt pid thread_key shard_idx in
     attempt (assert_pda follower_shard expected_shard) (\<lambda>_.
     attempt (load_follow_registry rt follow_registry L) (\<lambda>registry.
     if fr_owner registry \<noteq> ai_key user then err Unauthorized
     else
     attempt (ok_or (program_error_of NotFollowing)
       (position (\<lambda>c. c = thread_key) (fr_channels registry))) (\<lambda>pos.
     let registry = registry\<lparr>fr_channels := swap_remove pos (fr_channels registry)\<rparr>;
         new_size = FollowRegistry_size (length (fr_channels registry)) in
     attempt (rt_resize rt follow_registry new_size L) (\<lambda>L1.
     attempt (serialize (follow_registry_codec (rt_borsh rt)) registry follow_registry L1) (\<lambda>L2.
     attempt (rt_rent rt) (\<lambda>rent.
     let required = rent new_size; current = lamports L2 follow_registry in
     attempt (if current > required then
                let refund = current - required;
                    L3 = set_lamports follow_registry required L2 in
                attempt (ok_or (program_error_of InvalidAccountData)
                  (checked_add (lamports L3 user) refund)) (\<lambda>sum.
                Inr (set_lamports user sum L3))
              else Inr L2) (\<lambda>L4.
     if is_uninitialized rt follower_shard L4 then err NotFollowing
     else
     attempt (load_bound_follower_shard rt pid follower_shard thread_key shard_idx L4) (\<lambda>shard.
     serialize (follower_shard_codec (rt_borsh rt))
       (shard\<lparr>fs_count := saturating_sub (fs_count shard) 1\<rparr>)
       follower_shard L4)))))))))))))))))))))"

lemmas follow_run [run_simps] = process_subscribe_def process_unsubscribe_def
  follower_shard_index_def swap_remove_def

text \<open>What a user follows, and what a shard counts; accounts not yet created are empty.\<close>

definition follows :: "runtime \<Rightarrow> pubkey \<Rightarrow> ledger \<Rightarrow> pubkey \<Rightarrow> pubkey list" where
  "follows rt pid L k = (case registry_at rt pid L k of None \<Rightarrow> [] | Some r \<Rightarrow> fr_channels r)"

definition follower_count :: "runtime \<Rightarrow> pubkey \<Rightarrow> ledger \<Rightarrow> pubkey \<Rightarrow> pubkey \<Rightarrow> u8 \<Rightarrow> nat" where
  "follower_count rt pid L k thread i =
     (case follower_shard_at rt pid L k of
        None \<Rightarrow> 0
      | Some s \<Rightarrow> if fs_thread s = thread \<and> fs_shard s = i then unat (fs_count s) else 0)"

text \<open>The refund of the freed rent is a sweep of the registry down to its new minimum.\<close>

lemma refund_is_sweep:
  "(if lamports L reg > required then
      attempt (ok_or (program_error_of InvalidAccountData)
        (checked_add (lamports (set_lamports reg required L) user) (lamports L reg - required)))
        (\<lambda>sum. Inr (set_lamports user sum (set_lamports reg required L)))
    else Inr L) = sweep_shard_excess reg user required L"
  by (auto simp: sweep_shard_excess_def saturating_sub_def Let_def not_less word_neq_0_conv [symmetric])

text \<open>The two blocks of \<open>process_subscribe\<close> that open an account which may not exist yet: the
  user's registry, and the shard that counts the new follower.\<close>

abbreviation empty_registry :: "pubkey \<Rightarrow> follow_registry" where
  "empty_registry user \<equiv> \<lparr>fr_tag = TAG_FOLLOW_REGISTRY, fr_owner = user, fr_channels = []\<rparr>"

abbreviation first_follower :: "pubkey \<Rightarrow> u8 \<Rightarrow> follower_shard" where
  "first_follower thread i \<equiv>
     \<lparr>fs_tag = TAG_FOLLOWER_SHARD, fs_thread = thread, fs_shard = i, fs_count = 1\<rparr>"

abbreviation open_registry ::
  "runtime \<Rightarrow> pubkey \<Rightarrow> account_info \<Rightarrow> account_info \<Rightarrow> account_info \<Rightarrow> ledger \<Rightarrow>
   (follow_registry \<times> ledger) res" where
  "open_registry rt pid user reg sp L \<equiv>
     (if is_uninitialized rt reg L then
        attempt (create_pda_account rt pid user reg sp (FollowRegistry_size 0)
          [FOLLOWS_SEED, as_ref (ai_key user),
            [snd (derive_follow_registry_pda rt pid (ai_key user))]] L) (\<lambda>L1.
        attempt (serialize (follow_registry_codec (rt_borsh rt)) (empty_registry (ai_key user)) reg L1)
          (\<lambda>L2. Inr (empty_registry (ai_key user), L2)))
      else
        attempt (assert_owned_by reg pid L) (\<lambda>_.
        attempt (load_follow_registry rt reg L) (\<lambda>r.
        if fr_owner r \<noteq> ai_key user then err Unauthorized else Inr (r, L))))"

abbreviation count_follower ::
  "runtime \<Rightarrow> pubkey \<Rightarrow> account_info \<Rightarrow> account_info \<Rightarrow> account_info \<Rightarrow> pubkey \<Rightarrow> u8 \<Rightarrow> ledger \<Rightarrow>
   ledger res" where
  "count_follower rt pid user sh sp thread i L \<equiv>
     (if is_uninitialized rt sh L then
       attempt (create_pda_account rt pid user sh sp FollowerShard_size
         [FOLLOWER_COUNT_SEED, as_ref thread, [i],
           [snd (derive_follower_shard_pda rt pid thread i)]] L)
       (serialize (follower_shard_codec (rt_borsh rt)) (first_follower thread i) sh)
     else
       attempt (load_bound_follower_shard rt pid sh thread i L) (\<lambda>shard.
       attempt (ok_or (program_error_of InvalidAccountData) (checked_add (fs_count shard) 1))
         (\<lambda>n.
       serialize (follower_shard_codec (rt_borsh rt)) (shard\<lparr>fs_count := n\<rparr>) sh L)))"

section \<open>Effects\<close>

context solana
begin

lemma registry_not_shard: "registry_at rt pid L k = Some r \<Longrightarrow> follower_shard_at rt pid L k = None"
  by (cases "follower_shard_at rt pid L k") (auto dest!: view_tag_byte simp: tag_defs)

lemma uninitialized_no_follow:
  "is_uninitialized rt a L \<Longrightarrow> registry_at rt pid L (ai_key a) = None"
  "is_uninitialized rt a L \<Longrightarrow> follower_shard_at rt pid L (ai_key a) = None"
  using pid_not_system
  by (auto intro!: registry_view.view_unowned shard_view.view_unowned
      simp: is_uninitialized_def owner_def)

lemma serialize_registry:
  assumes "serialize (follow_registry_codec (rt_borsh rt)) r a L = Inr L'"
    and "owner L a = pid" "length (data L a) = FollowRegistry_size (length (fr_channels r))"
    and "fr_tag r = TAG_FOLLOW_REGISTRY"
  shows "registry_at rt pid L' (ai_key a) = Some r"
  using fmt.registry.serialize_exact [OF assms(1)] serialize_keeps [OF assms(1)] assms(2-4)
  by (simp add: registry_at_def stored_Some_iff owner_def data_def)

lemma serialize_shard:
  assumes "serialize (follower_shard_codec (rt_borsh rt)) s a L = Inr L'"
    and "owner L a = pid" "length (data L a) = FollowerShard_size" "fs_tag s = TAG_FOLLOWER_SHARD"
  shows "follower_shard_at rt pid L' (ai_key a) = Some s"
  using fmt.shard.serialize_exact [OF assms(1)] serialize_keeps [OF assms(1)] assms(2-4)
  by (simp add: follower_shard_at_def stored_Some_iff owner_def data_def)

lemma shard_at_shape:
  assumes "follower_shard_at rt pid L k = Some s"
  shows "acc_owner (L k) = pid" "length (acc_data (L k)) = FollowerShard_size"
    "fs_tag s = TAG_FOLLOWER_SHARD"
  using assms by (auto simp: follower_shard_at_def stored_Some_iff
      dest: fmt.shard.try_from_slice_size)

text \<open>A registry resized to the new length of its list and written again.\<close>

lemma rewrite_registry:
  assumes "rt_resize rt a (FollowRegistry_size (length (fr_channels r))) L = Inr L1"
    and "effect pid {} P L1 L2"
    and "serialize (follow_registry_codec (rt_borsh rt)) r a L2 = Inr L'"
    and "acc_owner (L (ai_key a)) = pid" "fr_tag r = TAG_FOLLOW_REGISTRY"
  shows "registry_at rt pid L' (ai_key a) = Some r" "effect pid {ai_key a} P L L'"
proof -
  have L1: "acc_owner (L1 (ai_key a)) = pid"
    "length (acc_data (L1 (ai_key a))) = FollowRegistry_size (length (fr_channels r))"
    using resize_ok [OF assms(1)] assms(4) by (auto simp: data_def)
  have "owner L2 a = pid" "length (data L2 a) = FollowRegistry_size (length (fr_channels r))"
    using quiet_owned [OF effect_quiet [OF assms(2)]] L1 by (simp_all add: owner_def data_def)
  then show "registry_at rt pid L' (ai_key a) = Some r"
    using assms(5) by (intro serialize_registry [OF assms(3)])
  have e: "effect pid {ai_key a} P L1 L2" by (rule effect_mono [OF assms(2)]) simp_all
  show "effect pid {ai_key a} P L L'"
    by (rule effect_trans [OF resize_effect [OF assms(1)] effect_trans [OF e
          serialize_effect [OF assms(3)]]]) simp_all
qed

lemma open_registry_ok:
  assumes "open_registry rt pid user reg sp L = Inr (r, L2)"
  shows "registry_at rt pid L2 (ai_key reg) = Some r \<and> fr_owner r = ai_key user \<and>
    fr_channels r = follows rt pid L (ai_key reg) \<and> effect pid {ai_key reg} {ai_key user} L L2 \<and>
    (\<forall>r. registry_at rt pid L (ai_key reg) = Some r \<longrightarrow> fr_owner r = ai_key user) \<and>
    follower_shard_at rt pid L (ai_key reg) = None \<and>
    tag_byte pid L (ai_key reg) \<in> {None, Some TAG_FOLLOW_REGISTRY}"
proof (cases "is_uninitialized rt reg L")
  case True
  with assms obtain L1 where r: "r = empty_registry (ai_key user)"
    and 1: "create_pda_account rt pid user reg sp (FollowRegistry_size 0)
        [FOLLOWS_SEED, as_ref (ai_key user),
          [snd (derive_follow_registry_pda rt pid (ai_key user))]] L = Inr L1"
    and 2: "serialize (follow_registry_codec (rt_borsh rt)) (empty_registry (ai_key user)) reg L1 =
        Inr L2"
    by (auto simp: attempt_Inr_iff)
  have small: "FollowRegistry_size 0 < 2 ^ 64" by (simp add: size_defs)
  have "registry_at rt pid L2 (ai_key reg) = Some (empty_registry (ai_key user))"
    using create_pda_account_ok(3,4) [OF 1 small] by (intro serialize_registry [OF 2]) simp_all
  moreover have "effect pid {ai_key reg} {ai_key user} L L2"
    by (rule effect_trans [OF create_pda_account_effect [OF 1] serialize_effect [OF 2]]) simp_all
  ultimately show ?thesis
    using r uninitialized_no_follow [OF True] tags(10) [OF True] by (simp add: follows_def)
next
  case False
  with assms have "registry_at rt pid L (ai_key reg) = Some r" "fr_owner r = ai_key user" "L2 = L"
    by (auto simp: attempt_Inr_iff assert_Inr_iffs load_follow_registry_iff if_Inl_Inr_iff)
  with registry_not_shard tags(7) show ?thesis by (simp add: follows_def)
qed

lemma count_follower_ok:
  assumes "count_follower rt pid user sh sp thread i L = Inr L'"
    and "registry_at rt pid L k = Some r"
  shows "k \<noteq> ai_key sh \<and> registry_at rt pid L (ai_key sh) = None \<and>
    tag_byte pid L (ai_key sh) \<in> {None, Some TAG_FOLLOWER_SHARD} \<and>
    (\<forall>s. follower_shard_at rt pid L (ai_key sh) = Some s \<longrightarrow> fs_thread s = thread \<and> fs_shard s = i) \<and>
    (\<exists>s'. follower_shard_at rt pid L' (ai_key sh) = Some s' \<and> fs_thread s' = thread \<and>
      fs_shard s' = i \<and> unat (fs_count s') = follower_count rt pid L (ai_key sh) thread i + 1) \<and>
    effect pid {ai_key sh} {ai_key user} L L'"
proof (cases "is_uninitialized rt sh L")
  case True
  with assms(1) obtain L1 where
    1: "create_pda_account rt pid user sh sp FollowerShard_size
       [FOLLOWER_COUNT_SEED, as_ref thread, [i],
         [snd (derive_follower_shard_pda rt pid thread i)]] L = Inr L1"
    and 2: "serialize (follower_shard_codec (rt_borsh rt)) (first_follower thread i) sh L1 = Inr L'"
    by (auto simp: attempt_Inr_iff)
  have small: "FollowerShard_size < 2 ^ 64" by (simp add: size_defs)
  have "follower_shard_at rt pid L' (ai_key sh) = Some (first_follower thread i)"
    using create_pda_account_ok(3,4) [OF 1 small] by (intro serialize_shard [OF 2]) simp_all
  moreover have "effect pid {ai_key sh} {ai_key user} L L'"
    by (rule effect_trans [OF create_pda_account_effect [OF 1] serialize_effect [OF 2]]) simp_all
  moreover have "k \<noteq> ai_key sh" using assms(2) uninitialized_no_follow(1) [OF True] by auto
  ultimately show ?thesis
    using uninitialized_no_follow [OF True] tags(10) [OF True] by (simp add: follower_count_def)
next
  case False
  with assms(1) obtain s n where
    s: "follower_shard_at rt pid L (ai_key sh) = Some s" "fs_thread s = thread" "fs_shard s = i"
    and n: "checked_add (fs_count s) 1 = Some n"
    and 2: "serialize (follower_shard_codec (rt_borsh rt)) (s\<lparr>fs_count := n\<rparr>) sh L = Inr L'"
    by (auto simp: attempt_Inr_iff load_bound_follower_shard_iff ok_or_Inr_iff)
  note shape = shard_at_shape [OF s(1)]
  have "follower_shard_at rt pid L' (ai_key sh) = Some (s\<lparr>fs_count := n\<rparr>)"
    using shape by (intro serialize_shard [OF 2]) (simp_all add: owner_def data_def)
  moreover have "effect pid {ai_key sh} {ai_key user} L L'" by (rule serialize_effect [OF 2]) simp
  moreover have "k \<noteq> ai_key sh" using s(1) registry_not_shard [OF assms(2)] by auto
  moreover have "registry_at rt pid L (ai_key sh) = None"
    using registry_not_shard [of L "ai_key sh"] s(1)
    by (cases "registry_at rt pid L (ai_key sh)") auto
  moreover have "unat n = unat (fs_count s) + 1"
    using n by (auto simp: checked_add_Some_iff unat_add_lt)
  ultimately show ?thesis using s tags by (simp add: follower_count_def)
qed

lemma subscribe_ok:
  assumes "process_subscribe rt pid accounts L = Inr L'"
  shows "\<exists>user reg sh th sp rest t. accounts = user # reg # sh # th # sp # rest \<and>
    is_signer user \<and> thread_at rt pid L (ai_key th) = Some t \<and>
    ai_key reg = fst (derive_follow_registry_pda rt pid (ai_key user)) \<and>
    ai_key sh = fst (derive_follower_shard_pda rt pid (ai_key th)
      (follower_shard_index (ai_key user))) \<and>
    (\<forall>r. registry_at rt pid L (ai_key reg) = Some r \<longrightarrow> fr_owner r = ai_key user) \<and>
    (\<forall>s. follower_shard_at rt pid L (ai_key sh) = Some s \<longrightarrow>
      fs_thread s = ai_key th \<and> fs_shard s = follower_shard_index (ai_key user)) \<and>
    ai_key reg \<noteq> ai_key sh \<and> follower_shard_at rt pid L (ai_key reg) = None \<and>
    registry_at rt pid L (ai_key sh) = None \<and>
    tag_byte pid L (ai_key reg) \<in> {None, Some TAG_FOLLOW_REGISTRY} \<and>
    tag_byte pid L (ai_key sh) \<in> {None, Some TAG_FOLLOWER_SHARD} \<and>
    ai_key th \<notin> set (follows rt pid L (ai_key reg)) \<and>
    length (follows rt pid L (ai_key reg)) < MAX_FOLLOWS \<and>
    registry_at rt pid L' (ai_key reg) = Some \<lparr>fr_tag = TAG_FOLLOW_REGISTRY,
      fr_owner = ai_key user, fr_channels = follows rt pid L (ai_key reg) @ [ai_key th]\<rparr> \<and>
    (\<exists>s'. follower_shard_at rt pid L' (ai_key sh) = Some s' \<and> fs_thread s' = ai_key th \<and>
      fs_shard s' = follower_shard_index (ai_key user) \<and>
      unat (fs_count s') = follower_count rt pid L (ai_key sh) (ai_key th)
        (follower_shard_index (ai_key user)) + 1) \<and>
    effect pid {ai_key reg, ai_key sh} {ai_key user} L L'"
proof -
  let ?idx = "\<lambda>user. follower_shard_index (ai_key user)"
  let ?size = "\<lambda>r. FollowRegistry_size (length (fr_channels r))"
  let ?r' = "\<lambda>r th. r\<lparr>fr_channels := fr_channels r @ [ai_key th]\<rparr>"
  from assms obtain user reg sh th sp rest t r L2 L3 L4 L5 where
    acc: "accounts = user # reg # sh # th # sp # rest" "is_signer user"
      "thread_at rt pid L (ai_key th) = Some t"
      "ai_key reg = fst (derive_follow_registry_pda rt pid (ai_key user))"
      "ai_key sh = fst (derive_follower_shard_pda rt pid (ai_key th) (?idx user))"
    and open_reg: "open_registry rt pid user reg sp L = Inr (r, L2)"
    and new: "ai_key th \<notin> set (fr_channels r)" "length (fr_channels r) < MAX_FOLLOWS"
    and grow: "rt_resize rt reg (?size (?r' r th)) L2 = Inr L3"
    and fund: "ensure_rent_exempt rt user reg (?size (?r' r th)) L3 = Inr L4"
    and put: "serialize (follow_registry_codec (rt_borsh rt)) (?r' r th) reg L4 = Inr L5"
    and count: "count_follower rt pid user sh sp (ai_key th) (?idx user) L5 = Inr L'"
    by (simp add: process_subscribe_def Let_def derive_split attempt_Inr_iff
        next_account_info_Inr_iff assert_Inr_iffs if_Inl_Inr_iff(1) load_thread_iff
        not_le list_ex_iff cong: if_cong)
      (elim exE conjE, rule that, (assumption | simp)+)
  let ?R = "ai_key reg" and ?S = "ai_key sh" and ?P = "{ai_key user}"
  note o = open_registry_ok [OF open_reg]
  then have r: "registry_at rt pid L2 ?R = Some r" "fr_owner r = ai_key user"
    "fr_channels r = follows rt pid L ?R" and e2: "effect pid {?R} ?P L L2"
    by simp_all
  have tag: "fr_tag r = TAG_FOLLOW_REGISTRY" using r(1) by (simp add: registry_at_def stored_Some_iff)
  have e34: "effect pid {} ?P L3 L4" by (rule ensure_rent_exempt_effect [OF fund]) simp
  have w: "registry_at rt pid L5 ?R = Some (?r' r th)" "effect pid {?R} ?P L2 L5"
    using rewrite_registry [OF grow e34 put] registry_view.view_owner [OF r(1)] tag by simp_all
  have e5: "effect pid {?R} ?P L L5" by (rule effect_trans [OF e2 w(2)])
  note c = count_follower_ok [OF count w(1)]
  then have ne: "?R \<noteq> ?S" and e7: "effect pid {?S} ?P L5 L'" by blast+
  have same: "registry_at rt pid L5 ?S = registry_at rt pid L ?S"
    "follower_shard_at rt pid L5 ?S = follower_shard_at rt pid L ?S"
    "tag_byte pid L5 ?S = tag_byte pid L ?S"
    using registry_view.view_effect [OF e5] shard_view.view_effect [OF e5]
      tag_view.view_effect [OF e5] ne by simp_all
  have "registry_at rt pid L' ?R = registry_at rt pid L5 ?R"
    using registry_view.view_effect [OF e7] ne by simp
  then have final: "registry_at rt pid L' ?R = Some \<lparr>fr_tag = TAG_FOLLOW_REGISTRY,
      fr_owner = ai_key user, fr_channels = follows rt pid L ?R @ [ai_key th]\<rparr>"
    using w(1) r tag by (cases r) simp
  have "effect pid {?R, ?S} ?P L L'"
    by (rule effect_trans [OF effect_mono [OF e5] effect_mono [OF e7]]) auto
  with acc o new r(3) c final show ?thesis
    unfolding same follower_count_def by simp
qed


lemma unsubscribe_ok:
  assumes "process_unsubscribe rt pid accounts L = Inr L'"
  shows "\<exists>user reg sh th sp rest t r pos s. accounts = user # reg # sh # th # sp # rest \<and>
    is_signer user \<and> thread_at rt pid L (ai_key th) = Some t \<and>
    ai_key reg = fst (derive_follow_registry_pda rt pid (ai_key user)) \<and>
    ai_key sh = fst (derive_follower_shard_pda rt pid (ai_key th)
      (follower_shard_index (ai_key user))) \<and>
    registry_at rt pid L (ai_key reg) = Some r \<and> fr_owner r = ai_key user \<and>
    pos < length (fr_channels r) \<and> fr_channels r ! pos = ai_key th \<and>
    follower_shard_at rt pid L (ai_key sh) = Some s \<and> fs_thread s = ai_key th \<and>
    fs_shard s = follower_shard_index (ai_key user) \<and>
    registry_at rt pid L' (ai_key reg) =
      Some (r\<lparr>fr_channels := swap_remove pos (fr_channels r)\<rparr>) \<and>
    follower_shard_at rt pid L' (ai_key sh) =
      Some (s\<lparr>fs_count := saturating_sub (fs_count s) 1\<rparr>) \<and>
    effect pid {ai_key reg, ai_key sh} {ai_key reg} L L'"
proof -
  let ?idx = "\<lambda>user. follower_shard_index (ai_key user)"
  let ?size = "\<lambda>r. FollowRegistry_size (length (fr_channels r))"
  let ?r' = "\<lambda>r pos. r\<lparr>fr_channels := swap_remove pos (fr_channels r)\<rparr>"
  from assms obtain user reg sh th sp rest t r pos L1 L2 rent L4 s where
    acc: "accounts = user # reg # sh # th # sp # rest" "is_signer user"
      "thread_at rt pid L (ai_key th) = Some t"
      "ai_key reg = fst (derive_follow_registry_pda rt pid (ai_key user))"
      "ai_key sh = fst (derive_follower_shard_pda rt pid (ai_key th) (?idx user))"
    and r: "registry_at rt pid L (ai_key reg) = Some r" "fr_owner r = ai_key user"
    and pos: "position (\<lambda>c. c = ai_key th) (fr_channels r) = Some pos"
    and shrink: "rt_resize rt reg (?size (?r' r pos)) L = Inr L1"
    and put: "serialize (follow_registry_codec (rt_borsh rt)) (?r' r pos) reg L1 = Inr L2"
    and rent: "rt_rent rt = Inr rent"
    and refund: "sweep_shard_excess reg user (rent (?size (?r' r pos))) L2 = Inr L4"
    and s: "follower_shard_at rt pid L4 (ai_key sh) = Some s" "fs_thread s = ai_key th"
      "fs_shard s = ?idx user"
    and put': "serialize (follower_shard_codec (rt_borsh rt))
      (s\<lparr>fs_count := saturating_sub (fs_count s) 1\<rparr>) sh L4 = Inr L'"
    unfolding process_unsubscribe_def Let_def refund_is_sweep
    by (simp add: derive_split attempt_Inr_iff ok_or_Inr_iff
        next_account_info_Inr_iff assert_Inr_iffs if_Inl_Inr_iff(1) load_thread_iff
        load_bound_follower_shard_iff load_follow_registry_iff)
      (elim exE conjE, rule that, (assumption | simp)+)
  let ?R = "ai_key reg" and ?S = "ai_key sh"
  note p = position_Some [OF pos]
  have tag: "fr_tag r = TAG_FOLLOW_REGISTRY" using r(1) by (simp add: registry_at_def stored_Some_iff)
  have w: "registry_at rt pid L2 ?R = Some (?r' r pos)" "effect pid {?R} {?R} L L2"
    using rewrite_registry [OF shrink effect_refl put] registry_view.view_owner [OF r(1)] tag by simp_all
  note f = sweep_shard_excess_ok [OF refund]
  have e4: "effect pid K {?R} L2 L4" for K using f by (simp add: effect_def quiet_def)
  have R4: "registry_at rt pid L4 ?R = Some (?r' r pos)"
    using registry_view.view_effect [OF e4 [of "{}"]] w(1) by simp
  have ne: "?R \<noteq> ?S" using registry_not_shard [OF R4] s(1) by auto
  have e: "effect pid {?R} {?R} L L4" by (rule effect_trans [OF w(2) e4])
  have S: "follower_shard_at rt pid L ?S = Some s"
    using shard_view.view_effect [OF e] s(1) ne by simp
  have "registry_at rt pid L' ?R = Some (?r' r pos)"
    using registry_view.view_same [of L' ?R L4, OF serialize_other [OF put' ne]] R4 by simp
  moreover have "follower_shard_at rt pid L' ?S = Some (s\<lparr>fs_count := saturating_sub (fs_count s) 1\<rparr>)"
    using shard_at_shape [OF s(1)] by (intro serialize_shard [OF put']) (simp_all add: owner_def data_def)
  moreover have "effect pid {?R, ?S} {?R} L L'"
    by (rule effect_trans [OF effect_mono [OF e] serialize_effect [OF put']]) auto
  ultimately show ?thesis using acc r p S s(2,3) by blast
qed

end

section \<open>The follow lists\<close>

text \<open>No list names a thread twice, and none is longer than the maximum.\<close>

definition follow_lists_ok :: "runtime \<Rightarrow> pubkey \<Rightarrow> ledger \<Rightarrow> bool" where
  "follow_lists_ok rt pid L \<longleftrightarrow> (\<forall>k r. registry_at rt pid L k = Some r \<longrightarrow>
     distinct (fr_channels r) \<and> length (fr_channels r) \<le> MAX_FOLLOWS)"

text \<open>The registries that follow a thread and count in one of its shards, and the shard's
  count: they agree for every thread and shard.\<close>

definition shard_address :: "runtime \<Rightarrow> pubkey \<Rightarrow> pubkey \<Rightarrow> u8 \<Rightarrow> pubkey" where
  "shard_address rt pid thread i = fst (derive_follower_shard_pda rt pid thread i)"

definition followers_in :: "runtime \<Rightarrow> pubkey \<Rightarrow> ledger \<Rightarrow> pubkey \<Rightarrow> u8 \<Rightarrow> pubkey set" where
  "followers_in rt pid L thread i = {k. \<exists>r. registry_at rt pid L k = Some r \<and>
     thread \<in> set (fr_channels r) \<and> follower_shard_index (fr_owner r) = i}"

definition followers_counted :: "runtime \<Rightarrow> pubkey \<Rightarrow> ledger \<Rightarrow> bool" where
  "followers_counted rt pid L \<longleftrightarrow> (\<forall>thread i. card (followers_in rt pid L thread i) =
     follower_count rt pid L (shard_address rt pid thread i) thread i)"

context solana
begin

text \<open>One registry and one shard change, by one thread and by one.\<close>

lemma follow_step:
  assumes inv: "followers_counted rt pid L" and e: "effect pid {R, S} P L L'" and ne: "R \<noteq> S"
    and S: "S = shard_address rt pid thread (follower_shard_index user)"
    and r: "\<And>r. registry_at rt pid L R = Some r \<Longrightarrow> fr_owner r = user"
    and r': "registry_at rt pid L' R = Some r'" "fr_owner r' = user"
    and s: "\<And>s. follower_shard_at rt pid L S = Some s \<Longrightarrow>
      fs_thread s = thread \<and> fs_shard s = follower_shard_index user"
    and s': "follower_shard_at rt pid L' S = Some s'" "fs_thread s' = thread"
      "fs_shard s' = follower_shard_index user"
    and no: "follower_shard_at rt pid L R = None" "registry_at rt pid L S = None"
    and others: "\<And>t. t \<noteq> thread \<Longrightarrow> t \<in> set (fr_channels r') \<longleftrightarrow> t \<in> set (follows rt pid L R)"
    and moved: "unat (fs_count s') + of_bool (thread \<in> set (follows rt pid L R)) =
      follower_count rt pid L S thread (follower_shard_index user) +
      of_bool (thread \<in> set (fr_channels r'))"
  shows "followers_counted rt pid L'"
  unfolding followers_counted_def
proof (intro allI)
  fix t i
  let ?F = "followers_in rt pid L t i" and ?F' = "followers_in rt pid L' t i"
  have noS: "registry_at rt pid L' S = None"
    using registry_not_shard [of L' S] s'(1) by (cases "registry_at rt pid L' S") auto
  have noR: "follower_shard_at rt pid L' R = None" by (rule registry_not_shard [OF r'(1)])
  have reg: "registry_at rt pid L' k = registry_at rt pid L k" if "k \<noteq> R" for k
    using registry_view.view_effect [OF e, of k] that noS no(2) by (cases "k = S") simp_all
  have sh: "follower_shard_at rt pid L' k = follower_shard_at rt pid L k" if "k \<noteq> S" for k
    using shard_view.view_effect [OF e, of k] that noR no(1) by (cases "k = R") simp_all
  have other: "k \<in> ?F' \<longleftrightarrow> k \<in> ?F" if "k \<noteq> R" for k
    by (simp add: followers_in_def reg [OF that])
  have RF: "R \<in> ?F \<longleftrightarrow> t \<in> set (follows rt pid L R) \<and> i = follower_shard_index user"
    using r by (cases "registry_at rt pid L R") (auto simp: followers_in_def follows_def)
  have RF': "R \<in> ?F' \<longleftrightarrow> t \<in> set (fr_channels r') \<and> i = follower_shard_index user"
    using r' by (auto simp: followers_in_def)
  have card: "card ?F' + of_bool (R \<in> ?F) = card ?F + of_bool (R \<in> ?F')"
    by (rule card_change_one) (rule other)
  have old: "card ?F = follower_count rt pid L (shard_address rt pid t i) t i"
    using inv by (simp add: followers_counted_def)
  show "card ?F' = follower_count rt pid L' (shard_address rt pid t i) t i"
  proof (cases "t = thread \<and> i = follower_shard_index user")
    case True
    with card old RF RF' moved s' show ?thesis
      by (auto simp: S [symmetric] follower_count_def [of rt pid L'])
  next
    case False
    then have "(R \<in> ?F') = (R \<in> ?F)" using RF RF' others by auto
    with card have "card ?F' = card ?F" by simp
    moreover have "follower_count rt pid L' (shard_address rt pid t i) t i =
        follower_count rt pid L (shard_address rt pid t i) t i"
    proof (cases "shard_address rt pid t i = S")
      case True
      with False s s' show ?thesis
        by (auto simp: follower_count_def split: option.splits)
    next
      case False
      from sh [OF this] show ?thesis by (simp add: follower_count_def)
    qed
    ultimately show ?thesis using old by simp
  qed
qed


lemma follow_subscribe:
  assumes "process_subscribe rt pid accounts L = Inr L'"
  shows "followers_counted rt pid L \<Longrightarrow> followers_counted rt pid L'"
    "follow_lists_ok rt pid L \<Longrightarrow> follow_lists_ok rt pid L'"
proof -
  from subscribe_ok [OF assms, folded shard_address_def] obtain
      user reg sh th :: account_info and s' where
    S: "ai_key sh = shard_address rt pid (ai_key th) (follower_shard_index (ai_key user))"
    and r: "\<forall>r. registry_at rt pid L (ai_key reg) = Some r \<longrightarrow> fr_owner r = ai_key user"
    and s: "\<forall>s. follower_shard_at rt pid L (ai_key sh) = Some s \<longrightarrow>
      fs_thread s = ai_key th \<and> fs_shard s = follower_shard_index (ai_key user)"
    and ne: "ai_key reg \<noteq> ai_key sh" and no: "follower_shard_at rt pid L (ai_key reg) = None"
      "registry_at rt pid L (ai_key sh) = None"
    and new: "ai_key th \<notin> set (follows rt pid L (ai_key reg))"
      "length (follows rt pid L (ai_key reg)) < MAX_FOLLOWS"
    and r': "registry_at rt pid L' (ai_key reg) = Some \<lparr>fr_tag = TAG_FOLLOW_REGISTRY,
      fr_owner = ai_key user, fr_channels = follows rt pid L (ai_key reg) @ [ai_key th]\<rparr>"
    and s': "follower_shard_at rt pid L' (ai_key sh) = Some s'" "fs_thread s' = ai_key th"
      "fs_shard s' = follower_shard_index (ai_key user)"
      "unat (fs_count s') = follower_count rt pid L (ai_key sh) (ai_key th)
        (follower_shard_index (ai_key user)) + 1"
    and e: "effect pid {ai_key reg, ai_key sh} {ai_key user} L L'"
    by (elim exE conjE)
  show "followers_counted rt pid L'" if inv: "followers_counted rt pid L"
    by (rule follow_step [OF inv e ne S _ r' _ _ s'(1-3) no]) (use r s new s'(4) in auto)
  show "follow_lists_ok rt pid L'" if inv: "follow_lists_ok rt pid L"
    unfolding follow_lists_ok_def
  proof (intro allI impI)
    fix k x
    assume x: "registry_at rt pid L' k = Some x"
    show "distinct (fr_channels x) \<and> length (fr_channels x) \<le> MAX_FOLLOWS"
    proof (cases "k = ai_key reg")
      case True
      have "distinct (follows rt pid L (ai_key reg))"
        using inv by (auto simp: follow_lists_ok_def follows_def split: option.splits)
      with True x r' new show ?thesis by auto
    next
      case False
      have "k \<noteq> ai_key sh" using x registry_not_shard [OF x] s'(1) by auto
      with False registry_view.view_effect [OF e, of k] x inv show ?thesis
        by (simp add: follow_lists_ok_def)
    qed
  qed
qed

lemma follow_unsubscribe:
  assumes "process_unsubscribe rt pid accounts L = Inr L'"
  shows "followers_counted rt pid L \<Longrightarrow> follow_lists_ok rt pid L \<Longrightarrow> followers_counted rt pid L'"
    "follow_lists_ok rt pid L \<Longrightarrow> follow_lists_ok rt pid L'"
proof -
  from unsubscribe_ok [OF assms, folded shard_address_def] obtain
      user reg sh th :: account_info and r pos s where
    S: "ai_key sh = shard_address rt pid (ai_key th) (follower_shard_index (ai_key user))"
    and r: "registry_at rt pid L (ai_key reg) = Some r" "fr_owner r = ai_key user"
    and pos: "pos < length (fr_channels r)" "fr_channels r ! pos = ai_key th"
    and s: "follower_shard_at rt pid L (ai_key sh) = Some s" "fs_thread s = ai_key th"
      "fs_shard s = follower_shard_index (ai_key user)"
    and r': "registry_at rt pid L' (ai_key reg) =
      Some (r\<lparr>fr_channels := swap_remove pos (fr_channels r)\<rparr>)"
    and s': "follower_shard_at rt pid L' (ai_key sh) =
      Some (s\<lparr>fs_count := saturating_sub (fs_count s) 1\<rparr>)"
    and e: "effect pid {ai_key reg, ai_key sh} {ai_key reg} L L'"
    by (elim exE conjE)
  have ne: "ai_key reg \<noteq> ai_key sh" using registry_not_shard [OF r(1)] s(1) by auto
  have no: "follower_shard_at rt pid L (ai_key reg) = None" "registry_at rt pid L (ai_key sh) = None"
    using registry_not_shard [OF r(1)] registry_not_shard [of L "ai_key sh"] s(1)
    by (simp, cases "registry_at rt pid L (ai_key sh)") auto
  have list: "distinct (fr_channels r)" "length (fr_channels r) \<le> MAX_FOLLOWS"
    if "follow_lists_ok rt pid L"
    using that r(1) unfolding follow_lists_ok_def by blast+
  show "followers_counted rt pid L'" if inv: "followers_counted rt pid L" "follow_lists_ok rt pid L"
  proof -
    note sw = set_swap_remove [OF list(1) [OF inv(2)] pos(1), unfolded pos(2)]
    have F: "follows rt pid L (ai_key reg) = fr_channels r" using r(1) by (simp add: follows_def)
    have mem: "ai_key th \<in> set (fr_channels r)" using nth_mem [OF pos(1)] pos(2) by simp
    have "ai_key reg \<in> followers_in rt pid L (ai_key th) (follower_shard_index (ai_key user))"
      using r mem by (auto simp: followers_in_def)
    then have "card (followers_in rt pid L (ai_key th) (follower_shard_index (ai_key user))) > 0"
      by (auto simp: card_gt_0_iff)
    moreover have "follower_count rt pid L (ai_key sh) (ai_key th)
        (follower_shard_index (ai_key user)) = unat (fs_count s)"
      using s by (simp add: follower_count_def)
    ultimately have "unat (fs_count s) > 0"
      using inv(1) by (simp add: followers_counted_def S)
    then have "unat (saturating_sub (fs_count s) 1) + 1 = unat (fs_count s)"
      by (simp add: unat_saturating_sub)
    then show ?thesis
      by (intro follow_step [OF inv(1) e ne S _ r' _ _ s' _ _ no])
        (use r s sw F mem in \<open>auto simp: follower_count_def\<close>)
  qed
  show "follow_lists_ok rt pid L'" if inv: "follow_lists_ok rt pid L"
    unfolding follow_lists_ok_def
  proof (intro allI impI)
    fix k x
    assume x: "registry_at rt pid L' k = Some x"
    show "distinct (fr_channels x) \<and> length (fr_channels x) \<le> MAX_FOLLOWS"
    proof (cases "k = ai_key reg")
      case True
      with x r' list [OF inv] set_swap_remove(2) [OF list(1) [OF inv] pos(1)] show ?thesis by auto
    next
      case False
      have "k \<noteq> ai_key sh" using x registry_not_shard [OF x] s' by auto
      with False registry_view.view_effect [OF e, of k] x inv show ?thesis
        by (simp add: follow_lists_ok_def)
    qed
  qed
qed

end

section \<open>Properties\<close>

text \<open>The world of \<open>genesis\<close> with one thread and one more wallet; nobody follows yet.\<close>

definition prologue :: ledger where
  "prologue = genesis(21 := stage 21, 30 := stage 30)"

lemma prologue_at [simp]:
  "prologue 0 = stage 0" "prologue 21 = stage 21" "prologue 30 = stage 30"
  "prologue 748320 = wallet_account 0" "prologue 47768 = wallet_account 0"
  by (simp_all add: prologue_def genesis_def)

lemma prologue_no_follows:
  "registry_at (ref_rt t) ref_pid prologue k = None"
  "follower_shard_at (ref_rt t) ref_pid prologue k = None"
proof -
  have thread: "thread_at (ref_rt t) ref_pid prologue 30 = Some stage_thread"
    by (simp add: run_simps)
  have "tag_byte ref_pid prologue k = Some b \<Longrightarrow> b \<in> {TAG_SETTINGS, TAG_THREAD}" for b
  proof (cases "k = 30")
    case True
    then show "tag_byte ref_pid prologue k = Some b \<Longrightarrow> b \<in> {TAG_SETTINGS, TAG_THREAD}"
      using ref_runtime.view_tag_byte(2) [OF thread] by simp
  next
    case False
    then have "tag_byte ref_pid prologue k = tag_byte ref_pid genesis k \<or>
        tag_byte ref_pid prologue k = None"
      by (auto simp: prologue_def tag_byte_def wallet_account_def)
    then show "tag_byte ref_pid prologue k = Some b \<Longrightarrow> b \<in> {TAG_SETTINGS, TAG_THREAD}"
      using genesis_tag by auto
  qed
  note tags = this
  show "registry_at (ref_rt t) ref_pid prologue k = None"
    by (cases "registry_at (ref_rt t) ref_pid prologue k")
      (auto dest!: ref_runtime.view_tag_byte(7) tags simp: tag_defs)
  show "follower_shard_at (ref_rt t) ref_pid prologue k = None"
    by (cases "follower_shard_at (ref_rt t) ref_pid prologue k")
      (auto dest!: ref_runtime.view_tag_byte(8) tags simp: tag_defs)
qed

text \<open>A thread's shards count its followers: for every thread and shard the count is the
  number of registries that list the thread and whose owner falls into the shard. Subscribing
  and unsubscribing keep this, and keep every list free of duplicates and within the maximum.\<close>

theorem follower_counts_stay_exact:
  assumes "solana rt pid" "followers_counted rt pid L" "follow_lists_ok rt pid L"
    and "process_subscribe rt pid accounts L = Inr L' \<or> process_unsubscribe rt pid accounts L = Inr L'"
  shows "followers_counted rt pid L' \<and> follow_lists_ok rt pid L'"
  using assms(4) solana.follow_subscribe(1) [OF assms(1) _ assms(2)] solana.follow_subscribe(2) [OF assms(1) _ assms(3)]
    solana.follow_unsubscribe(1) [OF assms(1) _ assms(2,3)]
    solana.follow_unsubscribe(2) [OF assms(1) _ assms(3)]
  by blast

theorem follower_counts_stay_exact_witness:
  "followers_counted (ref_rt 0) ref_pid (ok_value (process_subscribe (ref_rt 0) ref_pid
     [signer_info 21, plain_info 748320, plain_info 47768, plain_info 30, plain_info 0] prologue))"
proof -
  have run: "is_ok (process_subscribe (ref_rt 0) ref_pid
     [signer_info 21, plain_info 748320, plain_info 47768, plain_info 30, plain_info 0] prologue)"
    by (simp add: run_simps cong: run_congs)
  have counted: "followers_counted (ref_rt 0) ref_pid prologue"
    by (simp add: followers_counted_def followers_in_def follower_count_def prologue_no_follows)
  have lists: "follow_lists_ok (ref_rt 0) ref_pid prologue"
    by (simp add: follow_lists_ok_def prologue_no_follows)
  from follower_counts_stay_exact [OF ref_runtime.solana_axioms counted lists
      disjI1 [OF is_ok_ok_value [OF run]]]
  show ?thesis ..
qed

text \<open>C39. A wallet follows a thread by its own signature, once, and at most 1000 threads: the
  thread is appended to its list, its shard's count grows by one, and nothing else of the
  program's state changes. Doing it again is refused, and unsubscribing restores both the list
  and the count.\<close>

theorem subscribe_then_unsubscribe:
  assumes "solana rt pid" "process_subscribe rt pid accounts L = Inr L1"
  shows "\<exists>user reg sh th rest. accounts = user # reg # sh # th # rest \<and> is_signer user \<and>
    ai_key reg = fst (derive_follow_registry_pda rt pid (ai_key user)) \<and>
    length (follows rt pid L (ai_key reg)) < MAX_FOLLOWS \<and>
    follows rt pid L1 (ai_key reg) = follows rt pid L (ai_key reg) @ [ai_key th] \<and>
    effect pid {ai_key reg, ai_key sh} {ai_key user} L L1 \<and>
    (\<forall>L2. process_subscribe rt pid accounts L1 \<noteq> Inr L2) \<and>
    (\<forall>L2. process_unsubscribe rt pid accounts L1 = Inr L2 \<longrightarrow>
      follows rt pid L2 (ai_key reg) = follows rt pid L (ai_key reg) \<and>
      follower_count rt pid L2 (ai_key sh) (ai_key th) (follower_shard_index (ai_key user)) =
        follower_count rt pid L (ai_key sh) (ai_key th) (follower_shard_index (ai_key user)))"
proof -
  from solana.subscribe_ok [OF assms] obtain user reg sh th sp :: account_info and rest s' where
    acc: "accounts = user # reg # sh # th # sp # rest" "is_signer user"
      "ai_key reg = fst (derive_follow_registry_pda rt pid (ai_key user))"
    and new: "ai_key th \<notin> set (follows rt pid L (ai_key reg))"
      "length (follows rt pid L (ai_key reg)) < MAX_FOLLOWS"
    and r': "registry_at rt pid L1 (ai_key reg) = Some \<lparr>fr_tag = TAG_FOLLOW_REGISTRY,
      fr_owner = ai_key user, fr_channels = follows rt pid L (ai_key reg) @ [ai_key th]\<rparr>"
    and s': "follower_shard_at rt pid L1 (ai_key sh) = Some s'"
      "unat (fs_count s') = follower_count rt pid L (ai_key sh) (ai_key th)
        (follower_shard_index (ai_key user)) + 1"
    and e: "effect pid {ai_key reg, ai_key sh} {ai_key user} L L1"
    by (elim exE conjE)
  have F1: "follows rt pid L1 (ai_key reg) = follows rt pid L (ai_key reg) @ [ai_key th]"
    using r' by (simp add: follows_def)
  have again: "process_subscribe rt pid accounts L1 \<noteq> Inr L2" for L2
  proof
    assume "process_subscribe rt pid accounts L1 = Inr L2"
    from solana.subscribe_ok [OF assms(1) this] acc(1) F1 show False by auto
  qed
  have undo: "follows rt pid L2 (ai_key reg) = follows rt pid L (ai_key reg) \<and>
      follower_count rt pid L2 (ai_key sh) (ai_key th) (follower_shard_index (ai_key user)) =
        follower_count rt pid L (ai_key sh) (ai_key th) (follower_shard_index (ai_key user))"
    if run: "process_unsubscribe rt pid accounts L1 = Inr L2" for L2
  proof -
    from solana.unsubscribe_ok [OF assms(1) run] acc(1) r' s'(1) obtain pos where
      pos: "pos < length (follows rt pid L (ai_key reg) @ [ai_key th])"
        "(follows rt pid L (ai_key reg) @ [ai_key th]) ! pos = ai_key th"
      and bound: "fs_thread s' = ai_key th" "fs_shard s' = follower_shard_index (ai_key user)"
      and r2: "registry_at rt pid L2 (ai_key reg) = Some \<lparr>fr_tag = TAG_FOLLOW_REGISTRY,
          fr_owner = ai_key user,
          fr_channels = swap_remove pos (follows rt pid L (ai_key reg) @ [ai_key th])\<rparr>"
      and s2: "follower_shard_at rt pid L2 (ai_key sh) =
        Some (s'\<lparr>fs_count := saturating_sub (fs_count s') 1\<rparr>)"
      by auto
    have "pos = length (follows rt pid L (ai_key reg))"
    proof (rule ccontr)
      assume "pos \<noteq> length (follows rt pid L (ai_key reg))"
      with pos(1) have "pos < length (follows rt pid L (ai_key reg))" by simp
      with pos(2) new(1) show False by (metis nth_append nth_mem)
    qed
    then have "follows rt pid L2 (ai_key reg) = follows rt pid L (ai_key reg)"
      using r2 by (simp add: follows_def [of rt pid L2] swap_remove_last)
    moreover have "follower_count rt pid L2 (ai_key sh) (ai_key th)
        (follower_shard_index (ai_key user)) =
        follower_count rt pid L (ai_key sh) (ai_key th) (follower_shard_index (ai_key user))"
      using s2 s'(2) bound by (simp add: follower_count_def [of rt pid L2] unat_saturating_sub)
    ultimately show ?thesis ..
  qed
  from acc new(2) F1 e again undo show ?thesis by blast
qed

theorem subscribe_then_unsubscribe_witness:
  "follows (ref_rt 0) ref_pid (ok_value (process_unsubscribe (ref_rt 0) ref_pid
     [signer_info 21, plain_info 748320, plain_info 47768, plain_info 30, plain_info 0]
     (ok_value (process_subscribe (ref_rt 0) ref_pid
     [signer_info 21, plain_info 748320, plain_info 47768, plain_info 30, plain_info 0] stage))))
     748320 = [33]"
proof -
  let ?accounts = "[signer_info 21, plain_info 748320, plain_info 47768, plain_info 30, plain_info 0]"
  have run: "is_ok (process_subscribe (ref_rt 0) ref_pid ?accounts stage)"
    by (simp add: run_simps cong: run_congs)
  have run': "is_ok (process_unsubscribe (ref_rt 0) ref_pid ?accounts
      (ok_value (process_subscribe (ref_rt 0) ref_pid ?accounts stage)))"
    by (simp add: run_simps cong: run_congs)
  have "follows (ref_rt 0) ref_pid stage 748320 = [33]"
    by (simp add: follows_def run_simps)
  with subscribe_then_unsubscribe [OF ref_runtime.solana_axioms is_ok_ok_value [OF run]]
    is_ok_ok_value [OF run']
  show ?thesis by (auto simp: plain_info_def)
qed

end
