(* ===== verification/Dispatch.thy ===== *)
theory Dispatch
  imports Instruction Messages Sweep Follow
begin

text \<open>
  \<open>src/lib.rs\<close>: the entry point. The instruction's bytes are decoded, and the variant's
  handler is called with its fields.
\<close>

definition dispatch ::
  "runtime \<Rightarrow> pubkey \<Rightarrow> account_info list \<Rightarrow> program_instruction \<Rightarrow> ledger \<Rightarrow> ledger res" where
  "dispatch rt pid accounts instruction L =
     (case instruction of
         CreateRootAlloc message_fee treasury_shard_idx title \<Rightarrow>
           process_create_root_alloc rt pid accounts message_fee treasury_shard_idx title L
       | FillSlot kind body candidates treasury_shard_idx author_fee_shard_idx reply_alloc_seq reply_slot max_fee \<Rightarrow>
           process_fill_slot rt pid accounts kind body candidates treasury_shard_idx author_fee_shard_idx reply_alloc_seq reply_slot max_fee L
       | PrepareAlloc alloc_seq \<Rightarrow>
           process_prepare_alloc rt pid accounts alloc_seq L
       | SweepTreasury shard_indices \<Rightarrow>
           process_sweep_treasury rt pid accounts shard_indices L
       | SweepAuthorFees shard_indices \<Rightarrow>
           process_sweep_author_fees rt pid accounts shard_indices L
       | CloseAccount \<Rightarrow>
           process_close_account rt pid accounts L
       | InitSettings treasury \<Rightarrow>
           process_init_settings rt pid accounts treasury L
       | SetTreasury treasury \<Rightarrow>
           process_set_treasury rt pid accounts treasury L
       | InitThreadAccess enabled treasury_shard_idx \<Rightarrow>
           process_init_thread_access rt pid accounts enabled treasury_shard_idx L
       | SetThreadAccess enabled \<Rightarrow>
           process_set_thread_access rt pid accounts enabled L
       | AddToWhitelist wallet \<Rightarrow>
           process_add_to_whitelist rt pid accounts wallet L
       | RemoveFromWhitelist wallet \<Rightarrow>
           process_remove_from_whitelist rt pid accounts wallet L
       | SetMessageFee fee \<Rightarrow>
           process_set_message_fee rt pid accounts fee L
       | SetBaseFee fee_bps \<Rightarrow>
           process_set_base_fee rt pid accounts fee_bps L
       | SetAuthorFeeCut fee_bps \<Rightarrow>
           process_set_author_fee_cut rt pid accounts fee_bps L
       | SetEntryCut fee_bps \<Rightarrow>
           process_set_entry_cut rt pid accounts fee_bps L
       | SetLikeCut fee_bps \<Rightarrow>
           process_set_like_cut rt pid accounts fee_bps L
       | SetLikeFee fee \<Rightarrow>
           process_set_like_fee rt pid accounts fee L
       | SetEntryFee fee \<Rightarrow>
           process_set_entry_fee rt pid accounts fee L
       | RequestAccess treasury_shard_idx author_fee_shard_idx \<Rightarrow>
           process_request_access rt pid accounts treasury_shard_idx author_fee_shard_idx L
       | LikeContent alloc_seq slot treasury_shard_idx author_fee_shard_idx max_fee \<Rightarrow>
           process_like_content rt pid accounts alloc_seq slot treasury_shard_idx author_fee_shard_idx max_fee L
       | AddToBlacklist wallet \<Rightarrow>
           process_add_to_blacklist rt pid accounts wallet L
       | RemoveFromBlacklist wallet \<Rightarrow>
           process_remove_from_blacklist rt pid accounts wallet L
       | AppendContent chunk treasury_shard_idx author_fee_shard_idx \<Rightarrow>
           process_append_content rt pid accounts chunk treasury_shard_idx author_fee_shard_idx L
       | SetAdmin new_admin \<Rightarrow>
           process_set_admin rt pid accounts new_admin L
       | AddToFeeWhitelist wallet \<Rightarrow>
           process_add_to_fee_whitelist rt pid accounts wallet L
       | RemoveFromFeeWhitelist wallet \<Rightarrow>
           process_remove_from_fee_whitelist rt pid accounts wallet L
       | Subscribe \<Rightarrow>
           process_subscribe rt pid accounts L
       | Unsubscribe \<Rightarrow>
           process_unsubscribe rt pid accounts L)"

definition process_instruction ::
  "runtime \<Rightarrow> pubkey \<Rightarrow> account_info list \<Rightarrow> u8 list \<Rightarrow> ledger \<Rightarrow> ledger res" where
  "process_instruction rt pid accounts instruction_data L =
     attempt (ok_or InvalidInstructionData
       (try_from_slice (instruction_codec (rt_borsh rt)) instruction_data)) (\<lambda>instruction.
     dispatch rt pid accounts instruction L)"

context solana
begin

lemma process_instruction_enc:
  "enc (instruction_codec (rt_borsh rt)) i = Some bytes \<Longrightarrow>
   process_instruction rt pid accounts bytes L = dispatch rt pid accounts i L"
  by (simp add: process_instruction_def fmt.wire.try_from_slice_enc)

lemma process_instruction_malformed:
  assumes "\<And>i. enc (instruction_codec (rt_borsh rt)) i \<noteq> Some bytes"
  shows "process_instruction rt pid accounts bytes L = Inl InvalidInstructionData"
proof -
  have "try_from_slice (instruction_codec (rt_borsh rt)) bytes = None"
    using assms by (cases "try_from_slice (instruction_codec (rt_borsh rt)) bytes")
      (simp_all add: fmt.wire.try_from_slice_iff)
  then show ?thesis by (simp add: process_instruction_def)
qed

end

lemma process_instruction_Inr_iff [ok_simps]:
  "process_instruction rt pid accounts bytes L = Inr L' \<longleftrightarrow>
     (\<exists>i. try_from_slice (instruction_codec (rt_borsh rt)) bytes = Some i \<and>
       dispatch rt pid accounts i L = Inr L')"
  by (auto simp: process_instruction_def attempt_Inr_iff ok_or_Inr_iff)

lemmas wire_bytes = instruction_codec_def variant_enc_def pair_codec_def enc_uint_codec
  le_bytes_numeral unit_codec_def

section \<open>The instruction table\<close>

text \<open>The documented table of instructions, which does not mention the decoder or the dispatch:
  \<open>serves B bytes h\<close> says that the byte string calls \<open>h\<close>. The first byte is the instruction's
  number, the rest are the fields in their order; each row says what becomes of them.\<close>

inductive serves ::
  "borsh \<Rightarrow> u8 list \<Rightarrow> (runtime \<Rightarrow> pubkey \<Rightarrow> account_info list \<Rightarrow> ledger \<Rightarrow> ledger res) \<Rightarrow> bool"
  for B where
  create_root:
    "enc (pair_codec (b_u64 B) (pair_codec (b_u16 B) (vec_codec (b_u32 B) (b_u8 B))))
       (message_fee, i, title) = Some p \<Longrightarrow>
     serves B (0 # p)
       (\<lambda>rt pid accounts. process_create_root_alloc rt pid accounts message_fee i title)"
| fill_slot:
    "enc (pair_codec (b_u16 B) (pair_codec (vec_codec (b_u32 B) (b_u8 B)) (pair_codec (vec_codec
       (b_u32 B) (candidate_slot_codec B)) (pair_codec (b_u16 B) (pair_codec (b_u8 B)
       (pair_codec (b_u32 B) (pair_codec (b_u8 B) (b_u64 B))))))))
       (kind, body, candidates, i, j, reply_alloc, reply_slot, max_fee) = Some p \<Longrightarrow>
     serves B (1 # p)
       (\<lambda>rt pid accounts. process_fill_slot rt pid accounts kind body candidates i j
       reply_alloc reply_slot max_fee)"
| prepare_alloc:
    "enc (b_u32 B) alloc_seq = Some p \<Longrightarrow>
     serves B (2 # p) (\<lambda>rt pid accounts. process_prepare_alloc rt pid accounts alloc_seq)"
| sweep_treasury:
    "enc (vec_codec (b_u32 B) (b_u16 B)) shards = Some p \<Longrightarrow>
     serves B (3 # p) (\<lambda>rt pid accounts. process_sweep_treasury rt pid accounts shards)"
| sweep_author_fees:
    "enc (vec_codec (b_u32 B) (b_u8 B)) shards = Some p \<Longrightarrow>
     serves B (4 # p)
       (\<lambda>rt pid accounts. process_sweep_author_fees rt pid accounts shards)"
| close_account: "serves B [5] process_close_account"
| init_settings:
    "enc (b_key B) treasury = Some p \<Longrightarrow>
     serves B (6 # p) (\<lambda>rt pid accounts. process_init_settings rt pid accounts treasury)"
| set_treasury:
    "enc (b_key B) treasury = Some p \<Longrightarrow>
     serves B (7 # p) (\<lambda>rt pid accounts. process_set_treasury rt pid accounts treasury)"
| init_thread_access:
    "enc (pair_codec (b_bool B) (b_u16 B)) (enabled, i) = Some p \<Longrightarrow>
     serves B (8 # p)
       (\<lambda>rt pid accounts. process_init_thread_access rt pid accounts enabled i)"
| set_thread_access:
    "enc (b_bool B) enabled = Some p \<Longrightarrow>
     serves B (9 # p)
       (\<lambda>rt pid accounts. process_set_thread_access rt pid accounts enabled)"
| add_to_whitelist:
    "enc (b_key B) wallet = Some p \<Longrightarrow>
     serves B (10 # p)
       (\<lambda>rt pid accounts. process_add_to_whitelist rt pid accounts wallet)"
| remove_from_whitelist:
    "enc (b_key B) wallet = Some p \<Longrightarrow>
     serves B (11 # p)
       (\<lambda>rt pid accounts. process_remove_from_whitelist rt pid accounts wallet)"
| set_message_fee:
    "enc (b_u64 B) fee = Some p \<Longrightarrow>
     serves B (12 # p) (\<lambda>rt pid accounts. process_set_message_fee rt pid accounts fee)"
| set_base_fee:
    "enc (b_u32 B) bps = Some p \<Longrightarrow>
     serves B (13 # p) (\<lambda>rt pid accounts. process_set_base_fee rt pid accounts bps)"
| set_author_fee_cut:
    "enc (b_u32 B) bps = Some p \<Longrightarrow>
     serves B (14 # p) (\<lambda>rt pid accounts. process_set_author_fee_cut rt pid accounts bps)"
| set_entry_cut:
    "enc (b_u32 B) bps = Some p \<Longrightarrow>
     serves B (15 # p) (\<lambda>rt pid accounts. process_set_entry_cut rt pid accounts bps)"
| set_like_cut:
    "enc (b_u32 B) bps = Some p \<Longrightarrow>
     serves B (16 # p) (\<lambda>rt pid accounts. process_set_like_cut rt pid accounts bps)"
| set_like_fee:
    "enc (b_u64 B) fee = Some p \<Longrightarrow>
     serves B (17 # p) (\<lambda>rt pid accounts. process_set_like_fee rt pid accounts fee)"
| set_entry_fee:
    "enc (b_u64 B) fee = Some p \<Longrightarrow>
     serves B (18 # p) (\<lambda>rt pid accounts. process_set_entry_fee rt pid accounts fee)"
| request_access:
    "enc (pair_codec (b_u16 B) (b_u8 B)) (i, j) = Some p \<Longrightarrow>
     serves B (19 # p) (\<lambda>rt pid accounts. process_request_access rt pid accounts i j)"
| like_content:
    "enc (pair_codec (b_u32 B) (pair_codec (b_u8 B) (pair_codec (b_u16 B) (pair_codec (b_u8 B)
       (b_u64 B))))) (alloc_seq, slot, i, j, max_fee) = Some p \<Longrightarrow>
     serves B (20 # p)
       (\<lambda>rt pid accounts. process_like_content rt pid accounts alloc_seq slot i j
       max_fee)"
| add_to_blacklist:
    "enc (b_key B) wallet = Some p \<Longrightarrow>
     serves B (21 # p)
       (\<lambda>rt pid accounts. process_add_to_blacklist rt pid accounts wallet)"
| remove_from_blacklist:
    "enc (b_key B) wallet = Some p \<Longrightarrow>
     serves B (22 # p)
       (\<lambda>rt pid accounts. process_remove_from_blacklist rt pid accounts wallet)"
| append_content:
    "enc (pair_codec (vec_codec (b_u32 B) (b_u8 B)) (pair_codec (b_u16 B) (b_u8 B)))
       (chunk, i, j) = Some p \<Longrightarrow>
     serves B (23 # p)
       (\<lambda>rt pid accounts. process_append_content rt pid accounts chunk i j)"
| set_admin:
    "enc (b_key B) admin = Some p \<Longrightarrow>
     serves B (24 # p) (\<lambda>rt pid accounts. process_set_admin rt pid accounts admin)"
| add_to_fee_whitelist:
    "enc (b_key B) wallet = Some p \<Longrightarrow>
     serves B (25 # p)
       (\<lambda>rt pid accounts. process_add_to_fee_whitelist rt pid accounts wallet)"
| remove_from_fee_whitelist:
    "enc (b_key B) wallet = Some p \<Longrightarrow>
     serves B (26 # p)
       (\<lambda>rt pid accounts. process_remove_from_fee_whitelist rt pid accounts wallet)"
| subscribe: "serves B [27] process_subscribe"
| unsubscribe: "serves B [28] process_unsubscribe"

context borsh_format
begin

lemma variant_enc_iff:
  "variant_enc B i c x = Some b \<longleftrightarrow> (\<exists>p. enc c x = Some p \<and> b = i # p)"
  by (auto simp: variant_enc_def pair_codec_def enc_u8 bind_eq_Some_conv)

lemma variant_bytes_of:
  "variant_law B i c f \<Longrightarrow> enc c x = Some p \<Longrightarrow> enc (instruction_codec B) (f x) = Some (i # p)"
  by (simp add: variant_law_def instruction_codec_def variant_enc_iff)

lemmas variant_bytes = variant_laws [THEN variant_bytes_of, unfolded payload_defs unit_codec_def]

lemma serves_enc:
  "serves B bytes h \<Longrightarrow> \<exists>i. enc (instruction_codec B) i = Some bytes \<and>
     (\<forall>rt pid accounts L. dispatch rt pid accounts i L = h rt pid accounts L)"
  by (induction rule: serves.induct)
    (rule exI, rule conjI, rule variant_bytes, assumption, simp add: dispatch_def
     | rule exI, rule conjI, rule variant_bytes, simp, simp add: dispatch_def)+

lemma enc_serves:
  "enc (instruction_codec B) i = Some bytes \<Longrightarrow> \<exists>h. serves B bytes h"
  by (cases i)
    (auto simp: instruction_codec_def variant_enc_iff payload_defs unit_codec_def intro: serves.intros)

end

section \<open>Properties\<close>

text \<open>C27. The bytes decide what runs, as the table says: number and fields of an instruction call
  the table's handler with these fields in this order, on the same accounts; and bytes that are not
  in the table are refused with \<open>InvalidInstructionData\<close>, before any handler is called.\<close>

theorem entry_point_decodes:
  assumes "solana rt pid"
  shows "(\<forall>h. serves (rt_borsh rt) bytes h \<longrightarrow>
      process_instruction rt pid accounts bytes L = h rt pid accounts L) \<and>
    ((\<nexists>h. serves (rt_borsh rt) bytes h) \<longrightarrow>
      process_instruction rt pid accounts bytes L = Inl InvalidInstructionData)"
proof (intro conjI allI impI)
  have B: "borsh_format (rt_borsh rt)" by (rule solana.format [OF assms])
  fix h
  assume "serves (rt_borsh rt) bytes h"
  from borsh_format.serves_enc [OF B this] solana.process_instruction_enc [OF assms]
  show "process_instruction rt pid accounts bytes L = h rt pid accounts L" by auto
next
  assume "\<nexists>h. serves (rt_borsh rt) bytes h"
  with borsh_format.enc_serves [OF solana.format [OF assms]]
  show "process_instruction rt pid accounts bytes L = Inl InvalidInstructionData"
    by (intro solana.process_instruction_malformed [OF assms]) blast
qed

theorem entry_point_decodes_witness:
  "process_instruction (ref_rt 0) ref_pid [signer_info 21] [27] genesis =
     process_subscribe (ref_rt 0) ref_pid [signer_info 21] genesis \<and>
   process_instruction (ref_rt 0) ref_pid [signer_info 21] [16, 232, 3, 0, 0] genesis =
     process_set_like_cut (ref_rt 0) ref_pid [signer_info 21] 1000 genesis \<and>
   process_instruction (ref_rt 0) ref_pid [signer_info 21] [] genesis = Inl InvalidInstructionData"
proof -
  have "enc (b_u32 ref_borsh) 1000 = Some [232, 3, 0, 0]"
    by (simp add: wire_bytes)
  then have "serves ref_borsh [16, 232, 3, 0, 0] (\<lambda>rt pid accounts. process_set_like_cut rt pid accounts 1000)"
    by (rule serves.set_like_cut)
  moreover have "\<not> serves ref_borsh [] h" for h by (auto elim: serves.cases)
  ultimately show ?thesis
    using entry_point_decodes [OF ref_runtime.solana_axioms, of 0] serves.subscribe [of ref_borsh]
    by simp
qed

end
