(* ===== verification/Kinds.thy ===== *)
theory Kinds
  imports Dispatch
begin

text \<open>
  Which kinds of accounts an instruction can write. An account's kind is its tag byte;
  \<open>kept pid T L L'\<close> says that every account of a kind outside \<open>T\<close> has the owner and data it
  had, and that no account has come to be of such a kind. It follows from the effect of each
  handler and the views it leaves, and it is what carries a property of one kind of account
  over all the instructions that do not write that kind.
\<close>

section \<open>Keeping the other kinds\<close>

definition kept :: "pubkey \<Rightarrow> u8 set \<Rightarrow> ledger \<Rightarrow> ledger \<Rightarrow> bool" where
  "kept pid T L L' \<longleftrightarrow> (\<forall>k.
     acc_owner (L' k) = acc_owner (L k) \<and> acc_data (L' k) = acc_data (L k) \<or>
     set_option (tag_byte pid L k) \<subseteq> T \<and> set_option (tag_byte pid L' k) \<subseteq> T)"

lemma kept_refl [simp]: "kept pid T L L"
  by (simp add: kept_def)

lemma kept_mono: "kept pid T L L' \<Longrightarrow> T \<subseteq> T' \<Longrightarrow> kept pid T' L L'"
  unfolding kept_def by (meson order_trans)

lemma tag_byte_cong:
  "acc_owner (L' k) = acc_owner (L k) \<Longrightarrow> acc_data (L' k) = acc_data (L k) \<Longrightarrow>
   tag_byte pid L' k = tag_byte pid L k"
  by (simp add: tag_byte_def)

lemma tag_byte_unowned: "acc_owner (L k) \<noteq> pid \<Longrightarrow> tag_byte pid L k = None"
  and tag_byte_no_data: "acc_data (L k) = [] \<Longrightarrow> tag_byte pid L k = None"
  by (simp_all add: tag_byte_def)

lemma kept_trans:
  assumes "kept pid T L L1" "kept pid T L1 L2"
  shows "kept pid T L L2"
  unfolding kept_def
proof
  fix k
  from assms show "acc_owner (L2 k) = acc_owner (L k) \<and> acc_data (L2 k) = acc_data (L k) \<or>
     set_option (tag_byte pid L k) \<subseteq> T \<and> set_option (tag_byte pid L2 k) \<subseteq> T"
    unfolding kept_def using tag_byte_cong [of L1 k L pid] tag_byte_cong [of L2 k L1 pid] by metis
qed

text \<open>The accounts a handler may write, and what is at them before and after, give the kinds.\<close>

lemma quiet_kept:
  assumes "quiet pid K L L'"
    and "\<And>k. k \<in> K \<Longrightarrow> set_option (tag_byte pid L k) \<subseteq> T \<and> set_option (tag_byte pid L' k) \<subseteq> T"
  shows "kept pid T L L'"
  unfolding kept_def
proof
  fix k
  show "acc_owner (L' k) = acc_owner (L k) \<and> acc_data (L' k) = acc_data (L k) \<or>
     set_option (tag_byte pid L k) \<subseteq> T \<and> set_option (tag_byte pid L' k) \<subseteq> T"
    using assms tag_byte_unowned [of L k pid] tag_byte_no_data [of L' k pid]
    by (cases "k \<in> K") (auto simp: quiet_def)
qed

lemmas effect_kept = quiet_kept [OF effect_quiet]

lemma contents_kept:
  "(\<And>k. acc_owner (L' k) = acc_owner (L k) \<and> acc_data (L' k) = acc_data (L k)) \<Longrightarrow> kept pid T L L'"
  by (simp add: kept_def)

text \<open>A view of a kind outside \<open>T\<close> is the same before and after.\<close>

context account_view
begin

lemma view_kept:
  assumes "\<And>L k x. view L k = Some x \<Longrightarrow> tag_byte pid L k = Some tag"
    and "kept pid T L L'" "tag \<notin> T"
  shows "view L' k = view L k"
proof (cases "acc_owner (L' k) = acc_owner (L k) \<and> acc_data (L' k) = acc_data (L k)")
  case True
  then show ?thesis by (intro view_cong) simp_all
next
  case False
  with assms(2) have "set_option (tag_byte pid L k) \<subseteq> T" "set_option (tag_byte pid L' k) \<subseteq> T"
    unfolding kept_def by blast+
  with assms(1) [of L k] assms(1) [of L' k] assms(3) show ?thesis
    by (cases "view L k"; cases "view L' k") auto
qed

end

section \<open>The kinds of each instruction\<close>

fun kinds_of :: "program_instruction \<Rightarrow> u8 set" where
  "kinds_of (CreateRootAlloc _ _ _) = {TAG_THREAD, TAG_ALLOC}"
| "kinds_of (PrepareAlloc _) = {TAG_THREAD, TAG_ALLOC}"
| "kinds_of (SetMessageFee _) = {TAG_THREAD}"
| "kinds_of (SetLikeFee _) = {TAG_THREAD}"
| "kinds_of (FillSlot _ _ _ _ _ _ _ _) = {TAG_CONTENT}"
| "kinds_of (AppendContent _ _ _) = {TAG_CONTENT}"
| "kinds_of CloseAccount = {TAG_CONTENT, TAG_LIKES}"
| "kinds_of (LikeContent _ _ _ _ _) = {TAG_LIKES}"
| "kinds_of (SweepTreasury _) = {}"
| "kinds_of (SweepAuthorFees _) = {}"
| "kinds_of (InitThreadAccess _ _) = {TAG_ACCESS}"
| "kinds_of (SetThreadAccess _) = {TAG_ACCESS}"
| "kinds_of (SetEntryFee _) = {TAG_ACCESS}"
| "kinds_of (AddToWhitelist _) = {TAG_ACCESS, TAG_ACCESS_ENTRY}"
| "kinds_of (RemoveFromWhitelist _) = {TAG_ACCESS, TAG_ACCESS_ENTRY}"
| "kinds_of (AddToBlacklist _) = {TAG_ACCESS, TAG_ACCESS_ENTRY}"
| "kinds_of (RemoveFromBlacklist _) = {TAG_ACCESS, TAG_ACCESS_ENTRY}"
| "kinds_of (AddToFeeWhitelist _) = {TAG_ACCESS, TAG_ACCESS_ENTRY}"
| "kinds_of (RemoveFromFeeWhitelist _) = {TAG_ACCESS, TAG_ACCESS_ENTRY}"
| "kinds_of (RequestAccess _ _) = {TAG_ACCESS, TAG_ACCESS_ENTRY}"
| "kinds_of Subscribe = {TAG_FOLLOW_REGISTRY, TAG_FOLLOWER_SHARD}"
| "kinds_of Unsubscribe = {TAG_FOLLOW_REGISTRY, TAG_FOLLOWER_SHARD}"
| "kinds_of (InitSettings _) = {TAG_SETTINGS}"
| "kinds_of (SetTreasury _) = {TAG_SETTINGS}"
| "kinds_of (SetAdmin _) = {TAG_SETTINGS}"
| "kinds_of (SetBaseFee _) = {TAG_SETTINGS}"
| "kinds_of (SetAuthorFeeCut _) = {TAG_SETTINGS}"
| "kinds_of (SetEntryCut _) = {TAG_SETTINGS}"
| "kinds_of (SetLikeCut _) = {TAG_SETTINGS}"

text \<open>An address derived from seeds has no private key: nobody signs for it in a transaction.\<close>

definition keys_only :: "runtime \<Rightarrow> pubkey \<Rightarrow> account_info list \<Rightarrow> bool" where
  "keys_only rt pid accounts \<longleftrightarrow> (\<forall>a \<in> set accounts. is_signer a \<longrightarrow>
     (\<forall>seeds. ai_key a \<noteq> fst (rt_find_pda rt seeds pid)))"

lemma keys_only_key:
  "keys_only rt pid accounts \<Longrightarrow> a \<in> set accounts \<Longrightarrow> is_signer a \<Longrightarrow>
   ai_key a \<noteq> fst (rt_find_pda rt seeds pid)"
  by (simp add: keys_only_def)

text \<open>The verdict on a run: the other kinds are kept, and, where only keys sign, no lamport is
  created or lost.\<close>

definition orderly ::
  "runtime \<Rightarrow> pubkey \<Rightarrow> u8 set \<Rightarrow> account_info list \<Rightarrow> ledger \<Rightarrow> ledger \<Rightarrow> bool" where
  "orderly rt pid T accounts L L' \<longleftrightarrow>
     kept pid T L L' \<and> (keys_only rt pid accounts \<longrightarrow> total L' = total L)"

context solana
begin

lemma orderly_effect:
  assumes "effect pid K P L L'"
    and "\<And>k. k \<in> K \<Longrightarrow> set_option (tag_byte pid L k) \<subseteq> T \<and> set_option (tag_byte pid L' k) \<subseteq> T"
  shows "orderly rt pid T accounts L L'"
  using effect_kept [OF assms] effect_total [OF assms(1)] by (simp add: orderly_def)

text \<open>One account of one kind rewritten in place.\<close>

lemma orderly_one:
  assumes "\<And>j. j \<noteq> k \<Longrightarrow> L' j = L j" "\<And>j. acc_lamports (L' j) = acc_lamports (L j)"
    and "tag_byte pid L k = Some t" "tag_byte pid L' k = Some t"
  shows "orderly rt pid {t} accounts L L'"
proof -
  have "kept pid {t} L L'"
    unfolding kept_def
  proof
    fix j
    show "acc_owner (L' j) = acc_owner (L j) \<and> acc_data (L' j) = acc_data (L j) \<or>
        set_option (tag_byte pid L j) \<subseteq> {t} \<and> set_option (tag_byte pid L' j) \<subseteq> {t}"
      using assms(1) [of j] assms(3,4) by (cases "j = k") simp_all
  qed
  moreover have "total L' = total L" using assms(2) by (rule total_cong)
  ultimately show ?thesis by (simp add: orderly_def)
qed

end

section \<open>Every handler is orderly\<close>

context solana
begin

lemma create_root_alloc_orderly:
  assumes "process_create_root_alloc rt pid accounts f i title L = Inr L'"
  shows "orderly rt pid {TAG_THREAD, TAG_ALLOC} accounts L L'"
proof -
  from create_root_alloc_ok [OF assms] obtain payer th al :: account_info and t n where
    "is_uninitialized rt th L" "is_uninitialized rt al L"
    "thread_at rt pid L' (ai_key th) = Some t" "alloc_at rt pid L' (ai_key al) = Some n"
    and e: "effect pid {ai_key th, ai_key al} {ai_key payer} L L'"
    by blast
  then show ?thesis by (intro orderly_effect [OF e]) (auto dest: tags)
qed

lemma prepare_alloc_orderly:
  assumes "process_prepare_alloc rt pid accounts q L = Inr L'"
  shows "orderly rt pid {TAG_THREAD, TAG_ALLOC} accounts L L'"
proof -
  from prepare_alloc_ok [OF assms] obtain payer new th :: account_info and t t' n where
    "is_uninitialized rt new L" "thread_at rt pid L (ai_key th) = Some t"
    "thread_at rt pid L' (ai_key th) = Some t'" "alloc_at rt pid L' (ai_key new) = Some n"
    and e: "effect pid {ai_key new, ai_key th} {ai_key payer} L L'"
    by blast
  then show ?thesis by (intro orderly_effect [OF e]) (auto dest: tags)
qed

lemma set_thread_fee_orderly:
  assumes "process_set_message_fee rt pid accounts fee L = Inr L' \<or>
      process_set_like_fee rt pid accounts fee L = Inr L'"
  shows "orderly rt pid {TAG_THREAD} accounts L L'"
proof -
  from set_thread_fee_ok [OF assms] obtain th :: account_info and t t' where
    "thread_at rt pid L (ai_key th) = Some t" "thread_at rt pid L' (ai_key th) = Some t'"
    "\<forall>k. k \<noteq> ai_key th \<longrightarrow> L' k = L k" "\<forall>k. acc_lamports (L' k) = acc_lamports (L k)"
    by (elim exE conjE)
  then show ?thesis by (intro orderly_one [of "ai_key th"]) (auto dest: tags)
qed

lemma fill_slot_orderly:
  assumes "process_fill_slot rt pid accounts kind body cands i j ra rs m L = Inr L'"
  shows "orderly rt pid {TAG_CONTENT} accounts L L'"
proof -
  from fill_slot_posts [OF assms] obtain payer a :: account_info and n where
    "is_uninitialized rt a L" "content_at rt pid L' (ai_key a) = Some n"
    and e: "effect pid {ai_key a} {ai_key payer} L L'"
    by blast
  then show ?thesis by (intro orderly_effect [OF e]) (auto dest: tags)
qed

lemma append_content_orderly:
  assumes "process_append_content rt pid accounts chunk i j L = Inr L'"
  shows "orderly rt pid {TAG_CONTENT} accounts L L'"
proof -
  from append_content_ok [OF assms] obtain payer ca :: account_info and n n' where
    "content_at rt pid L (ai_key ca) = Some n" "content_at rt pid L' (ai_key ca) = Some n'"
    and e: "effect pid {ai_key ca} {ai_key payer} L L'"
    by blast
  then show ?thesis by (intro orderly_effect [OF e]) (auto dest: tags)
qed

lemma close_account_orderly:
  assumes "process_close_account rt pid accounts L = Inr L'"
  shows "orderly rt pid {TAG_CONTENT, TAG_LIKES} accounts L L'"
proof -
  from close_account_ok [OF assms] obtain payer a :: account_info and rest n L1 where
    acc: "accounts = payer # a # rest" "is_signer payer"
    and at: "content_at rt pid L (ai_key a) = Some n" "ai_key a = content_address rt pid (cn_header n)"
    and gone: "acc_data (L' (ai_key a)) = []"
    and lk: "rest = [] \<and> L1 = L \<or>
      (\<exists>lk tail. rest = lk # tail \<and> ai_key lk \<noteq> ai_key a \<and> reset_likes rt pid n lk L = Inr L1 \<and>
        acc_owner (L' (ai_key lk)) = acc_owner (L1 (ai_key lk)) \<and>
        acc_data (L' (ai_key lk)) = acc_data (L1 (ai_key lk)))"
    and q: "quiet pid (insert (ai_key a) (ai_key ` set (take 1 rest))) L L'"
    and m: "ai_key payer \<noteq> ai_key a \<longrightarrow>
      lamports L' a = 0 \<and> unat (lamports L' payer) = unat (lamports L payer) + unat (lamports L a) \<and>
      effect pid (insert (ai_key a) (ai_key ` set (take 1 rest))) {ai_key a} L L'"
    by (elim exE conjE)
  let ?K = "insert (ai_key a) (ai_key ` set (take 1 rest))"
  let ?T = "{TAG_CONTENT, TAG_LIKES}"
  have kinds: "set_option (tag_byte pid L k) \<subseteq> ?T \<and> set_option (tag_byte pid L' k) \<subseteq> ?T"
    if "k \<in> ?K" for k
  proof (cases "k = ai_key a")
    case True
    with at(1) gone show ?thesis by (auto dest: tags)
  next
    case False
    with that lk obtain l tail where rest: "rest = l # tail" and k: "k = ai_key l"
      and reset: "reset_likes rt pid n l L = Inr L1"
      and same: "acc_owner (L' k) = acc_owner (L1 k)" "acc_data (L' k) = acc_data (L1 k)"
      by (auto simp: image_iff)
    then show ?thesis
      using reset_likes_ok(5) [OF reset] tag_byte_cong [of L' k L1, OF same, of pid] by (auto dest: tags)
  qed
  have "total L' = total L" if "keys_only rt pid accounts"
  proof -
    from that acc have "ai_key payer \<noteq> ai_key a"
      unfolding at(2) content_address_def derive_content_pda_def by (intro keys_only_key) auto
    with m show ?thesis by (simp add: effect_def)
  qed
  with quiet_kept [OF q kinds] show ?thesis by (simp add: orderly_def)
qed

lemma like_content_orderly:
  assumes "process_like_content rt pid accounts q s i j m L = Inr L'"
  shows "orderly rt pid {TAG_LIKES} accounts L L'"
proof -
  from like_content_ok [OF assms] obtain payer lk :: account_info and l where
    "tag_byte pid L (ai_key lk) \<in> {None, Some TAG_LIKES}" "likes_at rt pid L' (ai_key lk) = Some l"
    and e: "effect pid {ai_key lk} {ai_key payer} L L'"
    by (elim exE conjE)
  then show ?thesis by (intro orderly_effect [OF e]) (auto dest: tags)
qed

lemma sweep_shards_orderly:
  "sweep_shards rt pid v r m xs L = Inr L' \<Longrightarrow> orderly rt pid T accounts L L'"
  by (simp add: orderly_def sweep_shards_ok(1-3) contents_kept)

lemma sweep_orderly:
  "process_sweep_treasury rt pid accounts is L = Inr L' \<Longrightarrow> orderly rt pid {} accounts L L'"
  "process_sweep_author_fees rt pid accounts js L = Inr L' \<Longrightarrow> orderly rt pid {} accounts L L'"
  unfolding process_sweep_treasury_def process_sweep_author_fees_def
  by (auto simp: Let_def attempt_Inr_iff split: if_splits intro: sweep_shards_orderly)

lemma init_thread_access_orderly:
  assumes "process_init_thread_access rt pid accounts enabled i L = Inr L'"
  shows "orderly rt pid {TAG_ACCESS} accounts L L'"
proof -
  from init_thread_access_ok [OF assms] obtain authority access :: account_info and x where
    "is_uninitialized rt access L" "access_at rt pid L' (ai_key access) = Some x"
    and e: "effect pid {ai_key access} {ai_key authority} L L'"
    by blast
  then show ?thesis by (intro orderly_effect [OF e]) (auto dest: tags)
qed

lemma access_switch_orderly:
  assumes "process_set_thread_access rt pid accounts enabled L = Inr L' \<or>
    process_set_entry_fee rt pid accounts fee L = Inr L'"
  shows "orderly rt pid {TAG_ACCESS} accounts L L'"
proof -
  from assms obtain a :: account_info and x x' where
    "access_at rt pid L (ai_key a) = Some x" "access_at rt pid L' (ai_key a) = Some x'"
    "\<forall>k. k \<noteq> ai_key a \<longrightarrow> L' k = L k" "\<forall>k. acc_lamports (L' k) = acc_lamports (L k)"
    by (elim disjE) (drule access_switch_ok; elim exE conjE; rule that; assumption)+
  then show ?thesis by (intro orderly_one [of "ai_key a"]) (auto dest: tags)
qed

lemma request_access_orderly:
  assumes "process_request_access rt pid accounts i j L = Inr L'"
  shows "orderly rt pid {TAG_ACCESS, TAG_ACCESS_ENTRY} accounts L L'"
proof -
  from request_access_ok [OF assms] obtain payer access entry :: account_info and x x' e' where
    "access_at rt pid L (ai_key access) = Some x" "access_at rt pid L' (ai_key access) = Some x'"
    "is_uninitialized rt entry L" "entry_at rt pid L' (ai_key entry) = Some e'"
    and e: "effect pid {ai_key entry, ai_key access} {ai_key payer} L L'"
    by (elim exE conjE)
  then show ?thesis by (intro orderly_effect [OF e]) (auto dest: tags)
qed

lemma status_setter_orderly:
  assumes "status_setter status rt pid accounts wallet L = Inr L'" "a_status status"
  shows "orderly rt pid {TAG_ACCESS, TAG_ACCESS_ENTRY} accounts L L'"
proof -
  from assms obtain authority access entry sp where
    run: "apply_access_entry_status rt pid authority access entry sp wallet status L = Inr L'"
    by (auto simp: status_setter_Inr_iff)
  from apply_access_entry_status_ok [OF run] obtain x x' where
    "access_at rt pid L (ai_key access) = Some x" "access_at rt pid L' (ai_key access) = Some x'"
    "tag_byte pid L (ai_key entry) \<in> {None, Some TAG_ACCESS_ENTRY}"
    "entry_at rt pid L' (ai_key entry) = Some (entry_for (ta_thread x) wallet status)"
    and e: "effect pid {ai_key entry, ai_key access} {ai_key authority} L L'"
    by (elim exE conjE)
  then show ?thesis by (intro orderly_effect [OF e]) (auto dest: tags)
qed

lemma status_remover_orderly:
  assumes "status_remover status rt pid accounts wallet L = Inr L'" "a_status status"
  shows "orderly rt pid {TAG_ACCESS, TAG_ACCESS_ENTRY} accounts L L'"
proof -
  from assms obtain authority access entry sp rest where
    acc: "accounts = authority # access # entry # sp # rest"
    and run: "remove_access_entry rt pid authority access entry wallet status L = Inr L'"
    by (auto simp: status_remover_Inr_iff)
  from remove_access_entry_ok [OF run] obtain x x' where
    x: "is_signer authority" "access_at rt pid L (ai_key access) = Some x"
      "ai_key entry = fst (derive_access_entry_pda rt pid (ta_thread x) wallet)"
      "entry_at rt pid L (ai_key entry) = Some (entry_for (ta_thread x) wallet status)"
      "acc_data (L' (ai_key entry)) = []" "access_at rt pid L' (ai_key access) = Some x'"
    and q: "quiet pid {ai_key entry, ai_key access} L L'"
    and m: "ai_key entry \<noteq> ai_key authority \<longrightarrow>
      effect pid {ai_key entry, ai_key access} {ai_key entry} L L' \<and>
      unat (lamports L' authority) = unat (lamports L authority) + unat (lamports L entry)"
    by (elim exE conjE)
  have "total L' = total L" if "keys_only rt pid accounts"
  proof -
    from that acc x(1) have "ai_key entry \<noteq> ai_key authority"
      unfolding x(3) derive_access_entry_pda_def by (intro not_sym [OF keys_only_key]) auto
    with m show ?thesis by (simp add: effect_def)
  qed
  moreover have "kept pid {TAG_ACCESS, TAG_ACCESS_ENTRY} L L'"
    using x by (intro quiet_kept [OF q]) (auto dest: tags)
  ultimately show ?thesis by (simp add: orderly_def)
qed

lemma subscribe_orderly:
  assumes "process_subscribe rt pid accounts L = Inr L'"
  shows "orderly rt pid {TAG_FOLLOW_REGISTRY, TAG_FOLLOWER_SHARD} accounts L L'"
proof -
  from subscribe_ok [OF assms] obtain user reg sh :: account_info and r' s' where
    "tag_byte pid L (ai_key reg) \<in> {None, Some TAG_FOLLOW_REGISTRY}"
    "tag_byte pid L (ai_key sh) \<in> {None, Some TAG_FOLLOWER_SHARD}"
    "registry_at rt pid L' (ai_key reg) = Some r'" "follower_shard_at rt pid L' (ai_key sh) = Some s'"
    and e: "effect pid {ai_key reg, ai_key sh} {ai_key user} L L'"
    by (elim exE conjE)
  then show ?thesis by (intro orderly_effect [OF e]) (auto dest: tags)
qed

lemma unsubscribe_orderly:
  assumes "process_unsubscribe rt pid accounts L = Inr L'"
  shows "orderly rt pid {TAG_FOLLOW_REGISTRY, TAG_FOLLOWER_SHARD} accounts L L'"
proof -
  from unsubscribe_ok [OF assms] obtain reg sh :: account_info and r r' s s' where
    "registry_at rt pid L (ai_key reg) = Some r" "registry_at rt pid L' (ai_key reg) = Some r'"
    "follower_shard_at rt pid L (ai_key sh) = Some s"
    "follower_shard_at rt pid L' (ai_key sh) = Some s'"
    and e: "effect pid {ai_key reg, ai_key sh} {ai_key reg} L L'"
    by (elim exE conjE)
  then show ?thesis by (intro orderly_effect [OF e]) (auto dest: tags)
qed

lemma init_settings_orderly:
  assumes "process_init_settings rt pid accounts treasury L = Inr L'"
  shows "orderly rt pid {TAG_SETTINGS} accounts L L'"
proof -
  from init_settings_ok [OF assms] obtain authority sa :: account_info and s where
    "is_uninitialized rt sa L" "settings_at rt pid L' (ai_key sa) = Some s"
    and e: "effect pid {ai_key sa} {ai_key authority} L L'"
    by (elim exE conjE)
  then show ?thesis by (intro orderly_effect [OF e]) (auto dest: tags)
qed

lemma settings_orderly:
  assumes "attempt (next_account_info accounts) (\<lambda>(authority, it).
      attempt (next_account_info it) (\<lambda>(a, it').
      attempt (load_admin_settings rt pid authority a L) (\<lambda>s.
      serialize (program_settings_codec (rt_borsh rt)) (f s) a L))) = Inr L'"
    and "\<And>s. ps_tag (f s) = ps_tag s"
  shows "orderly rt pid {TAG_SETTINGS} accounts L L'"
proof -
  from settings_update.update_ok [OF assms(1)] assms(2) obtain a :: account_info and s where
    "settings_at rt pid L (ai_key a) = Some s" "settings_at rt pid L' (ai_key a) = Some (f s)"
    "\<forall>k. k \<noteq> ai_key a \<longrightarrow> L' k = L k" "\<forall>k. acc_lamports (L' k) = acc_lamports (L k)"
    by (metis (no_types, lifting))
  then show ?thesis by (intro orderly_one [of "ai_key a"]) (auto dest: tags)
qed

lemma set_settings_orderly:
  "process_set_admin rt pid accounts k L = Inr L' \<Longrightarrow> orderly rt pid {TAG_SETTINGS} accounts L L'"
  "process_set_treasury rt pid accounts k L = Inr L' \<Longrightarrow> orderly rt pid {TAG_SETTINGS} accounts L L'"
  "update_platform_setting rt pid accounts bps f L = Inr L' \<Longrightarrow> (\<And>s. ps_tag (f s) = ps_tag s) \<Longrightarrow>
     orderly rt pid {TAG_SETTINGS} accounts L L'"
  unfolding process_set_admin_def process_set_treasury_def update_platform_setting_def
  by (erule settings_orderly, simp, erule settings_orderly, simp)
    (auto split: if_splits elim: settings_orderly)

section \<open>Every instruction is orderly\<close>

lemmas list_orderlies = status_setter_orderly [of ACCESS_ALLOWED]
  status_setter_orderly [of ACCESS_FEE_EXEMPT] status_setter_orderly [of ACCESS_DENIED]
  status_remover_orderly [of ACCESS_ALLOWED] status_remover_orderly [of ACCESS_FEE_EXEMPT]
  status_remover_orderly [of ACCESS_DENIED]

lemmas orderlies = create_root_alloc_orderly prepare_alloc_orderly
  set_thread_fee_orderly [OF disjI1] set_thread_fee_orderly [OF disjI2]
  fill_slot_orderly append_content_orderly close_account_orderly like_content_orderly sweep_orderly
  init_thread_access_orderly
  access_switch_orderly [OF disjI1] access_switch_orderly [OF disjI2] request_access_orderly
  list_orderlies [unfolded status_setter_def status_remover_def status_defs, simplified]
  subscribe_orderly unsubscribe_orderly init_settings_orderly set_settings_orderly

lemma dispatch_orderly:
  assumes "dispatch rt pid accounts i L = Inr L'"
  shows "orderly rt pid (kinds_of i) accounts L L'"
  using assms orderlies
  by (cases i)
    (auto simp: dispatch_def process_set_base_fee_def process_set_author_fee_cut_def
      process_set_entry_cut_def process_set_like_cut_def)

end

section \<open>Properties\<close>

text \<open>C26. Every instruction keeps to its kinds of accounts: whatever accounts a transaction hands
  to it, an account whose tag is not one of the instruction's keeps owner and data, and none of
  another kind comes into being.\<close>

theorem instructions_stay_in_their_kinds:
  assumes "solana rt pid" "dispatch rt pid accounts i L = Inr L'"
  shows "acc_owner (L' k) = acc_owner (L k) \<and> acc_data (L' k) = acc_data (L k) \<or>
    set_option (tag_byte pid L k) \<subseteq> kinds_of i \<and> set_option (tag_byte pid L' k) \<subseteq> kinds_of i"
  using solana.dispatch_orderly [OF assms] by (simp add: orderly_def kept_def)

theorem instructions_stay_in_their_kinds_witness:
  "tag_byte ref_pid (ok_value (dispatch (ref_rt 0) ref_pid
     [signer_info 21, plain_info 748320, plain_info 47768, plain_info 30, plain_info 0]
     Subscribe prologue)) 30 = Some TAG_THREAD"
proof -
  let ?accounts = "[signer_info 21, plain_info 748320, plain_info 47768, plain_info 30, plain_info 0]"
  have run: "is_ok (dispatch (ref_rt 0) ref_pid ?accounts Subscribe prologue)"
    by (simp add: dispatch_def run_simps cong: run_congs)
  have "thread_at (ref_rt 0) ref_pid prologue 30 = Some stage_thread"
    by (simp add: run_simps)
  then have tag: "tag_byte ref_pid prologue 30 = Some TAG_THREAD"
    by (rule ref_runtime.view_tag_byte(2))
  from instructions_stay_in_their_kinds [OF ref_runtime.solana_axioms is_ok_ok_value [OF run], of 30]
  show ?thesis using tag by (auto simp: tag_byte_def tag_defs split: if_splits)
qed

text \<open>C12. No instruction creates or destroys a lamport, whatever its accounts, as long as those
  that sign the transaction are keys and not addresses derived from seeds, for which no private
  key exists.\<close>

theorem lamports_are_conserved:
  assumes "solana rt pid" "process_instruction rt pid accounts instruction_data L = Inr L'"
    and "\<And>a seeds. a \<in> set accounts \<Longrightarrow> is_signer a \<Longrightarrow> ai_key a \<noteq> fst (rt_find_pda rt seeds pid)"
  shows "total L' = total L"
proof -
  from assms(2) obtain i where "dispatch rt pid accounts i L = Inr L'"
    by (auto simp: process_instruction_Inr_iff)
  from solana.dispatch_orderly [OF assms(1) this] assms(3) show ?thesis
    by (simp add: orderly_def keys_only_def)
qed

lemma ref_hash_ge: "1000 \<le> unat (ref_hash seeds)"
proof -
  have "fold (\<lambda>s a. (a * 257 + of_le_bytes s) mod 1000003) seeds 1 < 1000003"
    by (induction seeds rule: rev_induct) simp_all
  moreover have "unat (of_nat n :: pubkey) = n" if "n < 1001003" for n
    using that by (simp add: unat_of_nat)
  ultimately show ?thesis by (simp only: ref_hash_def le_add1 add_less_mono1 [of _ 1000003 1000, simplified])
qed

theorem lamports_are_conserved_witness:
  "total (ok_value (process_instruction (ref_rt 0) ref_pid
     [signer_info 21, plain_info 748320, plain_info 47768, plain_info 30, plain_info 0]
     [27] prologue)) = total prologue"
proof -
  let ?accounts = "[signer_info 21, plain_info 748320, plain_info 47768, plain_info 30, plain_info 0]"
  have "process_instruction (ref_rt 0) ref_pid ?accounts [27] prologue =
      dispatch (ref_rt 0) ref_pid ?accounts Subscribe prologue"
    by (rule ref_runtime.process_instruction_enc) (simp add: wire_bytes)
  moreover have "is_ok (dispatch (ref_rt 0) ref_pid ?accounts Subscribe prologue)"
    by (simp add: dispatch_def run_simps cong: run_congs)
  ultimately have run: "is_ok (process_instruction (ref_rt 0) ref_pid ?accounts [27] prologue)"
    by simp
  show ?thesis
  proof (rule lamports_are_conserved [OF ref_runtime.solana_axioms is_ok_ok_value [OF run]])
    show "ai_key a \<noteq> fst (rt_find_pda (ref_rt 0) seeds ref_pid)"
      if "a \<in> set ?accounts" "is_signer a" for a seeds
      using that ref_hash_ge [of "seeds @ [[255]]"]
      by (auto simp: signer_info_def plain_info_def ref_find_pda_def)
  qed
qed

end
