(* ===== verification/System.thy ===== *)
theory System
  imports Kinds
begin

text \<open>
  The program over time. A step is a successful instruction of the program, with any accounts
  and any bytes, or whatever else happens on the chain between two of them; a failed
  instruction is rolled back and is no step. The invariants of the components hold in every
  state that can be reached: each is an instance of one contract, \<open>kind_invariant\<close>, that asks
  for a frame and for the instructions that write its kinds.
\<close>

section \<open>Steps\<close>

text \<open>Between instructions of the program: other programs and the runtime leave the owner and
  data of its accounts alone, and an account that is handed over to it comes zeroed.\<close>

definition outside_step :: "pubkey \<Rightarrow> ledger \<Rightarrow> ledger \<Rightarrow> bool" where
  "outside_step pid L L' \<longleftrightarrow> (\<forall>k.
     (if acc_owner (L k) = pid
      then acc_owner (L' k) = pid \<and> acc_data (L' k) = acc_data (L k)
      else acc_owner (L' k) = pid \<longrightarrow> (\<forall>b \<in> set (acc_data (L' k)). b = 0)))"

text \<open>Time passes: each call finds the clock and the rent of its moment. The clock counts the
  seconds since 1970.\<close>

definition at_time :: "i64 \<Rightarrow> (nat \<Rightarrow> u64) \<Rightarrow> runtime \<Rightarrow> runtime" where
  "at_time now rent rt = rt\<lparr>rt_clock := Inr now, rt_rent := Inr rent\<rparr>"

inductive step :: "runtime \<Rightarrow> pubkey \<Rightarrow> ledger \<Rightarrow> ledger \<Rightarrow> bool" for rt pid where
  call: "0 \<le> sint now \<Longrightarrow> process_instruction (at_time now rent rt) pid accounts bytes L = Inr L' \<Longrightarrow>
    step rt pid L L'"
| outside: "outside_step pid L L' \<Longrightarrow> step rt pid L L'"

inductive_cases stepE [elim]: "step rt pid L L'"

text \<open>A thread has fewer than \<open>2 ^ 32\<close> allowed wallets: its counter is a \<open>u32\<close>. Each of them
  costs the rent of an account, some 0.0015 SOL, so this many would take over six million.\<close>

definition countable_lists :: "runtime \<Rightarrow> pubkey \<Rightarrow> ledger \<Rightarrow> bool" where
  "countable_lists rt pid L \<longleftrightarrow> (\<forall>t. card (allowed_entries rt pid L t) < 2 ^ 32)"

inductive reachable :: "runtime \<Rightarrow> pubkey \<Rightarrow> ledger \<Rightarrow> bool" for rt pid where
  start: "(\<And>k. acc_owner (L k) \<noteq> pid) \<Longrightarrow> reachable rt pid L"
| more: "reachable rt pid L \<Longrightarrow> step rt pid L L' \<Longrightarrow> countable_lists rt pid L' \<Longrightarrow>
    reachable rt pid L'"

section \<open>Another time\<close>

lemma at_time_simps [simp]:
  "rt_borsh (at_time now rent rt) = rt_borsh rt"
  "rt_find_pda (at_time now rent rt) = rt_find_pda rt"
  "rt_create_pda (at_time now rent rt) = rt_create_pda rt"
  "rt_system_id (at_time now rent rt) = rt_system_id rt"
  "rt_loader_id (at_time now rent rt) = rt_loader_id rt"
  "rt_clock (at_time now rent rt) = Inr now" "rt_rent (at_time now rent rt) = Inr rent"
  "rt_transfer (at_time now rent rt) = rt_transfer rt"
  "rt_create_account (at_time now rent rt) = rt_create_account rt"
  "rt_allocate (at_time now rent rt) = rt_allocate rt"
  "rt_assign (at_time now rent rt) = rt_assign rt"
  "rt_resize (at_time now rent rt) = rt_resize rt"
  by (simp_all add: at_time_def)

lemma at_time_signs [simp]: "signs (at_time now rent rt) = signs rt"
  by (simp add: fun_eq_iff signs_def)

text \<open>Neither what an account means nor where it is depends on the time.\<close>

lemma at_time_views [simp]:
  "alloc_at (at_time now rent rt) = alloc_at rt" "thread_at (at_time now rent rt) = thread_at rt"
  "settings_at (at_time now rent rt) = settings_at rt" "access_at (at_time now rent rt) = access_at rt"
  "entry_at (at_time now rent rt) = entry_at rt" "likes_at (at_time now rent rt) = likes_at rt"
  "registry_at (at_time now rent rt) = registry_at rt"
  "follower_shard_at (at_time now rent rt) = follower_shard_at rt"
  "content_at (at_time now rent rt) = content_at rt"
  by (simp_all add: view_defs fun_eq_iff)

lemma at_time_addresses [simp]:
  "derive_alloc_pda (at_time now rent rt) = derive_alloc_pda rt"
  "derive_content_pda (at_time now rent rt) = derive_content_pda rt"
  "derive_access_pda (at_time now rent rt) = derive_access_pda rt"
  "derive_access_entry_pda (at_time now rent rt) = derive_access_entry_pda rt"
  "derive_follow_registry_pda (at_time now rent rt) = derive_follow_registry_pda rt"
  "derive_follower_shard_pda (at_time now rent rt) = derive_follower_shard_pda rt"
  "derive_settings_pda (at_time now rent rt) = derive_settings_pda rt"
  "chain_address (at_time now rent rt) = chain_address rt"
  "content_address (at_time now rent rt) = content_address rt"
  "access_address (at_time now rent rt) = access_address rt"
  "shard_address (at_time now rent rt) = shard_address rt"
  by (simp_all add: fun_eq_iff derive_alloc_pda_def derive_content_pda_def derive_access_pda_def
      derive_access_entry_pda_def derive_follow_registry_pda_def derive_follower_shard_pda_def
      derive_settings_pda_def chain_address_def content_address_def access_address_def
      shard_address_def)

lemma at_time_books [simp]:
  "chains (at_time now rent rt) = chains rt"
  "whitelist_exact (at_time now rent rt) = whitelist_exact rt"
  "followers_counted (at_time now rent rt) = followers_counted rt"
  "follow_lists_ok (at_time now rent rt) = follow_lists_ok rt"
  "countable_lists (at_time now rent rt) = countable_lists rt"
  by (simp_all add: fun_eq_iff chains_def whitelist_exact_def access_of_def allowed_entries_def
      followers_counted_def followers_in_def follower_count_def follow_lists_ok_def
      countable_lists_def)

context solana
begin

lemma at_another_time: "solana (at_time now rent rt) pid"
  by (rule solana.intro; unfold at_time_simps at_time_signs)
    (rule format pid_not_system | erule transfer_ok create_account_ok allocate_ok assign_ok resize_ok)+

lemma outside_kept: "outside_step pid L L' \<Longrightarrow> kept pid {0} L L'"
  unfolding kept_def
proof
  fix k
  assume o: "outside_step pid L L'"
  show "acc_owner (L' k) = acc_owner (L k) \<and> acc_data (L' k) = acc_data (L k) \<or>
     set_option (tag_byte pid L k) \<subseteq> {0} \<and> set_option (tag_byte pid L' k) \<subseteq> {0}"
  proof (cases "acc_owner (L k) = pid")
    case True
    with o show ?thesis unfolding outside_step_def by metis
  next
    case False
    then have "acc_owner (L' k) = pid \<Longrightarrow> \<forall>b \<in> set (acc_data (L' k)). b = 0"
      using o unfolding outside_step_def by metis
    with False show ?thesis by (auto simp: tag_byte_def split: if_splits list.splits)
  qed
qed

text \<open>What holds at the start and is kept by every call at any time and by everything outside
  holds in every reachable state.\<close>

lemma reachable_inv:
  assumes "reachable rt pid L" "\<And>L. (\<And>k. acc_owner (L k) \<noteq> pid) \<Longrightarrow> J L"
    and "\<And>now rent accounts i L L'. 0 \<le> sint now \<Longrightarrow>
      dispatch (at_time now rent rt) pid accounts i L = Inr L' \<Longrightarrow>
      countable_lists rt pid L' \<Longrightarrow> J L \<Longrightarrow> J L'"
    and "\<And>L L'. outside_step pid L L' \<Longrightarrow> J L \<Longrightarrow> J L'"
  shows "J L"
  using assms(1)
proof induction
  case (start L)
  then show ?case by (rule assms(2))
next
  case (more L L')
  from more.hyps(2) show ?case
  proof cases
    case (call now rent accounts bytes)
    with assms(3) more.hyps(3) more.IH show ?thesis by (auto simp: process_instruction_Inr_iff)
  next
    case outside
    with assms(4) more.IH show ?thesis by blast
  qed
qed

end

section \<open>The contract of an invariant\<close>

text \<open>An invariant about the kinds \<open>T\<close>: what leaves these kinds alone keeps it, and so do the
  instructions that write them.\<close>

locale kind_invariant = solana +
  fixes inv :: "ledger \<Rightarrow> bool" and T :: "u8 set"
  assumes tagged: "0 \<notin> T"
    and inv_frame: "kept pid U L L' \<Longrightarrow> U \<inter> T = {} \<Longrightarrow> inv L \<Longrightarrow> inv L'"
    and inv_dispatch: "dispatch rt pid accounts i L = Inr L' \<Longrightarrow> kinds_of i \<inter> T \<noteq> {} \<Longrightarrow>
      countable_lists rt pid L' \<Longrightarrow> inv L \<Longrightarrow> inv L'"
begin

lemma inv_run:
  assumes "dispatch rt pid accounts i L = Inr L'" "countable_lists rt pid L'" "inv L"
  shows "inv L'"
proof (cases "kinds_of i \<inter> T = {}")
  case True
  from dispatch_orderly [OF assms(1)] have "kept pid (kinds_of i) L L'" by (simp add: orderly_def)
  from inv_frame [OF this True assms(3)] show ?thesis .
qed (rule inv_dispatch [OF assms(1) _ assms(2,3)])

lemma inv_outside:
  assumes "outside_step pid L L'" "inv L"
  shows "inv L'"
  using inv_frame [OF outside_kept [OF assms(1)] _ assms(2)] tagged by simp

end

section \<open>The invariants\<close>

context solana
begin

text \<open>Views of a kind that is kept.\<close>

lemmas views_kept =
  alloc_view.view_kept [OF tags(1)] thread_view.view_kept [OF tags(2)]
  settings_view.view_kept [OF tags(3)] access_view.view_kept [OF tags(4)]
  entry_view.view_kept [OF tags(5)] likes_view.view_kept [OF tags(6)]
  registry_view.view_kept [OF tags(7)] shard_view.view_kept [OF tags(8)]
  content_view.view_kept [OF tags(9)]

lemma dispatch_kept: "dispatch rt pid accounts i L = Inr L' \<Longrightarrow> kept pid (kinds_of i) L L'"
  using dispatch_orderly by (simp add: orderly_def)

lemmas dispatch_views = views_kept [OF _ dispatch_kept]

lemmas no_views =
  alloc_view.view_unowned thread_view.view_unowned settings_view.view_unowned
  access_view.view_unowned entry_view.view_unowned likes_view.view_unowned
  registry_view.view_unowned shard_view.view_unowned content_view.view_unowned

end

lemmas handler_dispatch = dispatch_def tag_defs

sublocale solana \<subseteq> chains_inv: kind_invariant rt pid "chains rt pid" "{TAG_THREAD, TAG_ALLOC}"
proof (unfold_locales, goal_cases)
  case 1
  show ?case by (simp add: tag_defs)
next
  case (2 U L L')
  then have "thread_at rt pid L' k = thread_at rt pid L k" "alloc_at rt pid L' k = alloc_at rt pid L k"
    for k by (auto intro: views_kept)
  with chains_frame [OF 2(3)] show ?case by simp
next
  case (3 accounts i L L')
  then show ?case
    using chains_create chains_prepare chains_fee [OF disjI1] chains_fee [OF disjI2]
    by (cases i) (auto simp: handler_dispatch)
qed

sublocale solana \<subseteq> whitelist_inv: kind_invariant rt pid "whitelist_exact rt pid"
    "{TAG_ACCESS, TAG_ACCESS_ENTRY}"
proof (unfold_locales, goal_cases)
  case 1
  show ?case by (simp add: tag_defs)
next
  case (2 U L L')
  then have "access_at rt pid L' k = access_at rt pid L k" "entry_at rt pid L' k = entry_at rt pid L k"
    for k by (auto intro: views_kept)
  with whitelist_frame [OF 2(3)] show ?case by (simp add: access_of_def)
next
  case (3 accounts i L L')
  then have small: "card (allowed_entries rt pid L' t) < 2 ^ 32" for t
    by (simp add: countable_lists_def)
  note lists = whitelist_apply [OF _ 3(4) small] whitelist_remove [OF _ 3(4) small]
  from 3 show ?case
    using whitelist_init whitelist_switch [OF disjI1] whitelist_switch [OF disjI2]
      whitelist_request [OF _ 3(4) small]
    by (cases i) (auto simp: handler_dispatch acl_handlers(4-9) attempt_Inr_iff next_account_info_Inr_iff
      dest: lists)
qed

sublocale solana \<subseteq> follow_inv: kind_invariant rt pid
    "\<lambda>L. followers_counted rt pid L \<and> follow_lists_ok rt pid L"
    "{TAG_FOLLOW_REGISTRY, TAG_FOLLOWER_SHARD}"
proof (unfold_locales, goal_cases)
  case 1
  show ?case by (simp add: tag_defs)
next
  case (2 U L L')
  then have "registry_at rt pid L' k = registry_at rt pid L k"
    "follower_shard_at rt pid L' k = follower_shard_at rt pid L k"
    for k by (auto intro: views_kept)
  with 2(3) show ?case
    by (simp add: followers_counted_def follow_lists_ok_def followers_in_def follower_count_def)
next
  case (3 accounts i L L')
  then show ?case
    using follow_subscribe follow_unsubscribe
    by (cases i) (auto simp: handler_dispatch)
qed

definition all_capped :: "runtime \<Rightarrow> pubkey \<Rightarrow> ledger \<Rightarrow> bool" where
  "all_capped rt pid L \<longleftrightarrow> (\<forall>k s. settings_at rt pid L k = Some s \<longrightarrow>
     k = fst (derive_settings_pda rt pid) \<and> settings_capped s)"


context solana
begin

lemma all_capped_one:
  assumes "all_capped rt pid L" and "\<And>k. k \<noteq> j \<Longrightarrow> settings_at rt pid L' k = settings_at rt pid L k"
    and "settings_at rt pid L' j = Some s" "j = fst (derive_settings_pda rt pid)" "settings_capped s"
  shows "all_capped rt pid L'"
  unfolding all_capped_def
proof (intro allI impI)
  fix k u
  assume "settings_at rt pid L' k = Some u"
  with assms show "k = fst (derive_settings_pda rt pid) \<and> settings_capped u"
    unfolding all_capped_def by (cases "k = j") auto
qed

lemma all_capped_init:
  assumes "process_init_settings rt pid accounts treasury L = Inr L'" "all_capped rt pid L"
  shows "all_capped rt pid L'"
proof -
  from init_settings_ok [OF assms(1)] obtain authority sa :: account_info where
    sa: "ai_key sa = fst (derive_settings_pda rt pid)"
    and s: "settings_at rt pid L' (ai_key sa) = Some \<lparr>ps_tag = TAG_SETTINGS,
      ps_admin = ai_key authority, ps_treasury = treasury, ps_base_fee_bps = 1000,
      ps_author_fee_cut_bps = 1000, ps_entry_cut_bps = 1000, ps_like_cut_bps = 1000\<rparr>"
    and e: "effect pid {ai_key sa} {ai_key authority} L L'"
    by (elim exE conjE)
  from settings_view.view_effect [OF e] show ?thesis
    by (intro all_capped_one [OF assms(2) _ s sa])
      (simp_all add: settings_capped_def MAX_FEE_CUT_BPS_def)
qed

lemma all_capped_update:
  assumes "attempt (next_account_info accounts) (\<lambda>(authority, it).
      attempt (next_account_info it) (\<lambda>(a, it').
      attempt (load_admin_settings rt pid authority a L) (\<lambda>s.
      serialize (program_settings_codec (rt_borsh rt)) (f s) a L))) = Inr L'"
    and f: "\<And>s. ps_tag (f s) = ps_tag s \<and> (settings_capped s \<longrightarrow> settings_capped (f s))"
    and "all_capped rt pid L"
  shows "all_capped rt pid L'"
proof -
  from settings_update.update_ok [OF assms(1)] f obtain a :: account_info and s where
    s: "settings_at rt pid L (ai_key a) = Some s" "settings_at rt pid L' (ai_key a) = Some (f s)"
    and same: "\<forall>k. k \<noteq> ai_key a \<longrightarrow> L' k = L k"
    by (metis (no_types, lifting))
  from assms(3) s(1) f have "ai_key a = fst (derive_settings_pda rt pid)" "settings_capped (f s)"
    unfolding all_capped_def by blast+
  with all_capped_one [OF assms(3) _ s(2)] same settings_view.view_same show ?thesis by blast
qed

lemma all_capped_setters:
  assumes "all_capped rt pid L"
  shows "process_set_admin rt pid accounts k L = Inr L' \<Longrightarrow> all_capped rt pid L'"
    "process_set_treasury rt pid accounts k L = Inr L' \<Longrightarrow> all_capped rt pid L'"
    "process_set_base_fee rt pid accounts bps L = Inr L' \<or>
      process_set_author_fee_cut rt pid accounts bps L = Inr L' \<or>
      process_set_entry_cut rt pid accounts bps L = Inr L' \<or>
      process_set_like_cut rt pid accounts bps L = Inr L' \<Longrightarrow> all_capped rt pid L'"
proof -
  show "process_set_admin rt pid accounts k L = Inr L' \<Longrightarrow> all_capped rt pid L'"
    "process_set_treasury rt pid accounts k L = Inr L' \<Longrightarrow> all_capped rt pid L'"
    unfolding process_set_admin_def process_set_treasury_def
    by (erule all_capped_update [OF _ _ assms], simp add: settings_capped_def)+
  assume "process_set_base_fee rt pid accounts bps L = Inr L' \<or>
      process_set_author_fee_cut rt pid accounts bps L = Inr L' \<or>
      process_set_entry_cut rt pid accounts bps L = Inr L' \<or>
      process_set_like_cut rt pid accounts bps L = Inr L'"
  from fee_setter_cases [OF this] obtain f where
    run: "update_platform_setting rt pid accounts bps f L = Inr L'"
    and f: "\<And>s. ps_tag (f s) = ps_tag s"
      "\<And>s. settings_capped s \<Longrightarrow> bps \<le> MAX_FEE_CUT_BPS \<Longrightarrow> settings_capped (f s)"
    by blast
  from run have le: "bps \<le> MAX_FEE_CUT_BPS"
    and update: "attempt (next_account_info accounts) (\<lambda>(authority, it).
      attempt (next_account_info it) (\<lambda>(a, it').
      attempt (load_admin_settings rt pid authority a L) (\<lambda>s.
      serialize (program_settings_codec (rt_borsh rt)) (f s) a L))) = Inr L'"
    by (auto simp: update_platform_setting_def split: if_splits)
  with all_capped_update [OF update _ assms] f show "all_capped rt pid L'" by blast
qed

end

sublocale solana \<subseteq> settings_inv: kind_invariant rt pid "all_capped rt pid" "{TAG_SETTINGS}"
proof (unfold_locales, goal_cases)
  case 1
  show ?case by (simp add: tag_defs)
next
  case (2 U L L')
  then have "settings_at rt pid L' k = settings_at rt pid L k" for k by (auto intro: views_kept)
  with 2(3) show ?case by (simp add: all_capped_def)
next
  case (3 accounts i L L')
  then show ?case
    using all_capped_init all_capped_setters(1,2) [OF 3(4)]
      all_capped_setters(3) [OF 3(4) disjI1]
      all_capped_setters(3) [OF 3(4) disjI2, OF disjI1]
      all_capped_setters(3) [OF 3(4) disjI2, OF disjI2, OF disjI1]
      all_capped_setters(3) [OF 3(4) disjI2, OF disjI2, OF disjI2]
    by (cases i) (auto simp: handler_dispatch)
qed

context solana
begin

lemma at_time_capped [simp]: "all_capped (at_time now rent rt) = all_capped rt"
  by (simp add: fun_eq_iff all_capped_def)

lemma books_start:
  assumes "\<And>k. acc_owner (L k) \<noteq> pid"
  shows "chains rt pid L" "whitelist_exact rt pid L" "followers_counted rt pid L"
    "follow_lists_ok rt pid L" "all_capped rt pid L"
  using no_views [OF assms]
  by (simp_all add: chains_def whitelist_exact_def access_of_def allowed_entries_def
      followers_counted_def followers_in_def follower_count_def follow_lists_ok_def all_capped_def)

lemmas chains_run = chains_inv.inv_run
lemmas whitelist_run = whitelist_inv.inv_run
lemmas follow_inv_run = follow_inv.inv_run
lemmas settings_inv_run = settings_inv.inv_run

lemmas books_run = solana.chains_run [OF at_another_time, unfolded at_time_books]
  solana.whitelist_run [OF at_another_time, unfolded at_time_books]
  solana.follow_inv_run [OF at_another_time, unfolded at_time_books]
  solana.settings_inv_run [OF at_another_time, unfolded at_time_books at_time_capped]

lemma books_reachable:
  assumes "reachable rt pid L"
  shows "chains rt pid L" "whitelist_exact rt pid L"
    "followers_counted rt pid L \<and> follow_lists_ok rt pid L" "all_capped rt pid L"
  by (rule reachable_inv [where J = "chains rt pid", OF assms],
      erule books_start(1), erule (2) books_run(1), erule (1) chains_inv.inv_outside)
    (rule reachable_inv [where J = "whitelist_exact rt pid", OF assms],
      erule books_start(2), erule (2) books_run(2), erule (1) whitelist_inv.inv_outside,
     rule reachable_inv [where J = "\<lambda>L. followers_counted rt pid L \<and> follow_lists_ok rt pid L",
        OF assms],
      rule conjI [OF books_start(3,4)], assumption, assumption, erule (2) books_run(3),
      erule (1) follow_inv.inv_outside,
     rule reachable_inv [where J = "all_capped rt pid", OF assms],
      erule books_start(5), erule (2) books_run(4), erule (1) settings_inv.inv_outside)

end

section \<open>Properties\<close>

text \<open>The settings are created on a ledger that holds nothing of the program.\<close>

definition blank :: ledger where
  "blank = genesis(254147 := wallet_account 0)"

lemma blank_unowned: "acc_owner (blank k) \<noteq> ref_pid"
  using genesis_owned [of k] by (auto simp: blank_def wallet_account_def ref_system_id_def)

definition first_bytes :: "u8 list" where
  "first_bytes = image_of (instruction_codec ref_borsh) (InitSettings 42)"

definition opened :: ledger where
  "opened = ok_value (process_instruction (ref_rt 0) ref_pid
     [signer_info 25, plain_info 254147, plain_info 69617, plain_info 0] first_bytes blank)"

lemma opened_run:
  "dispatch (ref_rt 0) ref_pid [signer_info 25, plain_info 254147, plain_info 69617, plain_info 0]
     (InitSettings 42) blank = Inr opened"
  "process_instruction (ref_rt 0) ref_pid
     [signer_info 25, plain_info 254147, plain_info 69617, plain_info 0] first_bytes blank = Inr opened"
proof -
  let ?accounts = "[signer_info 25, plain_info 254147, plain_info 69617, plain_info 0]"
  have at: "blank 25 = stage 25" "blank 254147 = wallet_account 0" "blank 69617 = stage 69617"
    "blank 0 = stage 0"
    by (simp_all add: blank_def)
  have upgrade: "assert_upgrade_authority (ref_rt 0) ref_pid (plain_info 69617) (signer_info 25) blank
      = Inr ()"
    by (simp add: at assert_upgrade_authority_Inr_iff plain_info_def signer_info_def owner_def
        data_def nth_append)
  have run: "is_ok (process_init_settings (ref_rt 0) ref_pid ?accounts 42 blank)"
    using upgrade by (simp add: at run_simps cong: run_congs)
  have "enc (instruction_codec ref_borsh) (InitSettings 42) = Some first_bytes"
    by (simp add: first_bytes_def image_of_def instruction_codec_def variant_enc_def pair_codec_def
        enc_uint_codec split: option.splits)
  then have "process_instruction (ref_rt 0) ref_pid ?accounts first_bytes blank =
      dispatch (ref_rt 0) ref_pid ?accounts (InitSettings 42) blank"
    by (intro ref_runtime.process_instruction_enc) simp
  with is_ok_ok_value [OF run] show "dispatch (ref_rt 0) ref_pid ?accounts (InitSettings 42) blank = Inr opened"
    "process_instruction (ref_rt 0) ref_pid ?accounts first_bytes blank = Inr opened"
    by (simp_all add: opened_def dispatch_def)
qed

lemma ref_time: "at_time now ref_rent (ref_rt t) = ref_rt now"
  by (simp add: at_time_def ref_rt_def)

lemma opened_reachable: "reachable (ref_rt 0) ref_pid opened"
proof (rule reachable.more)
  show "reachable (ref_rt 0) ref_pid blank" by (rule reachable.start) (rule blank_unowned)
  show "step (ref_rt 0) ref_pid blank opened"
    using opened_run(2) by (intro step.call [of 0 ref_rent]) (simp_all add: ref_time)
  have "entry_at (ref_rt 0) ref_pid opened k = entry_at (ref_rt 0) ref_pid blank k" for k
    using ref_runtime.dispatch_views(5) [OF _ opened_run(1)] by (simp add: tag_defs)
  then show "countable_lists (ref_rt 0) ref_pid opened"
    by (simp add: countable_lists_def allowed_entries_def
        ref_runtime.no_views(5) [OF blank_unowned])
qed

text \<open>C1. The books are right in every state the program can reach, from a ledger without any
  account of it, by any instructions of anybody and anything that other programs do in between:
  the nodes of every thread form a dense chain, every whitelist counter is the number of allowed
  entries, every shard counts the followers it stands for, follow lists are without duplicates
  and within the maximum, and the settings' rates are within the cap.\<close>

theorem books_are_always_right:
  assumes "solana rt pid" "reachable rt pid L"
  shows "chains rt pid L \<and> whitelist_exact rt pid L \<and> followers_counted rt pid L \<and>
    follow_lists_ok rt pid L \<and> all_capped rt pid L"
  using solana.books_reachable [OF assms] by blast

theorem books_are_always_right_witness:
  "all_capped (ref_rt 0) ref_pid opened \<and> chains (ref_rt 0) ref_pid opened"
  using books_are_always_right [OF ref_runtime.solana_axioms opened_reachable] by blast

end
