(* ===== verification/Placement.thy ===== *)
theory Placement
  imports System
begin

text \<open>
  Where accounts are: every struct of the program sits at the address derived from what it
  says. So its address can be computed from its contents, and there are no two for one subject:
  no second entry for a wallet, no second registry, no second node of one number.
\<close>

section \<open>Placed views\<close>

definition placed :: "(ledger \<Rightarrow> pubkey \<Rightarrow> 'a option) \<Rightarrow> ('a \<Rightarrow> pubkey) \<Rightarrow> ledger \<Rightarrow> bool" where
  "placed view address L \<longleftrightarrow> (\<forall>k x. view L k = Some x \<longrightarrow> k = address x)"

lemma placed_unique:
  "placed view address L \<Longrightarrow> view L j = Some x \<Longrightarrow> view L k = Some y \<Longrightarrow>
   address x = address y \<Longrightarrow> j = k"
  by (simp add: placed_def)

lemma placed_frame:
  "(\<And>k. view L' k = view L k) \<Longrightarrow> placed view address L \<Longrightarrow> placed view address L'"
  by (simp add: placed_def)

context account_view
begin

text \<open>Of the accounts that may have changed, one has a new struct, at its address.\<close>

lemma placed_quiet:
  assumes "placed view address L" "quiet pid (insert k K) L L'"
    and "view L' k = None \<or> (\<exists>x. view L' k = Some x \<and> address x = k)"
    and "\<And>j. j \<in> K \<Longrightarrow> view L' j = None"
  shows "placed view address L'"
  unfolding placed_def
proof (intro allI impI)
  fix j x
  assume x: "view L' j = Some x"
  show "j = address x"
  proof (cases "j \<in> insert k K")
    case True
    with x assms(3) assms(4) [of j] show ?thesis by (cases "j = k") auto
  next
    case False
    with view_quiet [OF assms(2), of j] x assms(1) show ?thesis by (simp add: placed_def)
  qed
qed

lemma placed_one:
  assumes "placed view address L" "\<And>j. j \<noteq> k \<Longrightarrow> L' j = L j"
    and "view L' k = Some x" "address x = k"
  shows "placed view address L'"
  unfolding placed_def
proof (intro allI impI)
  fix j y
  assume "view L' j = Some y"
  with assms view_same [of L' j L] show "j = address y"
    by (cases "j = k") (auto simp: placed_def)
qed

lemma placed_start: "(\<And>k. acc_owner (L k) \<noteq> pid) \<Longrightarrow> placed view address L"
  by (simp add: placed_def view_unowned)

end

section \<open>The addresses\<close>

definition entry_address :: "runtime \<Rightarrow> pubkey \<Rightarrow> pubkey \<Rightarrow> pubkey \<Rightarrow> pubkey" where
  "entry_address rt pid thread wallet = fst (derive_access_entry_pda rt pid thread wallet)"

definition registry_address :: "runtime \<Rightarrow> pubkey \<Rightarrow> pubkey \<Rightarrow> pubkey" where
  "registry_address rt pid user = fst (derive_follow_registry_pda rt pid user)"

definition allocs_placed :: "runtime \<Rightarrow> pubkey \<Rightarrow> ledger \<Rightarrow> bool" where
  "allocs_placed rt pid =
     placed (alloc_at rt pid) (\<lambda>n. chain_address rt pid (an_thread n) (an_alloc_seq n))"

definition contents_placed :: "runtime \<Rightarrow> pubkey \<Rightarrow> ledger \<Rightarrow> bool" where
  "contents_placed rt pid = placed (content_at rt pid) (\<lambda>n. content_address rt pid (cn_header n))"

definition access_placed :: "runtime \<Rightarrow> pubkey \<Rightarrow> ledger \<Rightarrow> bool" where
  "access_placed rt pid = placed (access_at rt pid) (\<lambda>x. access_address rt pid (ta_thread x))"

definition entries_placed :: "runtime \<Rightarrow> pubkey \<Rightarrow> ledger \<Rightarrow> bool" where
  "entries_placed rt pid =
     placed (entry_at rt pid) (\<lambda>e. entry_address rt pid (ae_thread e) (ae_wallet e))"

definition registries_placed :: "runtime \<Rightarrow> pubkey \<Rightarrow> ledger \<Rightarrow> bool" where
  "registries_placed rt pid = placed (registry_at rt pid) (\<lambda>r. registry_address rt pid (fr_owner r))"

definition shards_placed :: "runtime \<Rightarrow> pubkey \<Rightarrow> ledger \<Rightarrow> bool" where
  "shards_placed rt pid =
     placed (follower_shard_at rt pid) (\<lambda>s. shard_address rt pid (fs_thread s) (fs_shard s))"

lemmas placed_defs = allocs_placed_def contents_placed_def access_placed_def entries_placed_def
  registries_placed_def shards_placed_def

section \<open>The instructions that write each kind\<close>

context solana
begin

lemma thread_not_alloc: "thread_at rt pid L k = Some t \<Longrightarrow> alloc_at rt pid L k = None"
  and access_not_entry: "access_at rt pid L k = Some x \<Longrightarrow> entry_at rt pid L k = None"
  and shard_not_registry: "follower_shard_at rt pid L k = Some s \<Longrightarrow> registry_at rt pid L k = None"
  using alloc_not_thread entry_not_access registry_not_shard by fastforce+

lemma allocs_create:
  assumes "process_create_root_alloc rt pid accounts f i title L = Inr L'" "allocs_placed rt pid L"
  shows "allocs_placed rt pid L'"
proof -
  from create_root_alloc_ok [OF assms(1), folded chain_address_def] obtain
      payer th al :: account_info and t where
    al: "ai_key al = chain_address rt pid (ai_key th) 0"
      "alloc_at rt pid L' (ai_key al) =
        Some \<lparr>an_tag = TAG_ALLOC, an_thread = ai_key th, an_alloc_seq = 0\<rparr>"
    and th: "thread_at rt pid L' (ai_key th) = Some t"
    and e: "effect pid {ai_key th, ai_key al} {ai_key payer} L L'"
    by (elim exE conjE)
  have q: "quiet pid {ai_key al, ai_key th} L L'"
    using effect_quiet [OF e] by (simp add: insert_commute)
  from al thread_not_alloc [OF th] show ?thesis
    unfolding placed_defs
    by (intro alloc_view.placed_quiet [OF assms(2) [unfolded placed_defs] q]) auto
qed

lemma allocs_prepare:
  assumes "process_prepare_alloc rt pid accounts q L = Inr L'" "allocs_placed rt pid L"
  shows "allocs_placed rt pid L'"
proof -
  from prepare_alloc_ok [OF assms(1), folded chain_address_def] obtain
      payer new th :: account_info and t where
    al: "ai_key new = chain_address rt pid (ai_key th) (q + 1)"
      "alloc_at rt pid L' (ai_key new) =
        Some \<lparr>an_tag = TAG_ALLOC, an_thread = ai_key th, an_alloc_seq = q + 1\<rparr>"
    and th: "thread_at rt pid L' (ai_key th) = Some t"
    and e: "effect pid {ai_key new, ai_key th} {ai_key payer} L L'"
    by (elim exE conjE)
  from al thread_not_alloc [OF th] show ?thesis
    unfolding placed_defs
    by (intro alloc_view.placed_quiet [OF assms(2) [unfolded placed_defs] effect_quiet [OF e]]) auto
qed

lemma contents_fill:
  assumes "process_fill_slot rt pid accounts kind body cands i j ra rs m L = Inr L'"
    and "contents_placed rt pid L"
  shows "contents_placed rt pid L'"
proof -
  from fill_slot_posts [OF assms(1)] obtain payer a th :: account_info and cand :: candidate_slot and now where
    a: "ai_key a = fst (derive_content_pda rt pid (ai_key th) (cs_alloc_seq cand) (cs_slot cand))"
      "content_at rt pid L' (ai_key a) = Some
        \<lparr>cn_header = \<lparr>ch_tag = TAG_CONTENT, ch_alloc_seq = cs_alloc_seq cand,
           ch_slot = cs_slot cand, ch_thread = ai_key th, ch_author = ai_key payer,
           ch_created_at = now, ch_reply_alloc_seq = ra, ch_reply_slot = rs\<rparr>,
         cn_kind = kind, cn_body = body\<rparr>"
    and e: "effect pid {ai_key a} {ai_key payer} L L'"
    by (elim exE conjE)
  then show ?thesis
    unfolding placed_defs
    by (intro content_view.placed_quiet [OF assms(2) [unfolded placed_defs] effect_quiet [OF e]])
      (simp_all add: content_address_def)
qed

lemma contents_append:
  assumes "process_append_content rt pid accounts chunk i j L = Inr L'" "contents_placed rt pid L"
  shows "contents_placed rt pid L'"
proof -
  from append_content_ok [OF assms(1)] obtain payer ca :: account_info and n where
    a: "ai_key ca = content_address rt pid (cn_header n)"
      "content_at rt pid L' (ai_key ca) = Some (n\<lparr>cn_body := cn_body n @ chunk\<rparr>)"
    and e: "effect pid {ai_key ca} {ai_key payer} L L'"
    by (elim exE conjE)
  then show ?thesis
    unfolding placed_defs
    by (intro content_view.placed_quiet [OF assms(2) [unfolded placed_defs] effect_quiet [OF e]])
      simp_all
qed

lemma close_account_wipes:
  assumes "process_close_account rt pid accounts L = Inr L'"
  obtains j js where "\<And>k. k \<in> insert j js \<Longrightarrow> content_at rt pid L' k = None"
    "quiet pid (insert j js) L L'"
proof -
  from close_account_ok [OF assms(1)] obtain a :: account_info and rest n L1 where
    gone: "acc_data (L' (ai_key a)) = []"
    and lk: "rest = [] \<and> L1 = L \<or>
      (\<exists>lk tail. rest = lk # tail \<and> ai_key lk \<noteq> ai_key a \<and> reset_likes rt pid n lk L = Inr L1 \<and>
        acc_owner (L' (ai_key lk)) = acc_owner (L1 (ai_key lk)) \<and>
        acc_data (L' (ai_key lk)) = acc_data (L1 (ai_key lk)))"
    and q: "quiet pid (insert (ai_key a) (ai_key ` set (take 1 rest))) L L'"
    by (elim exE conjE)
  have "content_at rt pid L' (ai_key b) = None" if "b \<in> set (take 1 rest)" for b
  proof -
    from lk that have b: "reset_likes rt pid n b L = Inr L1"
      and same: "acc_owner (L' (ai_key b)) = acc_owner (L1 (ai_key b))"
        "acc_data (L' (ai_key b)) = acc_data (L1 (ai_key b))"
      by auto
    from reset_likes_ok(5) [OF b] have "content_at rt pid L1 (ai_key b) = None"
      using likes_not_content uninitialized_no_tag [of b L] view_tag_byte(9) [of L "ai_key b"]
      by (cases "content_at rt pid L1 (ai_key b)") auto
    with content_view.view_cong [of L' _ L1, OF same] show ?thesis by simp
  qed
  then show ?thesis
    by (intro that [OF _ q]) (auto simp: content_view.view_empty gone)
qed

lemma contents_close:
  assumes "process_close_account rt pid accounts L = Inr L'" "contents_placed rt pid L"
  shows "contents_placed rt pid L'"
proof -
  from close_account_wipes [OF assms(1)] obtain j js where
    ks: "\<And>k. k \<in> insert j js \<Longrightarrow> content_at rt pid L' k = None"
      "quiet pid (insert j js) L L'"
    by blast
  show ?thesis
    unfolding placed_defs
    by (intro content_view.placed_quiet [OF assms(2) [unfolded placed_defs] ks(2)]) (simp_all add: ks(1))
qed

lemma contents_closed:
  assumes "process_close_account rt pid accounts L = Inr L'" "content_at rt pid L k = None"
  shows "content_at rt pid L' k = None"
proof -
  from close_account_wipes [OF assms(1)] obtain j js where
    ks: "\<And>k. k \<in> insert j js \<Longrightarrow> content_at rt pid L' k = None"
      "quiet pid (insert j js) L L'"
    by blast
  show ?thesis using content_view.view_quiet [OF ks(2), of k] ks(1) [of k] assms(2) 
    by (cases "k \<in> insert j js") auto
qed

text \<open>Access accounts and entries.\<close>

lemma access_init:
  assumes "process_init_thread_access rt pid accounts enabled i L = Inr L'" "access_placed rt pid L"
  shows "access_placed rt pid L'"
proof -
  from init_thread_access_ok [OF assms(1), folded access_address_def] obtain
      authority th access :: account_info where
    "ai_key access = access_address rt pid (ai_key th)"
    "access_at rt pid L' (ai_key access) = Some \<lparr>ta_tag = TAG_ACCESS, ta_thread = ai_key th,
      ta_enabled = enabled, ta_admin = ai_key authority, ta_entry_fee = 0,
      ta_whitelist_count = 0\<rparr>"
    and e: "effect pid {ai_key access} {ai_key authority} L L'"
    by (elim exE conjE)
  then show ?thesis
    unfolding placed_defs
    by (intro access_view.placed_quiet [OF assms(2) [unfolded placed_defs] effect_quiet [OF e]])
      simp_all
qed

lemma access_switch:
  assumes "process_set_thread_access rt pid accounts enabled L = Inr L' \<or>
      process_set_entry_fee rt pid accounts fee L = Inr L'"
    and "access_placed rt pid L"
  shows "access_placed rt pid L'"
proof -
  from assms(1) obtain a :: account_info and x x' where
    x: "access_at rt pid L (ai_key a) = Some x" "access_at rt pid L' (ai_key a) = Some x'"
    and x': "ta_thread x' = ta_thread x" and same: "\<forall>k. k \<noteq> ai_key a \<longrightarrow> L' k = L k"
    by (elim disjE) (drule access_switch_ok, elim exE conjE, rule that,
      assumption, assumption, simp, assumption)+
  from assms(2) x x' same show ?thesis
    unfolding placed_defs
    by (intro access_view.placed_one [OF _ _ x(2)]) (simp_all add: placed_def)
qed

lemma lists_apply:
  assumes "apply_access_entry_status rt pid authority access entry sp wallet status L = Inr L'"
  shows "access_placed rt pid L \<Longrightarrow> access_placed rt pid L'"
    "entries_placed rt pid L \<Longrightarrow> entries_placed rt pid L'"
proof -
  from apply_access_entry_status_ok [OF assms, folded access_address_def entry_address_def]
  obtain x m where
    a: "ai_key access = access_address rt pid (ta_thread x)"
      "access_at rt pid L' (ai_key access) = Some (x\<lparr>ta_whitelist_count := m\<rparr>)"
    and e: "ai_key entry = entry_address rt pid (ta_thread x) wallet"
      "entry_at rt pid L' (ai_key entry) = Some (entry_for (ta_thread x) wallet status)"
    and eff: "effect pid {ai_key entry, ai_key access} {ai_key authority} L L'"
    by (elim exE conjE)
  have q: "quiet pid {ai_key access, ai_key entry} L L'"
    using effect_quiet [OF eff] by (simp add: insert_commute)
  have no: "access_at rt pid L' (ai_key entry) = None" "entry_at rt pid L' (ai_key access) = None"
    using entry_not_access [OF e(2)] access_not_entry [OF a(2)] by simp_all
  show "access_placed rt pid L'" if "access_placed rt pid L"
    unfolding placed_defs
    by (intro access_view.placed_quiet [OF that [unfolded placed_defs] q]) (use a no in auto)
  show "entries_placed rt pid L'" if "entries_placed rt pid L"
    unfolding placed_defs
    by (intro entry_view.placed_quiet [OF that [unfolded placed_defs] effect_quiet [OF eff]])
      (use e no in \<open>auto simp: entry_for_def\<close>)
qed

lemma lists_remove:
  assumes "remove_access_entry rt pid authority access entry wallet status L = Inr L'"
  shows "access_placed rt pid L \<Longrightarrow> access_placed rt pid L'"
    "entries_placed rt pid L \<Longrightarrow> entries_placed rt pid L'"
proof -
  from remove_access_entry_ok [OF assms, folded access_address_def] obtain x m where
    a: "ai_key access = access_address rt pid (ta_thread x)"
      "access_at rt pid L' (ai_key access) = Some (x\<lparr>ta_whitelist_count := m\<rparr>)"
    and e: "entry_at rt pid L' (ai_key entry) = None" "access_at rt pid L' (ai_key entry) = None"
    and q: "quiet pid {ai_key entry, ai_key access} L L'"
    by (elim exE conjE)
  have q': "quiet pid {ai_key access, ai_key entry} L L'" using q by (simp add: insert_commute)
  have no: "entry_at rt pid L' (ai_key access) = None"
    by (rule access_not_entry [OF a(2)])
  show "access_placed rt pid L'" if "access_placed rt pid L"
    unfolding placed_defs
    by (intro access_view.placed_quiet [OF that [unfolded placed_defs] q']) (use a e in auto)
  show "entries_placed rt pid L'" if "entries_placed rt pid L"
    unfolding placed_defs
    by (intro entry_view.placed_quiet [OF that [unfolded placed_defs] q]) (use e no in auto)
qed

lemma lists_request:
  assumes "process_request_access rt pid accounts i j L = Inr L'"
  shows "access_placed rt pid L \<Longrightarrow> access_placed rt pid L'"
    "entries_placed rt pid L \<Longrightarrow> entries_placed rt pid L'"
proof -
  from request_access_ok [OF assms, folded access_address_def entry_address_def] obtain
      payer access entry th :: account_info and x m where
    a: "ta_thread x = ai_key th" "ai_key access = access_address rt pid (ai_key th)"
      "access_at rt pid L' (ai_key access) = Some (x\<lparr>ta_whitelist_count := m\<rparr>)"
    and e: "ai_key entry = entry_address rt pid (ai_key th) (ai_key payer)"
      "entry_at rt pid L' (ai_key entry) =
        Some (entry_for (ai_key th) (ai_key payer) ACCESS_ALLOWED)"
    and eff: "effect pid {ai_key entry, ai_key access} {ai_key payer} L L'"
    by (elim exE conjE)
  have q: "quiet pid {ai_key access, ai_key entry} L L'"
    using effect_quiet [OF eff] by (simp add: insert_commute)
  have no: "access_at rt pid L' (ai_key entry) = None" "entry_at rt pid L' (ai_key access) = None"
    using entry_not_access [OF e(2)] access_not_entry [OF a(3)] by simp_all
  show "access_placed rt pid L'" if "access_placed rt pid L"
    unfolding placed_defs
    by (intro access_view.placed_quiet [OF that [unfolded placed_defs] q]) (use a no in auto)
  show "entries_placed rt pid L'" if "entries_placed rt pid L"
    unfolding placed_defs
    by (intro entry_view.placed_quiet [OF that [unfolded placed_defs] effect_quiet [OF eff]])
      (use e no in \<open>auto simp: entry_for_def\<close>)
qed

text \<open>Follow registries and shards.\<close>

lemma follows_placed:
  assumes "process_subscribe rt pid accounts L = Inr L' \<or> process_unsubscribe rt pid accounts L = Inr L'"
  shows "registries_placed rt pid L \<Longrightarrow> registries_placed rt pid L'"
    "shards_placed rt pid L \<Longrightarrow> shards_placed rt pid L'"
proof -
  from assms obtain user reg sh th :: account_info and P r s where
    R: "ai_key reg = registry_address rt pid (ai_key user)"
      "registry_at rt pid L' (ai_key reg) = Some r" "fr_owner r = ai_key user"
    and S: "ai_key sh = shard_address rt pid (ai_key th) (follower_shard_index (ai_key user))"
      "follower_shard_at rt pid L' (ai_key sh) = Some s" "fs_thread s = ai_key th"
      "fs_shard s = follower_shard_index (ai_key user)"
    and eff: "effect pid {ai_key reg, ai_key sh} P L L'"
  proof (elim disjE)
    assume run: "process_subscribe rt pid accounts L = Inr L'"
    from subscribe_ok [OF run, folded shard_address_def registry_address_def] show thesis
      by (elim exE conjE) (rule that, assumption, assumption, simp, assumption+)
  next
    assume run: "process_unsubscribe rt pid accounts L = Inr L'"
    from unsubscribe_ok [OF run, folded shard_address_def registry_address_def] show thesis
      by (elim exE conjE) (rule that, assumption, assumption, simp, assumption, assumption, simp,
        simp, assumption)
  qed
  have q: "quiet pid {ai_key sh, ai_key reg} L L'"
    using effect_quiet [OF eff] by (simp add: insert_commute)
  have no: "follower_shard_at rt pid L' (ai_key reg) = None" "registry_at rt pid L' (ai_key sh) = None"
    using registry_not_shard [OF R(2)] shard_not_registry [OF S(2)] by simp_all
  show "registries_placed rt pid L'" if "registries_placed rt pid L"
    unfolding placed_defs
    by (intro registry_view.placed_quiet [OF that [unfolded placed_defs] effect_quiet [OF eff]])
      (use R no in auto)
  show "shards_placed rt pid L'" if "shards_placed rt pid L"
    unfolding placed_defs
    by (intro shard_view.placed_quiet [OF that [unfolded placed_defs] q]) (use S no in auto)
qed

end

section \<open>The invariants\<close>

sublocale solana \<subseteq> allocs_inv: kind_invariant rt pid "allocs_placed rt pid" "{TAG_ALLOC}"
proof (unfold_locales, goal_cases)
  case 1
  show ?case by (simp add: tag_defs)
next
  case (2 U L L')
  from 2 have "alloc_at rt pid L' k = alloc_at rt pid L k" for k by (auto intro: views_kept)
  then show ?case using 2(3) unfolding placed_defs by (rule placed_frame)
next
  case (3 accounts i L L')
  then show ?case
    using allocs_create allocs_prepare by (cases i) (auto simp: handler_dispatch)
qed

sublocale solana \<subseteq> contents_inv: kind_invariant rt pid "contents_placed rt pid" "{TAG_CONTENT}"
proof (unfold_locales, goal_cases)
  case 1
  show ?case by (simp add: tag_defs)
next
  case (2 U L L')
  from 2 have "content_at rt pid L' k = content_at rt pid L k" for k by (auto intro: views_kept)
  then show ?case using 2(3) unfolding placed_defs by (rule placed_frame)
next
  case (3 accounts i L L')
  then show ?case
    using contents_fill contents_append contents_close by (cases i) (auto simp: handler_dispatch)
qed

lemmas list_dispatch = handler_dispatch acl_handlers(4-9) attempt_Inr_iff next_account_info_Inr_iff

sublocale solana \<subseteq> access_inv: kind_invariant rt pid "access_placed rt pid" "{TAG_ACCESS}"
proof (unfold_locales, goal_cases)
  case 1
  show ?case by (simp add: tag_defs)
next
  case (2 U L L')
  from 2 have "access_at rt pid L' k = access_at rt pid L k" for k by (auto intro: views_kept)
  then show ?case using 2(3) unfolding placed_defs by (rule placed_frame)
next
  case (3 accounts i L L')
  note lists = lists_apply(1) [OF _ 3(4)] lists_remove(1) [OF _ 3(4)]
  from 3 show ?case
    using access_init access_switch [OF disjI1] access_switch [OF disjI2]
      lists_request(1) [OF _ 3(4)]
    by (cases i) (auto simp: list_dispatch dest: lists)
qed

sublocale solana \<subseteq> entries_inv: kind_invariant rt pid "entries_placed rt pid" "{TAG_ACCESS_ENTRY}"
proof (unfold_locales, goal_cases)
  case 1
  show ?case by (simp add: tag_defs)
next
  case (2 U L L')
  from 2 have "entry_at rt pid L' k = entry_at rt pid L k" for k by (auto intro: views_kept)
  then show ?case using 2(3) unfolding placed_defs by (rule placed_frame)
next
  case (3 accounts i L L')
  note lists = lists_apply(2) [OF _ 3(4)] lists_remove(2) [OF _ 3(4)]
  from 3 show ?case
    using lists_request(2) [OF _ 3(4)]
    by (cases i) (auto simp: list_dispatch dest: lists)
qed

sublocale solana \<subseteq> registries_inv: kind_invariant rt pid "registries_placed rt pid"
    "{TAG_FOLLOW_REGISTRY}"
proof (unfold_locales, goal_cases)
  case 1
  show ?case by (simp add: tag_defs)
next
  case (2 U L L')
  from 2 have "registry_at rt pid L' k = registry_at rt pid L k" for k by (auto intro: views_kept)
  then show ?case using 2(3) unfolding placed_defs by (rule placed_frame)
next
  case (3 accounts i L L')
  then show ?case
    using follows_placed(1) [OF disjI1 3(4)] follows_placed(1) [OF disjI2 3(4)]
    by (cases i) (auto simp: handler_dispatch)
qed

sublocale solana \<subseteq> shards_inv: kind_invariant rt pid "shards_placed rt pid" "{TAG_FOLLOWER_SHARD}"
proof (unfold_locales, goal_cases)
  case 1
  show ?case by (simp add: tag_defs)
next
  case (2 U L L')
  from 2 have "follower_shard_at rt pid L' k = follower_shard_at rt pid L k" for k
    by (auto intro: views_kept)
  then show ?case using 2(3) unfolding placed_defs by (rule placed_frame)
next
  case (3 accounts i L L')
  then show ?case
    using follows_placed(2) [OF disjI1 3(4)] follows_placed(2) [OF disjI2 3(4)]
    by (cases i) (auto simp: handler_dispatch)
qed

context solana
begin

lemma places_start:
  assumes "\<And>k. acc_owner (L k) \<noteq> pid"
  shows "allocs_placed rt pid L" "contents_placed rt pid L" "access_placed rt pid L"
    "entries_placed rt pid L" "registries_placed rt pid L" "shards_placed rt pid L"
  using no_views [OF assms] by (simp_all add: placed_defs placed_def)

lemma at_time_places [simp]:
  "allocs_placed (at_time now rent rt) = allocs_placed rt"
  "contents_placed (at_time now rent rt) = contents_placed rt"
  "access_placed (at_time now rent rt) = access_placed rt"
  "entries_placed (at_time now rent rt) = entries_placed rt"
  "registries_placed (at_time now rent rt) = registries_placed rt"
  "shards_placed (at_time now rent rt) = shards_placed rt"
  by (simp_all add: fun_eq_iff placed_defs entry_address_def registry_address_def)

lemmas places_now = allocs_inv.inv_run contents_inv.inv_run access_inv.inv_run
  entries_inv.inv_run registries_inv.inv_run shards_inv.inv_run

lemmas places_run = solana.places_now [OF at_another_time, unfolded at_time_places at_time_books]

lemma places_reachable:
  assumes "reachable rt pid L"
  shows "allocs_placed rt pid L" "contents_placed rt pid L" "access_placed rt pid L"
    "entries_placed rt pid L" "registries_placed rt pid L" "shards_placed rt pid L"
  by (rule reachable_inv [where J = "allocs_placed rt pid", OF assms],
      erule places_start(1), erule (2) places_run(1), erule (1) allocs_inv.inv_outside)
     (rule reachable_inv [where J = "contents_placed rt pid", OF assms],
      erule places_start(2), erule (2) places_run(2), erule (1) contents_inv.inv_outside,
      rule reachable_inv [where J = "access_placed rt pid", OF assms],
      erule places_start(3), erule (2) places_run(3), erule (1) access_inv.inv_outside,
      rule reachable_inv [where J = "entries_placed rt pid", OF assms],
      erule places_start(4), erule (2) places_run(4), erule (1) entries_inv.inv_outside,
      rule reachable_inv [where J = "registries_placed rt pid", OF assms],
      erule places_start(5), erule (2) places_run(5), erule (1) registries_inv.inv_outside,
      rule reachable_inv [where J = "shards_placed rt pid", OF assms],
      erule places_start(6), erule (2) places_run(6), erule (1) shards_inv.inv_outside)

end

section \<open>Properties\<close>

text \<open>C13. Accounts are where their contents say, in every reachable state: the address of a node,
  a message, an access account, an entry, a follow registry, a follower shard or the settings is
  the one derived from the struct it holds. So no wallet has two entries on a thread, no thread
  two nodes of one number, and no user two registries.\<close>

theorem accounts_are_where_they_say:
  assumes "solana rt pid" "reachable rt pid L"
  shows "(\<forall>n. alloc_at rt pid L k = Some n \<longrightarrow>
      k = chain_address rt pid (an_thread n) (an_alloc_seq n)) \<and>
    (\<forall>n. content_at rt pid L k = Some n \<longrightarrow> k = content_address rt pid (cn_header n)) \<and>
    (\<forall>x. access_at rt pid L k = Some x \<longrightarrow> k = access_address rt pid (ta_thread x)) \<and>
    (\<forall>e. entry_at rt pid L k = Some e \<longrightarrow>
      k = entry_address rt pid (ae_thread e) (ae_wallet e)) \<and>
    (\<forall>r. registry_at rt pid L k = Some r \<longrightarrow> k = registry_address rt pid (fr_owner r)) \<and>
    (\<forall>s. follower_shard_at rt pid L k = Some s \<longrightarrow>
      k = shard_address rt pid (fs_thread s) (fs_shard s)) \<and>
    (\<forall>s. settings_at rt pid L k = Some s \<longrightarrow> k = fst (derive_settings_pda rt pid))"
  using solana.places_reachable [OF assms] solana.books_reachable(4) [OF assms]
  by (simp add: placed_defs placed_def all_capped_def)

theorem accounts_are_where_they_say_witness:
  "{k. settings_at (ref_rt 0) ref_pid opened k \<noteq> None} \<subseteq> {254147}"
  using accounts_are_where_they_say [OF ref_runtime.solana_axioms opened_reachable] by auto

end
