(* ===== verification/Board.thy ===== *)
theory Board
  imports Placement
begin

text \<open>
  What the program promises, without its bytes. The board maps addresses to items: threads, chain
  nodes, messages, likes, access gates, standings of wallets, follow lists, follower shards and the
  platform's settings. This theory defines it, and how it changes when accounts do.
\<close>

text \<open>Who signs a call.\<close>

definition signed_by :: "account_info list \<Rightarrow> pubkey \<Rightarrow> bool" where
  "signed_by accounts w \<longleftrightarrow> list_ex (\<lambda>a. is_signer a \<and> ai_key a = w) accounts"

lemma signed_by_Cons [simp]:
  "signed_by (a # accounts) w \<longleftrightarrow> is_signer a \<and> ai_key a = w \<or> signed_by accounts w"
  by (simp add: signed_by_def)

section \<open>The board\<close>

datatype item =
    Thread thread_node
  | Chain alloc_node
  | Message content_node
  | Likes alloc_likes
  | Gate thread_access
  | Standing access_entry
  | Follows follow_registry
  | Followers follower_shard
  | Platform program_settings

type_synonym board = "pubkey \<Rightarrow> item option"

text \<open>The abstraction: an account of the program is the item that its tag and bytes give.\<close>

definition board :: "runtime \<Rightarrow> pubkey \<Rightarrow> ledger \<Rightarrow> board" where
  "board rt pid L k =
     (case tag_byte pid L k of
        None \<Rightarrow> None
      | Some b \<Rightarrow>
          if b = TAG_THREAD then map_option Thread (thread_at rt pid L k)
          else if b = TAG_ALLOC then map_option Chain (alloc_at rt pid L k)
          else if b = TAG_CONTENT then map_option Message (content_at rt pid L k)
          else if b = TAG_LIKES then map_option Likes (likes_at rt pid L k)
          else if b = TAG_ACCESS then map_option Gate (access_at rt pid L k)
          else if b = TAG_ACCESS_ENTRY then map_option Standing (entry_at rt pid L k)
          else if b = TAG_FOLLOW_REGISTRY then map_option Follows (registry_at rt pid L k)
          else if b = TAG_FOLLOWER_SHARD then map_option Followers (follower_shard_at rt pid L k)
          else if b = TAG_SETTINGS then map_option Platform (settings_at rt pid L k)
          else None)"

context solana
begin

lemma board_views [simp]:
  "board rt pid L k = Some (Thread t) \<longleftrightarrow> thread_at rt pid L k = Some t"
  "board rt pid L k = Some (Chain n) \<longleftrightarrow> alloc_at rt pid L k = Some n"
  "board rt pid L k = Some (Message m) \<longleftrightarrow> content_at rt pid L k = Some m"
  "board rt pid L k = Some (Likes l) \<longleftrightarrow> likes_at rt pid L k = Some l"
  "board rt pid L k = Some (Gate x) \<longleftrightarrow> access_at rt pid L k = Some x"
  "board rt pid L k = Some (Standing e) \<longleftrightarrow> entry_at rt pid L k = Some e"
  "board rt pid L k = Some (Follows r) \<longleftrightarrow> registry_at rt pid L k = Some r"
  "board rt pid L k = Some (Followers f) \<longleftrightarrow> follower_shard_at rt pid L k = Some f"
  "board rt pid L k = Some (Platform s) \<longleftrightarrow> settings_at rt pid L k = Some s"
  by (auto simp: board_def tag_defs dest: view_tag_byte split: option.splits)

lemma board_untagged: "tag_byte pid L k = None \<Longrightarrow> board rt pid L k = None"
  by (simp add: board_def)

lemma board_free: "is_uninitialized rt a L \<Longrightarrow> board rt pid L (ai_key a) = None"
  by (rule board_untagged) (rule uninitialized_no_tag)

lemma board_kind:
  "tag_byte pid L k \<in> {None, Some TAG_LIKES} \<Longrightarrow> board rt pid L k = Some x \<Longrightarrow> \<exists>l. x = Likes l"
  "tag_byte pid L k \<in> {None, Some TAG_ACCESS_ENTRY} \<Longrightarrow> board rt pid L k = Some x \<Longrightarrow> \<exists>e. x = Standing e"
  "tag_byte pid L k \<in> {None, Some TAG_FOLLOW_REGISTRY} \<Longrightarrow> board rt pid L k = Some x \<Longrightarrow> \<exists>r. x = Follows r"
  "tag_byte pid L k \<in> {None, Some TAG_FOLLOWER_SHARD} \<Longrightarrow> board rt pid L k = Some x \<Longrightarrow> \<exists>f. x = Followers f"
  by (auto simp: board_def tag_defs split: option.splits)

end

sublocale solana \<subseteq> board_view: account_view "board rt pid" pid
proof (unfold_locales, goal_cases)
  case (1 L' k L)
  note cong = tag_view.view_cong thread_view.view_cong alloc_view.view_cong content_view.view_cong
    likes_view.view_cong access_view.view_cong entry_view.view_cong registry_view.view_cong
    shard_view.view_cong settings_view.view_cong
  show ?case unfolding board_def cong [of L' k L, OF 1] ..
next
  case (2 L k x)
  then have "tag_byte pid L k \<noteq> None" by (metis board_untagged option.distinct(1))
  then show ?case by (auto dest: tag_view.view_owner)
next
  case (3 L k x)
  then have "tag_byte pid L k \<noteq> None" by (metis board_untagged option.distinct(1))
  then show ?case by (auto dest: tag_view.view_nonempty)
qed

context solana
begin

text \<open>An instruction that may write one or two accounts replaces their items.\<close>

lemma board_quiet1:
  assumes "quiet pid {a} L L'" "board rt pid L' a = x"
  shows "board rt pid L' = (board rt pid L)(a := x)"
  using assms(2) board_view.view_quiet [OF assms(1)] by (auto simp: fun_eq_iff)

lemma board_quiet2:
  assumes "quiet pid {a, b} L L'" "board rt pid L' a = x" "board rt pid L' b = y"
  shows "board rt pid L' = (board rt pid L)(a := x, b := y)"
  using assms(2,3) board_view.view_quiet [OF assms(1)] by (auto simp: fun_eq_iff)

lemma board_same:
  assumes "\<And>k. acc_owner (L' k) = acc_owner (L k)" "\<And>k. acc_data (L' k) = acc_data (L k)"
  shows "board rt pid L' = board rt pid L"
  by (rule ext, rule board_view.view_cong) (rule assms)+

lemma board_others:
  assumes "\<And>k. k \<noteq> a \<Longrightarrow> L' k = L k" "board rt pid L' a = x"
  shows "board rt pid L' = (board rt pid L)(a := x)"
  using assms(2) board_view.view_same [of L' _ L] assms(1) by (auto simp: fun_eq_iff)

end

section \<open>Reading the board\<close>

fun counts_in :: "item option \<Rightarrow> u32 list" where
  "counts_in (Some (Likes l)) = al_counts l"
| "counts_in _ = replicate CONTENT_SLOTS 0"

fun follows_in :: "item option \<Rightarrow> pubkey list" where
  "follows_in (Some (Follows r)) = fr_channels r"
| "follows_in _ = []"

fun followers_of :: "item option \<Rightarrow> nat" where
  "followers_of (Some (Followers s)) = unat (fs_count s)"
| "followers_of _ = 0"

fun status_in :: "item option \<Rightarrow> u8 option" where
  "status_in (Some (Standing e)) = Some (ae_status e)"
| "status_in _ = None"

text \<open>Admission: nobody who is denied; on a thread whose gate is active its author, the allowed
  and the fee-exempt.\<close>

fun closed_by :: "item option \<Rightarrow> pubkey \<Rightarrow> bool" where
  "closed_by (Some (Gate x)) thread \<longleftrightarrow>
     ta_thread x = thread \<and> ta_enabled x \<and> (ta_whitelist_count x > 0 \<or> ta_entry_fee x > 0)"
| "closed_by _ thread \<longleftrightarrow> False"

definition admits :: "runtime \<Rightarrow> pubkey \<Rightarrow> board \<Rightarrow> pubkey \<Rightarrow> thread_node \<Rightarrow> pubkey \<Rightarrow> bool" where
  "admits rt pid B thread t wallet \<longleftrightarrow>
     (let st = status_in (B (entry_address rt pid thread wallet)) in
      st \<noteq> Some ACCESS_DENIED \<and>
      (closed_by (B (access_address rt pid thread)) thread \<longrightarrow>
        wallet = tn_author t \<or> st \<in> {Some ACCESS_ALLOWED, Some ACCESS_FEE_EXEMPT}))"

lemma lookups_other:
  "(\<And>l. y \<noteq> Some (Likes l)) \<Longrightarrow> counts_in y = replicate CONTENT_SLOTS 0"
  "(\<And>r. y \<noteq> Some (Follows r)) \<Longrightarrow> follows_in y = []"
  "(\<And>s. y \<noteq> Some (Followers s)) \<Longrightarrow> followers_of y = 0"
  "(\<And>e. y \<noteq> Some (Standing e)) \<Longrightarrow> status_in y = None"
  "(\<And>x. y \<noteq> Some (Gate x)) \<Longrightarrow> \<not> closed_by y thread"
proof -
  show "(\<And>l. y \<noteq> Some (Likes l)) \<Longrightarrow> counts_in y = replicate CONTENT_SLOTS 0"
    by (cases y rule: counts_in.cases) auto
  show "(\<And>r. y \<noteq> Some (Follows r)) \<Longrightarrow> follows_in y = []"
    by (cases y rule: follows_in.cases) auto
  show "(\<And>s. y \<noteq> Some (Followers s)) \<Longrightarrow> followers_of y = 0"
    by (cases y rule: followers_of.cases) auto
  show "(\<And>e. y \<noteq> Some (Standing e)) \<Longrightarrow> status_in y = None"
    by (cases y rule: status_in.cases) auto
  show "(\<And>x. y \<noteq> Some (Gate x)) \<Longrightarrow> \<not> closed_by y thread"
    by (cases "(y, thread)" rule: closed_by.cases) auto
qed

context solana
begin

lemma counts_in_board: "counts_in (board rt pid L k) = like_counts rt pid L k"
proof (cases "likes_at rt pid L k")
  case None
  then have "board rt pid L k \<noteq> Some (Likes l)" for l by simp
  with None show ?thesis by (simp add: lookups_other like_counts_def)
next
  case (Some l)
  then have "board rt pid L k = Some (Likes l)" by simp
  with Some show ?thesis by (simp only: like_counts_def counts_in.simps option.case)
qed

lemma follows_in_board: "follows_in (board rt pid L k) = follows rt pid L k"
proof (cases "registry_at rt pid L k")
  case None
  then have "board rt pid L k \<noteq> Some (Follows r)" for r by simp
  with None show ?thesis by (simp add: lookups_other follows_def)
next
  case (Some r)
  then have "board rt pid L k = Some (Follows r)" by simp
  with Some show ?thesis by (simp only: follows_def follows_in.simps option.case)
qed

lemma status_in_board: "status_in (board rt pid L k) = map_option ae_status (entry_at rt pid L k)"
proof (cases "entry_at rt pid L k")
  case None
  then have "board rt pid L k \<noteq> Some (Standing e)" for e by simp
  with None show ?thesis by (simp add: lookups_other)
next
  case (Some e)
  then have "board rt pid L k = Some (Standing e)" by simp
  with Some show ?thesis by (simp only: status_in.simps option.map)
qed

lemma closed_by_board:
  "closed_by (board rt pid L (access_address rt pid thread)) thread \<longleftrightarrow> gated rt pid L thread"
proof (cases "access_at rt pid L (access_address rt pid thread)")
  case None
  then have "board rt pid L (access_address rt pid thread) \<noteq> Some (Gate x)" for x by simp
  with None show ?thesis by (simp add: lookups_other gated_def access_of_def)
next
  case (Some x)
  then have b: "board rt pid L (access_address rt pid thread) = Some (Gate x)" by simp
  show ?thesis by (simp add: b gated_def access_of_def Some del: board_views)
qed

lemma admits_board:
  "admits rt pid (board rt pid L) thread t wallet \<longleftrightarrow> may_post rt pid L thread (tn_author t) wallet"
  by (auto simp: admits_def may_post_def Let_def status_in_board closed_by_board entry_status_def
      entry_address_def)

end

end
