(* ===== verification/Steps.thy ===== *)
theory Steps
  imports Board
begin

text \<open>
  The specification of every instruction as a step of the board: \<open>board_step\<close> says who must have
  signed, what must be on the board and what is on it afterwards. Each handler is shown to
  implement its step, so what holds of the steps holds of the program.
\<close>

section \<open>The items that instructions write\<close>

definition new_thread :: "pubkey \<Rightarrow> u64 \<Rightarrow> u8 list \<Rightarrow> item" where
  "new_thread author fee title = Thread \<lparr>tn_tag = TAG_THREAD, tn_alloc_count = 1,
     tn_last_alloc_seq = 0, tn_author = author, tn_message_fee = fee, tn_like_fee = 0,
     tn_title = title\<rparr>"

definition chain_node :: "pubkey \<Rightarrow> u32 \<Rightarrow> item" where
  "chain_node thread seq = Chain \<lparr>an_tag = TAG_ALLOC, an_thread = thread, an_alloc_seq = seq\<rparr>"

definition extended :: "thread_node \<Rightarrow> thread_node" where
  "extended t = t\<lparr>tn_alloc_count := tn_alloc_count t + 1,
     tn_last_alloc_seq := tn_last_alloc_seq t + 1\<rparr>"

definition new_gate :: "pubkey \<Rightarrow> bool \<Rightarrow> pubkey \<Rightarrow> item" where
  "new_gate thread enabled admin = Gate \<lparr>ta_tag = TAG_ACCESS, ta_thread = thread,
     ta_enabled = enabled, ta_admin = admin, ta_entry_fee = 0, ta_whitelist_count = 0\<rparr>"

definition counted :: "thread_access \<Rightarrow> u8 option \<Rightarrow> u8 option \<Rightarrow> item" where
  "counted x before after =
     Gate (x\<lparr>ta_whitelist_count := moved_count (ta_whitelist_count x) (counter_delta before after)\<rparr>)"

definition initial_settings :: "pubkey \<Rightarrow> pubkey \<Rightarrow> item" where
  "initial_settings admin treasury = Platform \<lparr>ps_tag = TAG_SETTINGS, ps_admin = admin,
     ps_treasury = treasury, ps_base_fee_bps = 1000, ps_author_fee_cut_bps = 1000,
     ps_entry_cut_bps = 1000, ps_like_cut_bps = 1000\<rparr>"

lemmas item_defs = new_thread_def chain_node_def extended_def new_gate_def counted_def
  initial_settings_def

definition likes_address :: "runtime \<Rightarrow> pubkey \<Rightarrow> pubkey \<Rightarrow> u32 \<Rightarrow> pubkey" where
  "likes_address rt pid thread seq = fst (derive_likes_pda rt pid thread seq)"

definition settings_address :: "runtime \<Rightarrow> pubkey \<Rightarrow> pubkey" where
  "settings_address rt pid = fst (derive_settings_pda rt pid)"

text \<open>The lists an access admin keeps: the wallet and the status an instruction gives or takes.\<close>

fun gives :: "program_instruction \<Rightarrow> (pubkey \<times> u8) option" where
  "gives (AddToWhitelist w) = Some (w, ACCESS_ALLOWED)"
| "gives (AddToFeeWhitelist w) = Some (w, ACCESS_FEE_EXEMPT)"
| "gives (AddToBlacklist w) = Some (w, ACCESS_DENIED)"
| "gives _ = None"

fun takes :: "program_instruction \<Rightarrow> (pubkey \<times> u8) option" where
  "takes (RemoveFromWhitelist w) = Some (w, ACCESS_ALLOWED)"
| "takes (RemoveFromFeeWhitelist w) = Some (w, ACCESS_FEE_EXEMPT)"
| "takes (RemoveFromBlacklist w) = Some (w, ACCESS_DENIED)"
| "takes _ = None"

text \<open>What an owner sets: the thread's author, the access admin, the platform's admin.\<close>

fun author_sets :: "program_instruction \<Rightarrow> thread_node \<Rightarrow> thread_node option" where
  "author_sets (SetMessageFee fee) t = Some (t\<lparr>tn_message_fee := fee\<rparr>)"
| "author_sets (SetLikeFee fee) t = Some (t\<lparr>tn_like_fee := fee\<rparr>)"
| "author_sets _ t = None"

fun gatekeeper_sets :: "program_instruction \<Rightarrow> thread_access \<Rightarrow> thread_access option" where
  "gatekeeper_sets (SetThreadAccess enabled) x = Some (x\<lparr>ta_enabled := enabled\<rparr>)"
| "gatekeeper_sets (SetEntryFee fee) x = Some (x\<lparr>ta_entry_fee := fee\<rparr>)"
| "gatekeeper_sets _ x = None"

fun admin_sets :: "program_instruction \<Rightarrow> program_settings \<Rightarrow> program_settings option" where
  "admin_sets (SetTreasury k) s = Some (s\<lparr>ps_treasury := k\<rparr>)"
| "admin_sets (SetAdmin k) s = Some (s\<lparr>ps_admin := k\<rparr>)"
| "admin_sets (SetBaseFee r) s =
     (if r \<le> MAX_FEE_CUT_BPS then Some (s\<lparr>ps_base_fee_bps := r\<rparr>) else None)"
| "admin_sets (SetAuthorFeeCut r) s =
     (if r \<le> MAX_FEE_CUT_BPS then Some (s\<lparr>ps_author_fee_cut_bps := r\<rparr>) else None)"
| "admin_sets (SetEntryCut r) s =
     (if r \<le> MAX_FEE_CUT_BPS then Some (s\<lparr>ps_entry_cut_bps := r\<rparr>) else None)"
| "admin_sets (SetLikeCut r) s =
     (if r \<le> MAX_FEE_CUT_BPS then Some (s\<lparr>ps_like_cut_bps := r\<rparr>) else None)"
| "admin_sets _ s = None"

lemma setters_keep:
  "author_sets i t = Some t' \<Longrightarrow>
     tn_author t' = tn_author t \<and> tn_last_alloc_seq t' = tn_last_alloc_seq t"
  "gatekeeper_sets i x = Some x' \<Longrightarrow> ta_thread x' = ta_thread x \<and> ta_admin x' = ta_admin x"
  by (cases i; auto)+

section \<open>The steps\<close>

inductive board_step ::
  "runtime \<Rightarrow> pubkey \<Rightarrow> (pubkey \<Rightarrow> bool) \<Rightarrow> program_instruction \<Rightarrow> board \<Rightarrow> board \<Rightarrow> bool"
  for rt pid who where
  open_thread:
    "who author \<Longrightarrow> who th \<Longrightarrow> length title \<le> MAX_TITLE_LEN \<Longrightarrow>
     B th = None \<Longrightarrow> B (chain_address rt pid th 0) = None \<Longrightarrow> chain_address rt pid th 0 \<noteq> th \<Longrightarrow>
     B k = Some (Platform s) \<Longrightarrow>
     board_step rt pid who (CreateRootAlloc fee i title) B
       (B(th \<mapsto> new_thread author fee title, chain_address rt pid th 0 \<mapsto> chain_node th 0))"
| extend:
    "B th = Some (Thread t) \<Longrightarrow> tn_last_alloc_seq t = seq \<Longrightarrow>
     B (chain_address rt pid th seq) = Some (chain_node th seq) \<Longrightarrow> unat seq + 1 < 2 ^ 32 \<Longrightarrow>
     B (chain_address rt pid th (seq + 1)) = None \<Longrightarrow>
     board_step rt pid who (PrepareAlloc seq) B
       (B(chain_address rt pid th (seq + 1) \<mapsto> chain_node th (seq + 1), th \<mapsto> Thread (extended t)))"
| author_set:
    "B th = Some (Thread t) \<Longrightarrow> who (tn_author t) \<Longrightarrow> author_sets i t = Some t' \<Longrightarrow>
     board_step rt pid who i B (B(th \<mapsto> Thread t'))"
| post:
    "who author \<Longrightarrow> rt_clock rt = Inr now \<Longrightarrow> B th = Some (Thread t) \<Longrightarrow>
     admits rt pid B th t author \<Longrightarrow> length body \<le> MAX_BODY_LEN \<Longrightarrow> c \<in> set cands \<Longrightarrow>
     cs_alloc_seq c \<le> tn_last_alloc_seq t \<Longrightarrow> unat (cs_slot c) < CONTENT_SLOTS \<Longrightarrow>
     h = \<lparr>ch_tag = TAG_CONTENT, ch_alloc_seq = cs_alloc_seq c, ch_slot = cs_slot c, ch_thread = th,
       ch_author = author, ch_created_at = now, ch_reply_alloc_seq = ra, ch_reply_slot = rs\<rparr> \<Longrightarrow>
     B (content_address rt pid h) = None \<Longrightarrow>
     board_step rt pid who (FillSlot kd body cands i j ra rs max_fee) B
       (B(content_address rt pid h \<mapsto> Message \<lparr>cn_header = h, cn_kind = kd, cn_body = body\<rparr>))"
| append_message:
    "B k = Some (Message n) \<Longrightarrow> who (ch_author (cn_header n)) \<Longrightarrow> rt_clock rt = Inr now \<Longrightarrow>
     sint now - sint (ch_created_at (cn_header n)) \<le> APPEND_WINDOW_SECS \<Longrightarrow>
     length (cn_body n) + length chunk \<le> MAX_BODY_LEN \<Longrightarrow>
     board_step rt pid who (AppendContent chunk i j) B
       (B(k \<mapsto> Message (n\<lparr>cn_body := cn_body n @ chunk\<rparr>)))"
| close_message:
    "B k = Some (Message n) \<Longrightarrow> who (ch_author (cn_header n)) \<Longrightarrow>
     board_step rt pid who CloseAccount B (B(k := None))"
| close_and_reset:
    "B k = Some (Message n) \<Longrightarrow> who (ch_author (cn_header n)) \<Longrightarrow>
     likes_address rt pid (ch_thread (cn_header n)) (ch_alloc_seq (cn_header n)) = lk \<Longrightarrow>
     B lk = Some (Likes l) \<Longrightarrow> al_alloc_seq l = ch_alloc_seq (cn_header n) \<Longrightarrow>
     unat (ch_slot (cn_header n)) < CONTENT_SLOTS \<Longrightarrow>
     board_step rt pid who CloseAccount B (B(k := None,
       lk \<mapsto> Likes (l\<lparr>al_counts := (al_counts l)[unat (ch_slot (cn_header n)) := 0]\<rparr>)))"
| like:
    "who reader \<Longrightarrow> unat slot < CONTENT_SLOTS \<Longrightarrow> B th = Some (Thread t) \<Longrightarrow>
     B (fst (derive_content_pda rt pid th seq slot)) = Some (Message n) \<Longrightarrow>
     likes_address rt pid th seq = lk \<Longrightarrow> (\<And>y. B lk = Some y \<Longrightarrow> \<exists>l. y = Likes l) \<Longrightarrow>
     al_counts l' =
       (counts_in (B lk))[unat slot := saturating_add (counts_in (B lk) ! unat slot) 1] \<Longrightarrow>
     board_step rt pid who (LikeContent seq slot i j max_fee) B (B(lk \<mapsto> Likes l'))"
| sweep_treasury: "board_step rt pid who (SweepTreasury is) B B"
| sweep_author_fees:
    "B th = Some (Thread t) \<Longrightarrow> who (tn_author t) \<Longrightarrow>
     board_step rt pid who (SweepAuthorFees js) B B"
| open_gate:
    "B th = Some (Thread t) \<Longrightarrow> who (tn_author t) \<Longrightarrow> B (access_address rt pid th) = None \<Longrightarrow>
     board_step rt pid who (InitThreadAccess enabled i) B
       (B(access_address rt pid th \<mapsto> new_gate th enabled (tn_author t)))"
| gatekeeper_set:
    "B k = Some (Gate x) \<Longrightarrow> who (ta_admin x) \<Longrightarrow> gatekeeper_sets i x = Some x' \<Longrightarrow>
     board_step rt pid who i B (B(k \<mapsto> Gate x'))"
| give_status:
    "gives i = Some (w, st) \<Longrightarrow> B (access_address rt pid (ta_thread x)) = Some (Gate x) \<Longrightarrow>
     who (ta_admin x) \<Longrightarrow> entry_address rt pid (ta_thread x) w = k \<Longrightarrow>
     (\<And>y. B k = Some y \<Longrightarrow> \<exists>e. y = Standing e \<and> ae_thread e = ta_thread x \<and> ae_wallet e = w) \<Longrightarrow>
     board_step rt pid who i B (B(k \<mapsto> Standing (entry_for (ta_thread x) w st),
       access_address rt pid (ta_thread x) \<mapsto> counted x (status_in (B k)) (Some st)))"
| take_status:
    "takes i = Some (w, st) \<Longrightarrow> B (access_address rt pid (ta_thread x)) = Some (Gate x) \<Longrightarrow>
     who (ta_admin x) \<Longrightarrow> entry_address rt pid (ta_thread x) w = k \<Longrightarrow>
     B k = Some (Standing (entry_for (ta_thread x) w st)) \<Longrightarrow>
     board_step rt pid who i B (B(k := None,
       access_address rt pid (ta_thread x) \<mapsto> counted x (Some st) None))"
| buy_entry:
    "who w \<Longrightarrow> B th = Some (Thread t) \<Longrightarrow> B (access_address rt pid th) = Some (Gate x) \<Longrightarrow>
     ta_thread x = th \<Longrightarrow> ta_entry_fee x \<noteq> 0 \<Longrightarrow> B (entry_address rt pid th w) = None \<Longrightarrow>
     board_step rt pid who (RequestAccess i j) B
       (B(entry_address rt pid th w \<mapsto> Standing (entry_for th w ACCESS_ALLOWED),
          access_address rt pid th \<mapsto> counted x None (Some ACCESS_ALLOWED)))"
| follow:
    "who user \<Longrightarrow> B th = Some (Thread t) \<Longrightarrow> registry_address rt pid user = k \<Longrightarrow>
     shard_address rt pid th (follower_shard_index user) = m \<Longrightarrow> k \<noteq> m \<Longrightarrow>
     (\<And>y. B k = Some y \<Longrightarrow> \<exists>r. y = Follows r \<and> fr_owner r = user) \<Longrightarrow>
     (\<And>y. B m = Some y \<Longrightarrow> \<exists>s. y = Followers s \<and> fs_thread s = th) \<Longrightarrow>
     th \<notin> set (follows_in (B k)) \<Longrightarrow> length (follows_in (B k)) < MAX_FOLLOWS \<Longrightarrow>
     fs_thread s' = th \<Longrightarrow> fs_shard s' = follower_shard_index user \<Longrightarrow>
     unat (fs_count s') = followers_of (B m) + 1 \<Longrightarrow>
     board_step rt pid who Subscribe B
       (B(k \<mapsto> Follows \<lparr>fr_tag = TAG_FOLLOW_REGISTRY, fr_owner = user,
            fr_channels = follows_in (B k) @ [th]\<rparr>, m \<mapsto> Followers s'))"
| unfollow:
    "who user \<Longrightarrow> B th = Some (Thread t) \<Longrightarrow> B (registry_address rt pid user) = Some (Follows r) \<Longrightarrow>
     fr_owner r = user \<Longrightarrow> pos < length (fr_channels r) \<Longrightarrow> fr_channels r ! pos = th \<Longrightarrow>
     B (shard_address rt pid th (follower_shard_index user)) = Some (Followers s) \<Longrightarrow>
     fs_thread s = th \<Longrightarrow>
     board_step rt pid who Unsubscribe B
       (B(registry_address rt pid user \<mapsto> Follows (r\<lparr>fr_channels := swap_remove pos (fr_channels r)\<rparr>),
          shard_address rt pid th (follower_shard_index user) \<mapsto>
            Followers (s\<lparr>fs_count := saturating_sub (fs_count s) 1\<rparr>)))"
| set_up:
    "who admin \<Longrightarrow> B (settings_address rt pid) = None \<Longrightarrow>
     board_step rt pid who (InitSettings treasury) B
       (B(settings_address rt pid \<mapsto> initial_settings admin treasury))"
| admin_set:
    "B (settings_address rt pid) = Some (Platform s) \<Longrightarrow> who (ps_admin s) \<Longrightarrow>
     admin_sets i s = Some s' \<Longrightarrow>
     board_step rt pid who i B (B(settings_address rt pid \<mapsto> Platform s'))"

section \<open>The program implements the steps\<close>

context solana
begin

text \<open>Threads.\<close>

lemma forum_open_thread:
  assumes "process_create_root_alloc rt pid accounts fee i title L = Inr L'"
  shows "board_step rt pid (signed_by accounts) (CreateRootAlloc fee i title)
    (board rt pid L) (board rt pid L')"
proof -
  from create_root_alloc_ok [OF assms, folded chain_address_def] obtain
      payer th al st :: account_info and rest s where
    acc: "accounts = payer # th # al # rest" "is_signer payer" "is_signer th"
    and o: "length title \<le> MAX_TITLE_LEN" "settings_at rt pid L (ai_key st) = Some s"
      "ai_key al = chain_address rt pid (ai_key th) 0"
    and new: "is_uninitialized rt th L" "is_uninitialized rt al L"
    and w: "thread_at rt pid L' (ai_key th) = Some \<lparr>tn_tag = TAG_THREAD, tn_alloc_count = 1,
        tn_last_alloc_seq = 0, tn_author = ai_key payer, tn_message_fee = fee, tn_like_fee = 0,
        tn_title = title\<rparr>"
      "alloc_at rt pid L' (ai_key al) =
        Some \<lparr>an_tag = TAG_ALLOC, an_thread = ai_key th, an_alloc_seq = 0\<rparr>"
    and e: "effect pid {ai_key th, ai_key al} {ai_key payer} L L'"
    by (elim exE conjE)
  have "board rt pid L' = (board rt pid L)(ai_key th \<mapsto> new_thread (ai_key payer) fee title,
      chain_address rt pid (ai_key th) 0 \<mapsto> chain_node (ai_key th) 0)"
    using board_quiet2 [OF effect_quiet [OF e]] w o(3) by (simp add: item_defs)
  then show ?thesis
    using acc o new alloc_not_thread [OF w(2)] w(1)
    by (auto intro!: board_step.open_thread board_free board_free [of al, unfolded o(3)] simp: o(3))
qed

lemma forum_extend:
  assumes "process_prepare_alloc rt pid accounts seq L = Inr L'"
  shows "board_step rt pid (signed_by accounts) (PrepareAlloc seq) (board rt pid L) (board rt pid L')"
proof -
  from prepare_alloc_ok [OF assms, folded chain_address_def] obtain
      payer cur new th :: account_info and t where
    t: "thread_at rt pid L (ai_key th) = Some t" "tn_last_alloc_seq t = seq"
    and a: "ai_key cur = chain_address rt pid (ai_key th) seq"
      "alloc_at rt pid L (ai_key cur) =
        Some \<lparr>an_tag = TAG_ALLOC, an_thread = ai_key th, an_alloc_seq = seq\<rparr>"
      "unat seq + 1 < 2 ^ 32" "ai_key new = chain_address rt pid (ai_key th) (seq + 1)"
    and new: "is_uninitialized rt new L"
    and w: "thread_at rt pid L' (ai_key th) = Some (t\<lparr>tn_alloc_count := tn_alloc_count t + 1,
        tn_last_alloc_seq := seq + 1\<rparr>)"
      "alloc_at rt pid L' (ai_key new) =
        Some \<lparr>an_tag = TAG_ALLOC, an_thread = ai_key th, an_alloc_seq = seq + 1\<rparr>"
    and e: "effect pid {ai_key new, ai_key th} {ai_key payer} L L'"
    by (elim exE conjE)
  have "board rt pid L' = (board rt pid L)
      (chain_address rt pid (ai_key th) (seq + 1) \<mapsto> chain_node (ai_key th) (seq + 1),
       ai_key th \<mapsto> Thread (extended t))"
    using board_quiet2 [OF effect_quiet [OF e]] w a(4) t(2) by (simp add: item_defs)
  moreover have "board rt pid L (chain_address rt pid (ai_key th) seq) =
      Some (chain_node (ai_key th) seq)"
    using a(1,2) by (simp add: chain_node_def)
  ultimately show ?thesis
    using t a(3,4) board_free [OF new] by (auto intro!: board_step.extend)
qed

lemma forum_author_set:
  assumes "dispatch rt pid accounts i L = Inr L'" "\<And>t. author_sets i t \<noteq> None"
  shows "board_step rt pid (signed_by accounts) i (board rt pid L) (board rt pid L')"
proof -
  from assms obtain f where
    run: "attempt (next_account_info accounts) (\<lambda>(authority, it).
        attempt (next_account_info it) (\<lambda>(a, it').
        attempt (load_author_thread rt pid authority a L) (\<lambda>t.
        serialize (thread_node_codec (rt_borsh rt)) (f t) a L))) = Inr L'"
    and f: "\<And>t. author_sets i t = Some (f t)" "\<And>t. tn_tag (f t) = tn_tag t \<and> tn_title (f t) = tn_title t"
    by (cases i) (auto simp: dispatch_def process_set_message_fee_def process_set_like_fee_def)
  from thread_update.update_ok [OF run] f(2) obtain authority th :: account_info and rest t where
    acc: "accounts = authority # th # rest" "is_signer authority" "tn_author t = ai_key authority"
    and t: "thread_at rt pid L (ai_key th) = Some t" "thread_at rt pid L' (ai_key th) = Some (f t)"
    and same: "\<forall>k. k \<noteq> ai_key th \<longrightarrow> L' k = L k"
    by (metis (no_types, lifting))
  have "board rt pid L' = (board rt pid L)(ai_key th \<mapsto> Thread (f t))"
    by (rule board_others) (simp_all add: same t(2))
  then show ?thesis
    using acc t(1) f(1) by (auto intro!: board_step.author_set)
qed

text \<open>Access gates and settings that an owner switches.\<close>

lemma forum_gatekeeper_set:
  assumes "dispatch rt pid accounts i L = Inr L'" "\<And>x. gatekeeper_sets i x \<noteq> None"
  shows "board_step rt pid (signed_by accounts) i (board rt pid L) (board rt pid L')"
proof -
  from assms obtain f where
    run: "attempt (next_account_info accounts) (\<lambda>(authority, it).
        attempt (next_account_info it) (\<lambda>(a, it').
        attempt (load_admin_access rt pid authority a L) (\<lambda>x.
        serialize (thread_access_codec (rt_borsh rt)) (f x) a L))) = Inr L'"
    and f: "\<And>x. gatekeeper_sets i x = Some (f x)" "\<And>x. ta_tag (f x) = ta_tag x"
    by (cases i) (auto simp: dispatch_def process_set_thread_access_def process_set_entry_fee_def)
  from access_update.update_ok [OF run] f(2) obtain authority a :: account_info and rest x where
    acc: "accounts = authority # a # rest" "is_signer authority" "ta_admin x = ai_key authority"
    and x: "access_at rt pid L (ai_key a) = Some x" "access_at rt pid L' (ai_key a) = Some (f x)"
    and same: "\<forall>k. k \<noteq> ai_key a \<longrightarrow> L' k = L k"
    by (metis (no_types, lifting))
  have "board rt pid L' = (board rt pid L)(ai_key a \<mapsto> Gate (f x))"
    by (rule board_others) (simp_all add: same x(2))
  then show ?thesis
    using acc x(1) f(1) by (auto intro!: board_step.gatekeeper_set)
qed

lemma forum_admin_set:
  assumes "dispatch rt pid accounts i L = Inr L'" "TAG_SETTINGS \<in> kinds_of i" "\<And>k. i \<noteq> InitSettings k"
  shows "board_step rt pid (signed_by accounts) i (board rt pid L) (board rt pid L')"
proof -
  from assms obtain f where
    run: "attempt (next_account_info accounts) (\<lambda>(authority, it).
        attempt (next_account_info it) (\<lambda>(a, it').
        attempt (load_admin_settings rt pid authority a L) (\<lambda>s.
        serialize (program_settings_codec (rt_borsh rt)) (f s) a L))) = Inr L'"
    and f: "\<And>s. admin_sets i s = Some (f s)" "\<And>s. ps_tag (f s) = ps_tag s"
    by (cases i)
      (auto simp: handler_dispatch process_set_admin_def process_set_treasury_def
        process_set_base_fee_def process_set_author_fee_cut_def process_set_entry_cut_def
        process_set_like_cut_def update_platform_setting_def split: if_splits)
  from settings_update.update_ok [OF run] f(2) obtain authority a :: account_info and rest s where
    acc: "accounts = authority # a # rest" "is_signer authority" "ps_admin s = ai_key authority"
      "ai_key a = settings_address rt pid"
    and s: "settings_at rt pid L (ai_key a) = Some s" "settings_at rt pid L' (ai_key a) = Some (f s)"
    and same: "\<forall>k. k \<noteq> ai_key a \<longrightarrow> L' k = L k"
    unfolding settings_address_def by (metis (no_types, lifting))
  have "board rt pid L' = (board rt pid L)(settings_address rt pid \<mapsto> Platform (f s))"
    unfolding acc(4) [symmetric] by (rule board_others) (simp_all add: same s(2))
  then show ?thesis
    using acc s(1) f(1) by (auto intro!: board_step.admin_set)
qed

lemma forum_set_up:
  assumes "process_init_settings rt pid accounts treasury L = Inr L'"
  shows "board_step rt pid (signed_by accounts) (InitSettings treasury) (board rt pid L) (board rt pid L')"
proof -
  from init_settings_ok [OF assms, folded settings_address_def] obtain
      authority sa :: account_info and rest where
    acc: "accounts = authority # sa # rest" "is_signer authority" "ai_key sa = settings_address rt pid"
    and new: "is_uninitialized rt sa L"
    and w: "settings_at rt pid L' (ai_key sa) = Some \<lparr>ps_tag = TAG_SETTINGS,
      ps_admin = ai_key authority, ps_treasury = treasury, ps_base_fee_bps = 1000,
      ps_author_fee_cut_bps = 1000, ps_entry_cut_bps = 1000, ps_like_cut_bps = 1000\<rparr>"
    and e: "effect pid {ai_key sa} {ai_key authority} L L'"
    by (elim exE conjE)
  have "board rt pid L' = (board rt pid L)
      (settings_address rt pid \<mapsto> initial_settings (ai_key authority) treasury)"
    unfolding acc(3) [symmetric] by (rule board_quiet1 [OF effect_quiet [OF e]]) (simp add: w item_defs)
  then show ?thesis
    using acc board_free [OF new] by (auto intro!: board_step.set_up)
qed

text \<open>Messages.\<close>

lemma forum_post:
  assumes "process_fill_slot rt pid accounts kd body cands i j ra rs max_fee L = Inr L'"
  shows "board_step rt pid (signed_by accounts) (FillSlot kd body cands i j ra rs max_fee)
    (board rt pid L) (board rt pid L')"
proof -
  from fill_slot_posts [OF assms] obtain payer a th :: account_info and rest t now before after
      and c :: candidate_slot where
    acc: "accounts = payer # th # rest" "is_signer payer"
    and p: "length body \<le> MAX_BODY_LEN" "thread_at rt pid L (ai_key th) = Some t"
      "rt_clock rt = Inr now" "cs_alloc_seq c \<le> tn_last_alloc_seq t"
      "unat (cs_slot c) < CONTENT_SLOTS"
    and c: "\<exists>rest. zip cands rest = before @ (c, a) # after"
    and a: "ai_key a = fst (derive_content_pda rt pid (ai_key th) (cs_alloc_seq c) (cs_slot c))"
    and new: "is_uninitialized rt a L"
    and w: "content_at rt pid L' (ai_key a) = Some
      \<lparr>cn_header = \<lparr>ch_tag = TAG_CONTENT, ch_alloc_seq = cs_alloc_seq c,
         ch_slot = cs_slot c, ch_thread = ai_key th, ch_author = ai_key payer,
         ch_created_at = now, ch_reply_alloc_seq = ra, ch_reply_slot = rs\<rparr>,
       cn_kind = kd, cn_body = body\<rparr>" (is "_ = Some \<lparr>cn_header = ?h, cn_kind = _, cn_body = _\<rparr>")
    and e: "effect pid {ai_key a} {ai_key payer} L L'"
    by (elim exE conjE) (rule that, assumption+, rule exI, assumption+)
  from fill_slot_ok [OF assms] acc p(2)
  have may: "admits rt pid (board rt pid L) (ai_key th) t (ai_key payer)"
    by (auto simp: admits_board)
  from c have "c \<in> set cands" by (metis in_set_conv_decomp set_zip_leftD)
  have at: "content_address rt pid ?h = ai_key a" by (simp add: content_address_def a)
  have upd: "board rt pid L' = (board rt pid L)(content_address rt pid ?h \<mapsto>
      Message \<lparr>cn_header = ?h, cn_kind = kd, cn_body = body\<rparr>)"
    unfolding at by (rule board_quiet1 [OF effect_quiet [OF e]]) (simp add: w)
  show ?thesis
    unfolding upd
    by (rule board_step.post [where author = "ai_key payer" and th = "ai_key th" and c = c])
      (use acc p may \<open>c \<in> set cands\<close> board_free [OF new] in \<open>simp_all add: at\<close>)
qed

lemma forum_append:
  assumes "process_append_content rt pid accounts chunk i j L = Inr L'"
  shows "board_step rt pid (signed_by accounts) (AppendContent chunk i j)
    (board rt pid L) (board rt pid L')"
proof -
  from append_content_ok [OF assms] obtain payer ca :: account_info and rest n now where
    acc: "accounts = payer # ca # rest" "is_signer payer" "ch_author (cn_header n) = ai_key payer"
    and n: "content_at rt pid L (ai_key ca) = Some n" "rt_clock rt = Inr now"
      "sint now - sint (ch_created_at (cn_header n)) \<le> APPEND_WINDOW_SECS"
      "length (cn_body n) + length chunk \<le> MAX_BODY_LEN"
    and w: "content_at rt pid L' (ai_key ca) = Some (n\<lparr>cn_body := cn_body n @ chunk\<rparr>)"
    and e: "effect pid {ai_key ca} {ai_key payer} L L'"
    by (elim exE conjE)
  have "board rt pid L' = (board rt pid L)
      (ai_key ca \<mapsto> Message (n\<lparr>cn_body := cn_body n @ chunk\<rparr>))"
    by (rule board_quiet1 [OF effect_quiet [OF e]]) (simp add: w)
  then show ?thesis using acc n by (auto intro!: board_step.append_message)
qed

lemma forum_close:
  assumes "process_close_account rt pid accounts L = Inr L'"
  shows "board_step rt pid (signed_by accounts) CloseAccount (board rt pid L) (board rt pid L')"
proof -
  from close_account_ok [OF assms] obtain payer a :: account_info and rest n L1 where
    acc: "accounts = payer # a # rest" "is_signer payer" "ch_author (cn_header n) = ai_key payer"
    and n: "content_at rt pid L (ai_key a) = Some n" "acc_data (L' (ai_key a)) = []"
    and lk: "rest = [] \<and> L1 = L \<or>
      (\<exists>lk tail. rest = lk # tail \<and> ai_key lk \<noteq> ai_key a \<and> reset_likes rt pid n lk L = Inr L1 \<and>
        acc_owner (L' (ai_key lk)) = acc_owner (L1 (ai_key lk)) \<and>
        acc_data (L' (ai_key lk)) = acc_data (L1 (ai_key lk)))"
    and q: "quiet pid (insert (ai_key a) (ai_key ` set (take 1 rest))) L L'"
    by (elim exE conjE)
  note none = board_view.view_empty [of L' "ai_key a", OF n(2)]
  have plain: "board_step rt pid (signed_by accounts) CloseAccount (board rt pid L) (board rt pid L')"
    if "board rt pid L' = (board rt pid L)(ai_key a := None)"
    using that acc n(1) by (auto intro!: board_step.close_message)
  from lk show ?thesis
  proof
    assume "rest = [] \<and> L1 = L"
    with q have "quiet pid {ai_key a} L L'" by simp
    then show ?thesis by (rule plain [OF board_quiet1 [OF _ none]])
  next
    assume "\<exists>lk tail. rest = lk # tail \<and> ai_key lk \<noteq> ai_key a \<and>
      reset_likes rt pid n lk L = Inr L1 \<and>
      acc_owner (L' (ai_key lk)) = acc_owner (L1 (ai_key lk)) \<and>
      acc_data (L' (ai_key lk)) = acc_data (L1 (ai_key lk))"
    then obtain lk tail where r: "rest = lk # tail" "reset_likes rt pid n lk L = Inr L1"
      and same: "acc_owner (L' (ai_key lk)) = acc_owner (L1 (ai_key lk))"
        "acc_data (L' (ai_key lk)) = acc_data (L1 (ai_key lk))"
      by blast
    have q2: "quiet pid {ai_key a, ai_key lk} L L'" using q r(1) by simp
    note upd = board_quiet2 [OF q2 none] board_view.view_cong [of L' "ai_key lk" L1, OF same]
    note key = reset_likes_ok(1) [OF r(2), folded likes_address_def]
    from reset_likes_ok(5) [OF r(2)] show ?thesis
    proof
      assume "L1 = L \<and> is_uninitialized rt lk L"
      with upd(2) board_free [of lk L] have "board rt pid L' (ai_key lk) = None"
        "board rt pid L (ai_key lk) = None" by simp_all
      then show ?thesis using upd(1) [of None] by (intro plain) (auto simp: fun_eq_iff)
    next
      assume "\<exists>l. likes_at rt pid L (ai_key lk) = Some l \<and>
        al_alloc_seq l = ch_alloc_seq (cn_header n) \<and>
        unat (ch_slot (cn_header n)) < CONTENT_SLOTS \<and> likes_at rt pid L1 (ai_key lk) =
          Some (l\<lparr>al_counts := (al_counts l)[unat (ch_slot (cn_header n)) := 0]\<rparr>)"
      then obtain l where l: "likes_at rt pid L (ai_key lk) = Some l"
          "al_alloc_seq l = ch_alloc_seq (cn_header n)" "unat (ch_slot (cn_header n)) < CONTENT_SLOTS"
        and w: "likes_at rt pid L1 (ai_key lk) =
          Some (l\<lparr>al_counts := (al_counts l)[unat (ch_slot (cn_header n)) := 0]\<rparr>)"
        by blast
      have "board rt pid L' = (board rt pid L)(ai_key a := None, ai_key lk \<mapsto>
          Likes (l\<lparr>al_counts := (al_counts l)[unat (ch_slot (cn_header n)) := 0]\<rparr>))"
        by (rule upd(1)) (simp add: upd(2) w)
      then show ?thesis using acc n(1) l key by (auto intro!: board_step.close_and_reset)
    qed
  qed
qed

lemma forum_like:
  assumes "process_like_content rt pid accounts seq slot i j max_fee L = Inr L'"
  shows "board_step rt pid (signed_by accounts) (LikeContent seq slot i j max_fee)
    (board rt pid L) (board rt pid L')"
proof -
  from like_content_ok [OF assms, folded likes_address_def] obtain
      payer lk ca th :: account_info and rest n t l where
    acc: "accounts = payer # lk # rest" "is_signer payer"
    and g: "unat slot < CONTENT_SLOTS" "content_at rt pid L (ai_key ca) = Some n"
      "ai_key ca = fst (derive_content_pda rt pid (ai_key th) seq slot)"
      "thread_at rt pid L (ai_key th) = Some t" "ai_key lk = likes_address rt pid (ai_key th) seq"
      "tag_byte pid L (ai_key lk) \<in> {None, Some TAG_LIKES}"
    and w: "likes_at rt pid L' (ai_key lk) = Some l" "al_counts l = (like_counts rt pid L (ai_key lk))
      [unat slot := saturating_add (like_counts rt pid L (ai_key lk) ! unat slot) 1]"
    and e: "effect pid {ai_key lk} {ai_key payer} L L'"
    by (elim exE conjE)
  have "board rt pid L' = (board rt pid L)(ai_key lk \<mapsto> Likes l)"
    by (rule board_quiet1 [OF effect_quiet [OF e]]) (simp add: w)
  then show ?thesis
    using acc g w(2) board_kind(1) [OF g(6)]
    by (auto intro!: board_step.like simp: counts_in_board)
qed

text \<open>Sweeps move lamports only.\<close>

lemma sweeping_keeps_board:
  "sweep_shards rt pid validate r m xs L = Inr L' \<Longrightarrow> board rt pid L' = board rt pid L"
  by (intro board_same) (rule sweep_shards_ok(1,2), assumption)+

lemma forum_sweep_treasury:
  assumes "process_sweep_treasury rt pid accounts is L = Inr L'"
  shows "board_step rt pid (signed_by accounts) (SweepTreasury is) (board rt pid L) (board rt pid L')"
proof -
  from assms obtain m r xs where "sweep_shards rt pid (validate_treasury_shard rt pid) r m xs L = Inr L'"
    by (auto simp: process_sweep_treasury_def Let_def attempt_Inr_iff if_Inl_Inr_iff)
  from sweeping_keeps_board [OF this] show ?thesis by (simp add: board_step.sweep_treasury)
qed

lemma forum_sweep_author_fees:
  assumes "process_sweep_author_fees rt pid accounts js L = Inr L'"
  shows "board_step rt pid (signed_by accounts) (SweepAuthorFees js) (board rt pid L) (board rt pid L')"
proof -
  from assms obtain th w shards t xs m where
    acc: "accounts = th # w # shards" "thread_at rt pid L (ai_key th) = Some t"
      "ai_key w = tn_author t" "is_signer w"
    and run: "sweep_shards rt pid (validate_author_fee_shard rt pid (ai_key th)) w m xs L = Inr L'"
    by (auto simp: process_sweep_author_fees_def Let_def attempt_Inr_iff next_account_info_Inr_iff
        assert_Inr_iffs if_Inl_Inr_iff load_thread_iff)
  from sweeping_keeps_board [OF run] acc show ?thesis
    by (auto intro!: board_step.sweep_author_fees)
qed

text \<open>Access gates and the standings of wallets.\<close>

lemma forum_open_gate:
  assumes "process_init_thread_access rt pid accounts enabled i L = Inr L'"
  shows "board_step rt pid (signed_by accounts) (InitThreadAccess enabled i)
    (board rt pid L) (board rt pid L')"
proof -
  from init_thread_access_ok [OF assms, folded access_address_def] obtain
      authority th access :: account_info and rest t where
    acc: "accounts = authority # th # access # rest" "is_signer authority"
    and t: "thread_at rt pid L (ai_key th) = Some t" "tn_author t = ai_key authority"
      "ai_key access = access_address rt pid (ai_key th)"
    and new: "is_uninitialized rt access L"
    and w: "access_at rt pid L' (ai_key access) = Some \<lparr>ta_tag = TAG_ACCESS, ta_thread = ai_key th,
      ta_enabled = enabled, ta_admin = ai_key authority, ta_entry_fee = 0,
      ta_whitelist_count = 0\<rparr>"
    and e: "effect pid {ai_key access} {ai_key authority} L L'"
    by (elim exE conjE)
  have upd: "board rt pid L' = (board rt pid L)
      (access_address rt pid (ai_key th) \<mapsto> new_gate (ai_key th) enabled (tn_author t))"
    unfolding t(3) [symmetric]
    by (rule board_quiet1 [OF effect_quiet [OF e]]) (simp add: w t(2) item_defs)
  show ?thesis
    unfolding upd by (rule board_step.open_gate) (use acc t board_free [OF new] in simp_all)
qed

lemma forum_give:
  assumes "dispatch rt pid accounts i L = Inr L'" "gives i \<noteq> None"
  shows "board_step rt pid (signed_by accounts) i (board rt pid L) (board rt pid L')"
proof -
  from assms obtain authority access entry sp rest w st where
    i: "gives i = Some (w, st)" and acc: "accounts = authority # access # entry # sp # rest"
    and run: "apply_access_entry_status rt pid authority access entry sp w st L = Inr L'"
    by (cases i) (auto simp: list_dispatch)
  from apply_access_entry_status_ok [OF run, folded access_address_def entry_address_def] obtain x where
    x: "is_signer authority" "access_at rt pid L (ai_key access) = Some x"
      "ta_admin x = ai_key authority" "ai_key access = access_address rt pid (ta_thread x)"
    and k: "ai_key entry = entry_address rt pid (ta_thread x) w"
      "\<forall>e. entry_at rt pid L (ai_key entry) = Some e \<longrightarrow> ae_thread e = ta_thread x \<and> ae_wallet e = w"
      "tag_byte pid L (ai_key entry) \<in> {None, Some TAG_ACCESS_ENTRY}"
    and w: "entry_at rt pid L' (ai_key entry) = Some (entry_for (ta_thread x) w st)"
      "access_at rt pid L' (ai_key access) = Some (x\<lparr>ta_whitelist_count :=
        moved_count (ta_whitelist_count x)
          (counter_delta (map_option ae_status (entry_at rt pid L (ai_key entry))) (Some st))\<rparr>)"
    and e: "effect pid {ai_key entry, ai_key access} {ai_key authority} L L'"
    by (elim exE conjE)
  have upd: "board rt pid L' = (board rt pid L)(ai_key entry \<mapsto> Standing (entry_for (ta_thread x) w st),
      access_address rt pid (ta_thread x) \<mapsto>
        counted x (status_in (board rt pid L (ai_key entry))) (Some st))"
    unfolding x(4) [symmetric]
    by (rule board_quiet2 [OF effect_quiet [OF e]]) (simp_all add: w counted_def status_in_board)
  show ?thesis
    unfolding upd
    by (rule board_step.give_status [OF i])
      (use acc x(1-3) k board_kind(2) [OF k(3)] in \<open>auto simp flip: x(4)\<close>)
qed

lemma forum_take:
  assumes "dispatch rt pid accounts i L = Inr L'" "takes i \<noteq> None"
  shows "board_step rt pid (signed_by accounts) i (board rt pid L) (board rt pid L')"
proof -
  from assms obtain authority access entry rest w st where
    i: "takes i = Some (w, st)" and acc: "accounts = authority # access # entry # rest"
    and run: "remove_access_entry rt pid authority access entry w st L = Inr L'"
    by (cases i) (auto simp: list_dispatch)
  from remove_access_entry_ok [OF run, folded access_address_def entry_address_def] obtain x where
    x: "is_signer authority" "access_at rt pid L (ai_key access) = Some x"
      "ta_admin x = ai_key authority" "ai_key access = access_address rt pid (ta_thread x)"
    and k: "ai_key entry = entry_address rt pid (ta_thread x) w"
      "entry_at rt pid L (ai_key entry) = Some (entry_for (ta_thread x) w st)"
    and gone: "acc_data (L' (ai_key entry)) = []"
    and w: "access_at rt pid L' (ai_key access) = Some (x\<lparr>ta_whitelist_count :=
      moved_count (ta_whitelist_count x) (counter_delta (Some st) None)\<rparr>)"
    and q: "quiet pid {ai_key entry, ai_key access} L L'"
    by (elim exE conjE)
  have upd: "board rt pid L' = (board rt pid L)(ai_key entry := None,
      access_address rt pid (ta_thread x) \<mapsto> counted x (Some st) None)"
    unfolding x(4) [symmetric]
    by (rule board_quiet2 [OF q]) (simp_all add: w counted_def board_view.view_empty gone)
  show ?thesis
    unfolding upd by (rule board_step.take_status [OF i]) (use acc x(1-3) k in \<open>auto simp flip: x(4)\<close>)
qed

lemma forum_buy:
  assumes "process_request_access rt pid accounts i j L = Inr L'"
  shows "board_step rt pid (signed_by accounts) (RequestAccess i j) (board rt pid L) (board rt pid L')"
proof -
  from request_access_ok [OF assms, folded access_address_def entry_address_def] obtain
      payer access entry th :: account_info and rest x t where
    acc: "accounts = payer # access # entry # th # rest" "is_signer payer"
    and x: "thread_at rt pid L (ai_key th) = Some t"
      "access_at rt pid L (ai_key access) = Some x" "ta_thread x = ai_key th"
      "ai_key access = access_address rt pid (ai_key th)" "ta_entry_fee x \<noteq> 0"
      "ai_key entry = entry_address rt pid (ai_key th) (ai_key payer)"
    and new: "is_uninitialized rt entry L"
    and w: "entry_at rt pid L' (ai_key entry) =
        Some (entry_for (ai_key th) (ai_key payer) ACCESS_ALLOWED)"
      "access_at rt pid L' (ai_key access) = Some (x\<lparr>ta_whitelist_count :=
        moved_count (ta_whitelist_count x) (counter_delta None (Some ACCESS_ALLOWED))\<rparr>)"
    and e: "effect pid {ai_key entry, ai_key access} {ai_key payer} L L'"
    by (elim exE conjE)
  have upd: "board rt pid L' = (board rt pid L)
      (entry_address rt pid (ai_key th) (ai_key payer) \<mapsto>
         Standing (entry_for (ai_key th) (ai_key payer) ACCESS_ALLOWED),
       access_address rt pid (ai_key th) \<mapsto> counted x None (Some ACCESS_ALLOWED))"
    unfolding x(4) [symmetric] x(6) [symmetric]
    by (rule board_quiet2 [OF effect_quiet [OF e]]) (simp_all add: w counted_def)
  show ?thesis
    unfolding upd
    by (rule board_step.buy_entry [where t = t])
      (use acc x(1-3,5) board_free [OF new] in \<open>auto simp flip: x(4,6)\<close>)
qed

text \<open>Follow lists.\<close>

lemma followers_of_board:
  assumes "\<And>s. follower_shard_at rt pid L k = Some s \<Longrightarrow> fs_thread s = th \<and> fs_shard s = i"
  shows "followers_of (board rt pid L k) = follower_count rt pid L k th i"
proof (cases "follower_shard_at rt pid L k")
  case None
  then have "board rt pid L k \<noteq> Some (Followers s)" for s by simp
  with None show ?thesis by (simp add: lookups_other follower_count_def)
next
  case (Some s)
  then have "board rt pid L k = Some (Followers s)" by simp
  then show ?thesis using Some assms by (simp add: follower_count_def del: board_views)
qed

lemma forum_follow:
  assumes "process_subscribe rt pid accounts L = Inr L'"
  shows "board_step rt pid (signed_by accounts) Subscribe (board rt pid L) (board rt pid L')"
proof -
  from subscribe_ok [OF assms, folded registry_address_def shard_address_def] obtain
      user reg sh th :: account_info and rest t s' where
    acc: "accounts = user # reg # rest" "is_signer user"
    and t: "thread_at rt pid L (ai_key th) = Some t"
    and at: "ai_key reg = registry_address rt pid (ai_key user)"
      "ai_key sh = shard_address rt pid (ai_key th) (follower_shard_index (ai_key user))"
    and r: "\<forall>r. registry_at rt pid L (ai_key reg) = Some r \<longrightarrow> fr_owner r = ai_key user"
      "\<forall>s. follower_shard_at rt pid L (ai_key sh) = Some s \<longrightarrow>
        fs_thread s = ai_key th \<and> fs_shard s = follower_shard_index (ai_key user)"
      "ai_key reg \<noteq> ai_key sh"
      "tag_byte pid L (ai_key reg) \<in> {None, Some TAG_FOLLOW_REGISTRY}"
      "tag_byte pid L (ai_key sh) \<in> {None, Some TAG_FOLLOWER_SHARD}"
      "ai_key th \<notin> set (follows rt pid L (ai_key reg))"
      "length (follows rt pid L (ai_key reg)) < MAX_FOLLOWS"
    and w: "registry_at rt pid L' (ai_key reg) = Some \<lparr>fr_tag = TAG_FOLLOW_REGISTRY,
        fr_owner = ai_key user, fr_channels = follows rt pid L (ai_key reg) @ [ai_key th]\<rparr>"
      "follower_shard_at rt pid L' (ai_key sh) = Some s'" "fs_thread s' = ai_key th"
      "fs_shard s' = follower_shard_index (ai_key user)"
      "unat (fs_count s') = follower_count rt pid L (ai_key sh) (ai_key th)
        (follower_shard_index (ai_key user)) + 1"
    and e: "effect pid {ai_key reg, ai_key sh} {ai_key user} L L'"
    by (elim exE conjE)
  have upd: "board rt pid L' = (board rt pid L)
      (ai_key reg \<mapsto> Follows \<lparr>fr_tag = TAG_FOLLOW_REGISTRY, fr_owner = ai_key user,
         fr_channels = follows_in (board rt pid L (ai_key reg)) @ [ai_key th]\<rparr>,
       ai_key sh \<mapsto> Followers s')"
    by (rule board_quiet2 [OF effect_quiet [OF e]]) (simp_all add: w follows_in_board)
  show ?thesis
    unfolding upd
    by (rule board_step.follow [where t = t])
      (use acc t at r w(3-5) board_kind(3) [OF r(4)] board_kind(4) [OF r(5)] in
        \<open>auto simp: follows_in_board followers_of_board\<close>)
qed

lemma forum_unfollow:
  assumes "process_unsubscribe rt pid accounts L = Inr L'"
  shows "board_step rt pid (signed_by accounts) Unsubscribe (board rt pid L) (board rt pid L')"
proof -
  from unsubscribe_ok [OF assms, folded registry_address_def shard_address_def] obtain
      user reg sh th :: account_info and rest t r pos s where
    acc: "accounts = user # reg # rest" "is_signer user"
    and t: "thread_at rt pid L (ai_key th) = Some t"
    and at: "ai_key reg = registry_address rt pid (ai_key user)"
      "ai_key sh = shard_address rt pid (ai_key th) (follower_shard_index (ai_key user))"
    and r: "registry_at rt pid L (ai_key reg) = Some r" "fr_owner r = ai_key user"
      "pos < length (fr_channels r)" "fr_channels r ! pos = ai_key th"
      "follower_shard_at rt pid L (ai_key sh) = Some s" "fs_thread s = ai_key th"
    and w: "registry_at rt pid L' (ai_key reg) =
        Some (r\<lparr>fr_channels := swap_remove pos (fr_channels r)\<rparr>)"
      "follower_shard_at rt pid L' (ai_key sh) = Some (s\<lparr>fs_count := saturating_sub (fs_count s) 1\<rparr>)"
    and e: "effect pid {ai_key reg, ai_key sh} {ai_key reg} L L'"
    by (elim exE conjE)
  have upd: "board rt pid L' = (board rt pid L)
      (registry_address rt pid (ai_key user) \<mapsto>
         Follows (r\<lparr>fr_channels := swap_remove pos (fr_channels r)\<rparr>),
       shard_address rt pid (ai_key th) (follower_shard_index (ai_key user)) \<mapsto>
         Followers (s\<lparr>fs_count := saturating_sub (fs_count s) 1\<rparr>))"
    unfolding at [symmetric] by (rule board_quiet2 [OF effect_quiet [OF e]]) (simp_all add: w)
  show ?thesis
    unfolding upd
    by (rule board_step.unfollow [where t = t]) (use acc t r in \<open>auto simp flip: at\<close>)
qed

text \<open>Every instruction.\<close>

lemma forum_dispatch:
  assumes "dispatch rt pid accounts i L = Inr L'"
  shows "board_step rt pid (signed_by accounts) i (board rt pid L) (board rt pid L')"
proof -
  note known = forum_open_thread forum_extend forum_post forum_append forum_close forum_like
    forum_sweep_treasury forum_sweep_author_fees forum_open_gate forum_buy forum_follow
    forum_unfollow forum_set_up
  from assms show ?thesis
    using forum_author_set [OF assms] forum_gatekeeper_set [OF assms] forum_admin_set [OF assms]
      forum_give [OF assms] forum_take [OF assms]
    by (cases i) (simp_all add: handler_dispatch known)
qed

end

end
