(* ===== verification/Authority.thy ===== *)
theory Authority
  imports Steps
begin

text \<open>
  Who may change what. For each kind of account, what any instruction at all can do to it, and
  whose signature that takes. It is read off the steps of the specification and carried over to
  the program, which implements them.
\<close>

section \<open>Steps and signatures\<close>

text \<open>What a step can do to an item of each kind, and whose signature that takes.\<close>

lemma message_step:
  "board_step rt pid who i B B' \<Longrightarrow> B k = Some (Message n) \<Longrightarrow>
   B' k = Some (Message n) \<or> who (ch_author (cn_header n)) \<and>
     (B' k = None \<or> (\<exists>chunk. B' k = Some (Message (n\<lparr>cn_body := cn_body n @ chunk\<rparr>))))"
  by (induction rule: board_step.induct) auto

lemma new_message_step:
  "board_step rt pid who i B B' \<Longrightarrow> B' k = Some (Message n) \<Longrightarrow> (\<And>m. B k \<noteq> Some (Message m)) \<Longrightarrow>
   who (ch_author (cn_header n)) \<and> rt_clock rt = Inr (ch_created_at (cn_header n)) \<and>
     length (cn_body n) \<le> MAX_BODY_LEN \<and> k = content_address rt pid (cn_header n) \<and>
     unat (ch_slot (cn_header n)) < CONTENT_SLOTS"
  by (induction rule: board_step.induct) (auto simp: item_defs split: if_splits)

lemma thread_step:
  "board_step rt pid who i B B' \<Longrightarrow> B k = Some (Thread t) \<Longrightarrow>
   \<exists>t'. B' k = Some (Thread t') \<and>
     (t' = t \<or> t' = extended t \<or> who (tn_author t) \<and> author_sets i t = Some t')"
  by (induction rule: board_step.induct) (auto simp: item_defs)

lemma settings_step:
  "board_step rt pid who i B B' \<Longrightarrow> B k = Some (Platform s) \<Longrightarrow>
   B' k = Some (Platform s) \<or> who (ps_admin s) \<and> (\<exists>s'. B' k = Some (Platform s'))"
  by (induction rule: board_step.induct) auto

lemma one_more: "moved_count n (counter_delta None (Some ACCESS_ALLOWED)) = n + 1"
  by (simp add: moved_count_def counter_delta_def adjusted_count_1)

lemma gate_step:
  "board_step rt pid who i B B' \<Longrightarrow> B k = Some (Gate x) \<Longrightarrow>
   \<exists>x'. B' k = Some (Gate x') \<and> ta_thread x' = ta_thread x \<and> ta_admin x' = ta_admin x \<and>
     (x' = x \<or> who (ta_admin x) \<or> (\<exists>m n wallet. i = RequestAccess m n \<and> who wallet \<and>
        ta_entry_fee x \<noteq> 0 \<and> B (entry_address rt pid (ta_thread x) wallet) = None \<and>
        B' (entry_address rt pid (ta_thread x) wallet) =
          Some (Standing (entry_for (ta_thread x) wallet ACCESS_ALLOWED)) \<and>
        x' = x\<lparr>ta_whitelist_count := ta_whitelist_count x + 1\<rparr>))"
  by (induction rule: board_step.induct)
    (auto simp: item_defs setters_keep one_more)

lemma standing_step:
  "board_step rt pid who i B B' \<Longrightarrow>
   (\<forall>e. B' k = Some (Standing e) \<longleftrightarrow> B k = Some (Standing e)) \<or>
   (\<exists>thread wallet x. k = entry_address rt pid thread wallet \<and>
     B (access_address rt pid thread) = Some (Gate x) \<and> ta_thread x = thread \<and>
     (\<forall>e. B k = Some (Standing e) \<longrightarrow> ae_thread e = thread \<and> ae_wallet e = wallet) \<and>
     (who (ta_admin x) \<or>
      who wallet \<and> ta_entry_fee x \<noteq> 0 \<and> (\<forall>e. B k \<noteq> Some (Standing e)) \<and>
        B' k = Some (Standing (entry_for thread wallet ACCESS_ALLOWED))))"
proof (induction rule: board_step.induct)
  case (give_status i w st B x j)
  show ?case
  proof (cases "k = j")
    case True
    with give_status show ?thesis
      by (intro disjI2 exI [of _ "ta_thread x"] exI [of _ w] exI [of _ x]) auto
  next
    case False
    with give_status(2) show ?thesis by (auto simp: item_defs)
  qed
qed (auto simp: item_defs entry_for_def)

lemma follows_step:
  "board_step rt pid who i B B' \<Longrightarrow>
   (\<forall>r. B' k = Some (Follows r) \<longleftrightarrow> B k = Some (Follows r)) \<or>
   (\<exists>user. k = registry_address rt pid user \<and> who user)"
  by (induction rule: board_step.induct) (auto simp: item_defs)

section \<open>The program\<close>

text \<open>The same of the program's accounts, because every instruction is its step.\<close>

context solana
begin

lemma message_authority:
  assumes "dispatch rt pid accounts i L = Inr L'" "content_at rt pid L k = Some n"
  shows "content_at rt pid L' k = Some n \<or> signed_by accounts (ch_author (cn_header n)) \<and>
    (content_at rt pid L' k = None \<or>
     (\<exists>chunk. content_at rt pid L' k = Some (n\<lparr>cn_body := cn_body n @ chunk\<rparr>)))"
proof -
  have "content_at rt pid L' k = None" if "board rt pid L' k = None"
    using that board_views(3) [of L' k] by (cases "content_at rt pid L' k") auto
  with message_step [OF forum_dispatch [OF assms(1)], of k n] assms(2) show ?thesis by auto
qed

lemma message_new:
  assumes "dispatch rt pid accounts i L = Inr L'" "content_at rt pid L k = None"
    and "content_at rt pid L' k = Some n"
  shows "signed_by accounts (ch_author (cn_header n)) \<and>
    rt_clock rt = Inr (ch_created_at (cn_header n)) \<and> length (cn_body n) \<le> MAX_BODY_LEN \<and>
    k = content_address rt pid (cn_header n) \<and> unat (ch_slot (cn_header n)) < CONTENT_SLOTS"
  by (rule new_message_step [OF forum_dispatch [OF assms(1)]]) (simp_all add: assms(2,3))

lemma thread_authority:
  assumes "dispatch rt pid accounts i L = Inr L'" "thread_at rt pid L k = Some t"
  shows "\<exists>t'. thread_at rt pid L' k = Some t' \<and>
    (t' = t \<or>
     t' = t\<lparr>tn_alloc_count := tn_alloc_count t + 1, tn_last_alloc_seq := tn_last_alloc_seq t + 1\<rparr> \<or>
     signed_by accounts (tn_author t) \<and>
       (\<exists>fee. t' = t\<lparr>tn_message_fee := fee\<rparr> \<or> t' = t\<lparr>tn_like_fee := fee\<rparr>))"
proof -
  have "\<exists>fee. t' = t\<lparr>tn_message_fee := fee\<rparr> \<or> t' = t\<lparr>tn_like_fee := fee\<rparr>"
    if "author_sets i t = Some t'" for t'
    using that by (cases i) auto
  with thread_step [OF forum_dispatch [OF assms(1)], of k t] assms(2) show ?thesis
    by (auto simp: extended_def)
qed

lemma settings_authority:
  assumes "dispatch rt pid accounts i L = Inr L'" "settings_at rt pid L k = Some s"
  shows "settings_at rt pid L' k = Some s \<or>
    signed_by accounts (ps_admin s) \<and> settings_at rt pid L' k \<noteq> None"
  using settings_step [OF forum_dispatch [OF assms(1)], of k s] assms(2) by auto

lemma access_authority:
  assumes "dispatch rt pid accounts i L = Inr L'" "access_at rt pid L k = Some x"
  shows "\<exists>x'. access_at rt pid L' k = Some x' \<and> ta_thread x' = ta_thread x \<and>
    ta_admin x' = ta_admin x \<and>
    (x' = x \<or> signed_by accounts (ta_admin x) \<or>
     (\<exists>m n wallet. i = RequestAccess m n \<and> signed_by accounts wallet \<and> ta_entry_fee x \<noteq> 0 \<and>
       entry_at rt pid L (entry_address rt pid (ta_thread x) wallet) = None \<and>
       entry_at rt pid L' (entry_address rt pid (ta_thread x) wallet) =
         Some (entry_for (ta_thread x) wallet ACCESS_ALLOWED) \<and>
       x' = x\<lparr>ta_whitelist_count := ta_whitelist_count x + 1\<rparr>))"
proof -
  have free: "entry_at rt pid L j = None" if "board rt pid L j = None" for j
    using that board_views(6) [of L j] by (cases "entry_at rt pid L j") auto
  from gate_step [OF forum_dispatch [OF assms(1)], of k x] assms(2) free show ?thesis
    by simp metis
qed

lemma entry_authority:
  assumes "dispatch rt pid accounts i L = Inr L'"
    and "entry_at rt pid L' k \<noteq> entry_at rt pid L k"
  shows "\<exists>thread wallet x. k = entry_address rt pid thread wallet \<and>
    access_at rt pid L (access_address rt pid thread) = Some x \<and> ta_thread x = thread \<and>
    (\<forall>e. entry_at rt pid L k = Some e \<longrightarrow> ae_thread e = thread \<and> ae_wallet e = wallet) \<and>
    (signed_by accounts (ta_admin x) \<or>
     signed_by accounts wallet \<and> ta_entry_fee x \<noteq> 0 \<and> entry_at rt pid L k = None \<and>
       entry_at rt pid L' k = Some (entry_for thread wallet ACCESS_ALLOWED))"
  using standing_step [OF forum_dispatch [OF assms(1)], of k] assms(2)
  by (simp add: option.expand split_option_all) (metis not_Some_eq)

lemma follow_authority:
  assumes "dispatch rt pid accounts i L = Inr L'"
    and "registry_at rt pid L' k \<noteq> registry_at rt pid L k"
  shows "\<exists>user. k = registry_address rt pid user \<and> signed_by accounts user"
  using follows_step [OF forum_dispatch [OF assms(1)], of k] assms(2) by (simp, metis not_Some_eq)

end

section \<open>Bans\<close>

text \<open>A stretch of time in which one key, the admin, signs nothing: other instructions and
  whatever else happens on the chain.\<close>

inductive without :: "runtime \<Rightarrow> pubkey \<Rightarrow> pubkey \<Rightarrow> ledger \<Rightarrow> ledger \<Rightarrow> bool" for rt pid admin where
  none: "without rt pid admin L L"
| call: "without rt pid admin L L1 \<Longrightarrow>
    process_instruction (at_time now rent rt) pid accounts bytes L1 = Inr L2 \<Longrightarrow>
    \<not> signed_by accounts admin \<Longrightarrow> without rt pid admin L L2"
| outside: "without rt pid admin L L1 \<Longrightarrow> outside_step pid L1 L2 \<Longrightarrow> without rt pid admin L L2"

definition banned :: "runtime \<Rightarrow> pubkey \<Rightarrow> ledger \<Rightarrow> pubkey \<Rightarrow> pubkey \<Rightarrow> pubkey \<Rightarrow> bool" where
  "banned rt pid L admin thread wallet \<longleftrightarrow>
     (case access_of rt pid L thread of None \<Rightarrow> False | Some x \<Rightarrow> ta_admin x = admin) \<and>
     (case entry_at rt pid L (entry_address rt pid thread wallet) of
        None \<Rightarrow> False
      | Some e \<Rightarrow> ae_thread e = thread \<and> ae_status e = ACCESS_DENIED)"

context solana
begin

lemma outside_views:
  assumes "outside_step pid L L'"
  shows "access_at rt pid L' k = access_at rt pid L k" "entry_at rt pid L' k = entry_at rt pid L k"
  using views_kept(4,5) [OF _ outside_kept [OF assms]] by (simp_all add: tag_defs)

lemma banned_dispatch:
  assumes "dispatch rt pid accounts i L = Inr L'" "\<not> signed_by accounts admin"
    and "banned rt pid L admin thread wallet"
  shows "banned rt pid L' admin thread wallet"
proof -
  let ?a = "access_address rt pid thread" and ?e = "entry_address rt pid thread wallet"
  from assms(3) obtain x e where x: "access_at rt pid L ?a = Some x" "ta_thread x = thread"
      "ta_admin x = admin"
    and e: "entry_at rt pid L ?e = Some e" "ae_thread e = thread" "ae_status e = ACCESS_DENIED"
    by (auto simp: banned_def access_of_def split: option.splits if_splits)
  from access_authority [OF assms(1) x(1)] x obtain x' where
    x': "access_at rt pid L' ?a = Some x'" "ta_thread x' = thread" "ta_admin x' = admin"
    by auto
  have "entry_at rt pid L' ?e = entry_at rt pid L ?e"
  proof (rule ccontr)
    assume "entry_at rt pid L' ?e \<noteq> entry_at rt pid L ?e"
    from entry_authority [OF assms(1) this] e x assms(2) show False by auto
  qed
  with x' e show ?thesis by (simp add: banned_def access_of_def)
qed

lemma banned_at_time [simp]: "banned (at_time now rent rt) = banned rt"
  by (simp add: fun_eq_iff banned_def access_of_def entry_address_def)

lemma ban_holds:
  assumes "without rt pid admin L L'" "banned rt pid L admin thread wallet"
  shows "banned rt pid L' admin thread wallet"
  using assms
proof induction
  case (call L L1 now rent accounts bytes L2)
  then show ?case
    using solana.banned_dispatch [OF at_another_time [of now rent]]
    by (auto simp: process_instruction_Inr_iff)
next
  case (outside L L1 L2)
  then show ?case by (simp add: banned_def access_of_def outside_views [OF outside.hyps(2)])
qed

lemma banned_cannot_post:
  assumes "banned rt pid L admin (ai_key th) (ai_key payer)"
  shows "process_fill_slot rt pid (payer # th # rest) kind body cands i j ra rs m L \<noteq> Inr L'"
proof
  assume run: "process_fill_slot rt pid (payer # th # rest) kind body cands i j ra rs m L = Inr L'"
  from fill_slot_ok [OF run] obtain t :: thread_node where
    "may_post rt pid L (ai_key th) (tn_author t) (ai_key payer)" by auto
  with assms show False
    by (auto simp: banned_def may_post_def entry_status_def entry_address_def split: option.splits)
qed

end

section \<open>Properties\<close>

text \<open>A follower of the thread leaves it.\<close>

definition leaver :: "account_info list" where
  "leaver = [signer_info 23, plain_info 748834, plain_info 48282, plain_info 30, plain_info 0]"

lemma leave_run: "is_ok (dispatch (ref_rt 0) ref_pid leaver Unsubscribe stage)"
  by (simp add: leaver_def dispatch_def run_simps cong: run_congs)

lemma leaver_signed [simp]: "signed_by leaver w \<longleftrightarrow> w = 23"
  by (auto simp: leaver_def signer_info_def plain_info_def signed_by_def)

text \<open>C3. A message is its author's: whatever instruction runs on whatever accounts, a message
  stays as it is unless its author signs, and then it can only be extended at its end or be
  removed as a whole; its header, kind and earlier bytes never change. Where there was no message,
  one appears only with the signature of the account its header names as author, dated by the
  clock, with a body in bounds and at the address of its thread, node and slot.\<close>

theorem message_is_its_authors:
  assumes "solana rt pid" "dispatch rt pid accounts i L = Inr L'"
  shows "(\<forall>n. content_at rt pid L k = Some n \<longrightarrow>
      content_at rt pid L' k = Some n \<or> signed_by accounts (ch_author (cn_header n)) \<and>
      (content_at rt pid L' k = None \<or>
       (\<exists>chunk. content_at rt pid L' k = Some (n\<lparr>cn_body := cn_body n @ chunk\<rparr>)))) \<and>
    (\<forall>n. content_at rt pid L k = None \<and> content_at rt pid L' k = Some n \<longrightarrow>
      signed_by accounts (ch_author (cn_header n)) \<and>
      rt_clock rt = Inr (ch_created_at (cn_header n)) \<and> length (cn_body n) \<le> MAX_BODY_LEN \<and>
      k = content_address rt pid (cn_header n) \<and> unat (ch_slot (cn_header n)) < CONTENT_SLOTS)"
  using solana.message_authority [OF assms] solana.message_new [OF assms] by blast

theorem message_is_its_authors_witness:
  "content_at (ref_rt 0) ref_pid (ok_value (dispatch (ref_rt 0) ref_pid leaver Unsubscribe stage))
     398068 = Some stage_message"
proof -
  have "content_at (ref_rt 0) ref_pid stage 398068 = Some stage_message"
    by (simp add: run_simps)
  with message_is_its_authors [OF ref_runtime.solana_axioms is_ok_ok_value [OF leave_run]]
  have "content_at (ref_rt 0) ref_pid (ok_value (dispatch (ref_rt 0) ref_pid leaver Unsubscribe stage))
      398068 = Some stage_message \<or> signed_by leaver (ch_author (cn_header stage_message))"
    by blast
  then show ?thesis
    by (simp add: stage_message_def)
qed

text \<open>C17. A thread is its author's and is never removed: no instruction changes its author or
  title, only the author's signature changes a fee, and all that others can do is to extend its
  chain by one node.\<close>

theorem thread_is_its_authors:
  assumes "solana rt pid" "dispatch rt pid accounts i L = Inr L'"
    and "thread_at rt pid L k = Some t"
  shows "\<exists>t'. thread_at rt pid L' k = Some t' \<and>
    (t' = t \<or>
     t' = t\<lparr>tn_alloc_count := tn_alloc_count t + 1, tn_last_alloc_seq := tn_last_alloc_seq t + 1\<rparr> \<or>
     signed_by accounts (tn_author t) \<and>
       (\<exists>fee. t' = t\<lparr>tn_message_fee := fee\<rparr> \<or> t' = t\<lparr>tn_like_fee := fee\<rparr>))"
  by (rule solana.thread_authority [OF assms])

theorem thread_is_its_authors_witness:
  "\<exists>t'. thread_at (ref_rt 0) ref_pid (ok_value (dispatch (ref_rt 0) ref_pid leaver Unsubscribe stage))
     30 = Some t' \<and> tn_author t' = 20 \<and> tn_message_fee t' = tn_message_fee stage_thread"
proof -
  have "thread_at (ref_rt 0) ref_pid stage 30 = Some stage_thread"
    by (simp add: run_simps)
  from thread_is_its_authors [OF ref_runtime.solana_axioms is_ok_ok_value [OF leave_run] this]
  show ?thesis
    by (auto simp: stage_thread_def)
qed

text \<open>C25. Settings and follow lists change by their owner's signature only: the settings by the
  recorded admin's, a user's list by the user's. An access account changes by its admin's
  signature, with one exception: a wallet without an entry that buys its admission, on a thread
  that sells it, adds one to the whitelist counter and changes nothing else in the account.
  Settings and access accounts are never removed, and an access account never changes hands.\<close>

theorem records_change_by_their_owner:
  assumes "solana rt pid" "dispatch rt pid accounts i L = Inr L'"
  shows "(\<forall>s. settings_at rt pid L k = Some s \<longrightarrow> settings_at rt pid L' k = Some s \<or>
      signed_by accounts (ps_admin s) \<and> settings_at rt pid L' k \<noteq> None) \<and>
    (\<forall>x. access_at rt pid L k = Some x \<longrightarrow> (\<exists>x'. access_at rt pid L' k = Some x' \<and>
      ta_thread x' = ta_thread x \<and> ta_admin x' = ta_admin x \<and>
      (x' = x \<or> signed_by accounts (ta_admin x) \<or>
       (\<exists>m n wallet. i = RequestAccess m n \<and> signed_by accounts wallet \<and> ta_entry_fee x \<noteq> 0 \<and>
         entry_at rt pid L (entry_address rt pid (ta_thread x) wallet) = None \<and>
         entry_at rt pid L' (entry_address rt pid (ta_thread x) wallet) =
           Some (entry_for (ta_thread x) wallet ACCESS_ALLOWED) \<and>
         x' = x\<lparr>ta_whitelist_count := ta_whitelist_count x + 1\<rparr>)))) \<and>
    (registry_at rt pid L' k \<noteq> registry_at rt pid L k \<longrightarrow>
      (\<exists>user. k = registry_address rt pid user \<and> signed_by accounts user))"
  by (intro conjI allI impI)
    (erule solana.settings_authority [OF assms] solana.access_authority [OF assms]
      solana.follow_authority [OF assms])+

theorem records_change_by_their_owner_witness:
  "settings_at (ref_rt 0) ref_pid (ok_value (dispatch (ref_rt 0) ref_pid leaver Unsubscribe stage))
     254147 = Some stage_settings"
proof -
  have "settings_at (ref_rt 0) ref_pid stage 254147 = Some stage_settings"
    by (simp add: run_simps)
  with records_change_by_their_owner [OF ref_runtime.solana_axioms is_ok_ok_value [OF leave_run],
      of 254147]
  show ?thesis
    by (auto simp: stage_settings_def)
qed

text \<open>C10. A wallet's standing on a thread is the access admin's decision: an entry is created,
  changed or removed only under the signature of the admin of that thread's access account,
  with one exception, a wallet without an entry that buys its own admission on a thread that
  sells it.\<close>

theorem standing_is_the_admins_decision:
  assumes "solana rt pid" "dispatch rt pid accounts i L = Inr L'"
  shows "entry_at rt pid L' k = entry_at rt pid L k \<or>
    (\<exists>thread wallet x. k = entry_address rt pid thread wallet \<and>
      access_at rt pid L (access_address rt pid thread) = Some x \<and> ta_thread x = thread \<and>
      (\<forall>e. entry_at rt pid L k = Some e \<longrightarrow> ae_thread e = thread \<and> ae_wallet e = wallet) \<and>
      (signed_by accounts (ta_admin x) \<or>
       signed_by accounts wallet \<and> ta_entry_fee x \<noteq> 0 \<and> entry_at rt pid L k = None \<and>
         entry_at rt pid L' k = Some (entry_for thread wallet ACCESS_ALLOWED)))"
  using solana.entry_authority [OF assms] by blast

theorem standing_is_the_admins_decision_witness:
  "entry_at (ref_rt 0) ref_pid (ok_value (dispatch (ref_rt 0) ref_pid leaver Unsubscribe stage))
     438514 = Some (stage_entry 22 ACCESS_DENIED)"
proof -
  have e: "entry_at (ref_rt 0) ref_pid stage 438514 = Some (stage_entry 22 ACCESS_DENIED)"
    and x: "access_at (ref_rt 0) ref_pid stage 870984 = Some stage_access"
    by (simp_all add: run_simps)
  from standing_is_the_admins_decision [OF ref_runtime.solana_axioms is_ok_ok_value [OF leave_run],
      of 438514] e x
  show ?thesis
    by (auto simp: stage_entry_def access_address_def stage_access_def)
qed

text \<open>C11. A ban holds until the admin lifts it: once a wallet is denied on a thread, it cannot post
  there, whatever instructions others and the wallet itself run and whatever happens between
  them, as long as the thread's access admin signs nothing.\<close>

theorem ban_holds_until_lifted:
  assumes "solana rt pid" "banned rt pid L admin (ai_key th) (ai_key payer)"
    and "without rt pid admin L L'"
  shows "\<not> is_ok (process_fill_slot rt pid (payer # th # rest) kind body candidates
    treasury_shard_idx author_fee_shard_idx reply_alloc_seq reply_slot max_fee L')"
  using solana.banned_cannot_post [OF assms(1) solana.ban_holds [OF assms(1,3,2)]]
  by (auto simp: is_ok_def split: sum.splits)

theorem ban_holds_until_lifted_witness:
  "\<not> is_ok (process_fill_slot (ref_rt 0) ref_pid (signer_info 22 # plain_info 30 #
    [plain_info 254147, plain_info 32017, plain_info 624592, plain_info 0, plain_info 398325,
     plain_info 870984, plain_info 438514])
    0 [97] [\<lparr>cs_alloc_seq = 0, cs_slot = 1\<rparr>] 3 1 0 0 1000000 (ok_value (dispatch (ref_rt 0) ref_pid leaver Unsubscribe stage)))"
proof -
  have "entry_at (ref_rt 0) ref_pid stage 438514 = Some (stage_entry 22 ACCESS_DENIED)"
    "access_at (ref_rt 0) ref_pid stage 870984 = Some stage_access"
    by (simp_all add: run_simps)
  then have "banned (ref_rt 0) ref_pid stage 20 (ai_key (plain_info 30)) (ai_key (signer_info 22))"
    by (simp add: banned_def access_of_def access_address_def entry_address_def plain_info_def
        signer_info_def stage_access_def stage_entry_def)
  moreover have "without (ref_rt 0) ref_pid 20 stage
      (ok_value (dispatch (ref_rt 0) ref_pid leaver Unsubscribe stage))"
  proof (rule without.call [OF without.none])
    show "process_instruction (at_time 0 ref_rent (ref_rt 0)) ref_pid leaver [28] stage =
        Inr (ok_value (dispatch (ref_rt 0) ref_pid leaver Unsubscribe stage))"
      using is_ok_ok_value [OF leave_run]
      by (subst ref_time, subst ref_runtime.process_instruction_enc [where i = Unsubscribe])
        (simp_all add: wire_bytes)
    show "\<not> signed_by leaver 20"
      by simp
  qed
  ultimately show ?thesis
    by (rule ban_holds_until_lifted [OF ref_runtime.solana_axioms])
qed

end
