(* ===== verification/Scenario.thy ===== *)
theory Scenario
  imports System
begin

text \<open>
  A short history on the reference runtime, from a ledger without any account of the program:
  the settings are created, a thread, its access gate, and a message. Every state of it can be
  reached, so what is proved of reachable states is shown to say something.
\<close>

section \<open>One more call\<close>

definition unlisted :: "ledger \<Rightarrow> bool" where
  "unlisted L \<longleftrightarrow> (\<forall>k. entry_at (ref_rt 0) ref_pid L k = None)"

lemma history_call:
  assumes "reachable (ref_rt 0) ref_pid L \<and> unlisted L"
    and "dispatch (ref_rt now) ref_pid accounts i L = Inr L'" "0 \<le> sint now"
    and "enc (instruction_codec ref_borsh) i = Some bytes" "TAG_ACCESS_ENTRY \<notin> kinds_of i"
  shows "reachable (ref_rt 0) ref_pid L' \<and> unlisted L'"
proof
  have same: "entry_at (ref_rt 0) ref_pid L' k = entry_at (ref_rt 0) ref_pid L k" for k
    using ref_runtime.dispatch_views(5) [OF _ assms(2)] assms(5)
    by (simp add: tag_defs entry_at_def)
  with assms(1) show unlisted: "unlisted L'" by (simp add: unlisted_def)
  have "process_instruction (ref_rt now) ref_pid accounts bytes L = Inr L'"
    using ref_runtime.process_instruction_enc [of now i bytes accounts L] assms(2,4) by simp
  then have "step (ref_rt 0) ref_pid L L'"
    using assms(3) by (intro step.call [of now ref_rent]) (simp_all add: ref_time)
  moreover have "countable_lists (ref_rt 0) ref_pid L'"
    using unlisted by (simp add: unlisted_def countable_lists_def allowed_entries_def)
  ultimately show "reachable (ref_rt 0) ref_pid L'"
    using assms(1) reachable.more by blast
qed

section \<open>The settings\<close>

lemma blank_at: "blank 25 = stage 25" "blank 254147 = wallet_account 0" "blank 69617 = stage 69617"
  "blank 0 = stage 0"
  by (simp_all add: blank_def)

lemma opened_eq: "opened = genesis(25 := wallet_account 999998545360)"
proof -
  let ?accounts = "[signer_info 25, plain_info 254147, plain_info 69617, plain_info 0]"
  have "assert_upgrade_authority (ref_rt 0) ref_pid (plain_info 69617) (signer_info 25) blank
      = Inr ()"
    by (simp add: blank_at assert_upgrade_authority_Inr_iff plain_info_def signer_info_def owner_def
        data_def nth_append)
  then have "process_init_settings (ref_rt 0) ref_pid ?accounts 42 blank =
      Inr (blank(25 := wallet_account 999998545360, 254147 := genesis 254147))"
    by (simp add: blank_at run_simps cong: run_congs)
  with opened_run(1) have "opened = blank(25 := wallet_account 999998545360, 254147 := genesis 254147)"
    by (simp add: dispatch_def del: genesis_at)
  then show ?thesis by (simp add: blank_def fun_eq_iff)
qed

lemma opened_unlisted: "unlisted opened"
proof -
  have "entry_at (ref_rt 0) ref_pid opened k = entry_at (ref_rt 0) ref_pid blank k" for k
    using ref_runtime.dispatch_views(5) [OF _ opened_run(1)] by (simp add: tag_defs)
  then show ?thesis by (simp add: unlisted_def ref_runtime.no_views(5) [OF blank_unowned])
qed

section \<open>A thread\<close>

definition found_thread :: thread_node where
  "found_thread = \<lparr>tn_tag = TAG_THREAD, tn_alloc_count = 1, tn_last_alloc_seq = 0, tn_author = 20,
     tn_message_fee = 10, tn_like_fee = 0, tn_title = [104]\<rparr>"

definition founded :: ledger where
  "founded = opened(
     32017 := program_account 1137960 [], 20 := wallet_account 999996391240,
     30 := program_account 1322400 (image_of (thread_node_codec ref_borsh) found_thread),
     26191 := program_account 1148400 (image_of (alloc_node_codec ref_borsh) (stage_alloc 0)))"

lemma founded_run:
  "dispatch (ref_rt 0) ref_pid [signer_info 20, signer_info 30, plain_info 26191, plain_info 254147,
     plain_info 32017, plain_info 0] (CreateRootAlloc 10 3 [104]) opened = Inr founded"
proof -
  have at: "opened 20 = stage 20" "opened 30 = wallet_account 0" "opened 26191 = wallet_account 0"
    "opened 254147 = stage 254147" "opened 32017 = wallet_account 0" "opened 0 = wallet_account 0"
    by (simp_all add: opened_eq genesis_def)
  show ?thesis by (simp add: dispatch_def at run_simps founded_def found_thread_def cong: run_congs)
qed

section \<open>Its gate\<close>

definition found_access :: thread_access where
  "found_access = \<lparr>ta_tag = TAG_ACCESS, ta_thread = 30, ta_enabled = True, ta_admin = 20,
     ta_entry_fee = 0, ta_whitelist_count = 0\<rparr>"

definition guarded :: ledger where
  "guarded = founded(
     32017 := program_account 2571720 [], 20 := wallet_account 999993523720,
     870984 := program_account 1433760 (image_of (thread_access_codec ref_borsh) found_access))"

lemma founded_at:
  "founded 20 = wallet_account 999996391240" "founded 32017 = program_account 1137960 []"
  "founded 30 = program_account 1322400 (image_of (thread_node_codec ref_borsh) found_thread)"
  "founded 26191 = program_account 1148400 (image_of (alloc_node_codec ref_borsh) (stage_alloc 0))"
  "founded 254147 = stage 254147" "founded 0 = wallet_account 0" "founded 870984 = wallet_account 0"
  "founded 438000 = wallet_account 0" "founded 398068 = wallet_account 0"
  "founded 624592 = wallet_account 0"
  by (simp_all add: founded_def opened_eq genesis_def)

lemma guarded_run:
  "dispatch (ref_rt 0) ref_pid [signer_info 20, plain_info 30, plain_info 870984, plain_info 32017,
     plain_info 0] (InitThreadAccess True 3) founded = Inr guarded"
  by (simp add: dispatch_def founded_at found_thread_def run_simps guarded_def found_access_def
      cong: run_congs)

section \<open>A message\<close>

definition found_message :: content_node where
  "found_message = \<lparr>cn_header = \<lparr>ch_tag = TAG_CONTENT, ch_alloc_seq = 0, ch_slot = 0,
     ch_thread = 30, ch_author = 20, ch_created_at = 1000, ch_reply_alloc_seq = 0,
     ch_reply_slot = 0\<rparr>, cn_kind = 0, cn_body = [104, 105]\<rparr>"

definition posted :: ledger where
  "posted = guarded(
     624592 := program_account 890880 [],
     398068 := program_account 1524240 (image_of (content_node_codec ref_borsh) found_message),
     20 := wallet_account 999990956176, 32017 := program_account 2724144 [])"

lemma guarded_at:
  "guarded 20 = wallet_account 999993523720" "guarded 32017 = program_account 2571720 []"
  "guarded 870984 = program_account 1433760 (image_of (thread_access_codec ref_borsh) found_access)"
  "k \<notin> {20, 32017, 870984} \<Longrightarrow> guarded k = founded k"
  by (auto simp: guarded_def)

lemma posted_run:
  "dispatch (ref_rt 1000) ref_pid [signer_info 20, plain_info 30, plain_info 254147,
     plain_info 32017, plain_info 624592, plain_info 0, plain_info 398068, plain_info 870984,
     plain_info 438000] (FillSlot 0 [104, 105] [\<lparr>cs_alloc_seq = 0, cs_slot = 0\<rparr>] 3 1 0 0 1000000)
     guarded = Inr posted"
  by (simp add: dispatch_def guarded_at founded_at found_thread_def found_access_def run_simps
      posted_def found_message_def cong: run_congs)

lemma posted_at:
  "posted 20 = wallet_account 999990956176" "posted 32017 = program_account 2724144 []"
  "posted 398068 = program_account 1524240 (image_of (content_node_codec ref_borsh) found_message)"
  "posted 624592 = program_account 890880 []"
  "k \<notin> {20, 32017, 398068, 624592} \<Longrightarrow> posted k = guarded k"
  by (auto simp: posted_def)

section \<open>All of it can be reached\<close>

lemma history_bytes:
  "\<exists>bytes. enc (instruction_codec ref_borsh) (CreateRootAlloc 10 3 [104]) = Some bytes"
  "\<exists>bytes. enc (instruction_codec ref_borsh) (InitThreadAccess True 3) = Some bytes"
  "\<exists>bytes. enc (instruction_codec ref_borsh)
     (FillSlot 0 [104, 105] [\<lparr>cs_alloc_seq = 0, cs_slot = 0\<rparr>] 3 1 0 0 1000000) = Some bytes"
  by (simp_all add: wire_bytes payload_defs vec_codec_def candidate_slot_codec_def bool_codec_def
      map_codec_def)

lemma history:
  "reachable (ref_rt 0) ref_pid founded \<and> unlisted founded"
  "reachable (ref_rt 0) ref_pid guarded \<and> unlisted guarded"
  "reachable (ref_rt 0) ref_pid posted \<and> unlisted posted"
proof -
  from history_bytes obtain b c d where
    b: "enc (instruction_codec ref_borsh) (CreateRootAlloc 10 3 [104]) = Some b"
    and c: "enc (instruction_codec ref_borsh) (InitThreadAccess True 3) = Some c"
    and d: "enc (instruction_codec ref_borsh)
      (FillSlot 0 [104, 105] [\<lparr>cs_alloc_seq = 0, cs_slot = 0\<rparr>] 3 1 0 0 1000000) = Some d"
    by blast
  show f: "reachable (ref_rt 0) ref_pid founded \<and> unlisted founded"
    by (rule history_call [OF conjI [OF opened_reachable opened_unlisted] founded_run _ b])
      (simp_all add: tag_defs)
  show g: "reachable (ref_rt 0) ref_pid guarded \<and> unlisted guarded"
    by (rule history_call [OF f guarded_run _ c]) (simp_all add: tag_defs)
  show "reachable (ref_rt 0) ref_pid posted \<and> unlisted posted"
    by (rule history_call [OF g posted_run _ d]) (simp_all add: tag_defs)
qed

lemmas founded_reachable = history(1) [THEN conjunct1]
lemmas posted_reachable = history(3) [THEN conjunct1]

end
