(* ===== verification/Forum.thy ===== *)
theory Forum
  imports Authority Scenario
begin

text \<open>
  The forum: the boards that the steps can reach, that the states the program can reach show
  such boards, and what follows for all of them.
\<close>

section \<open>Boards that can be reached\<close>

inductive board_reachable :: "runtime \<Rightarrow> pubkey \<Rightarrow> board \<Rightarrow> bool" for rt pid where
  empty: "board_reachable rt pid (\<lambda>_. None)"
| more: "board_reachable rt pid B \<Longrightarrow> board_step (at_time now rent rt) pid who i B B' \<Longrightarrow>
    board_reachable rt pid B'"

lemma at_time_board [simp]: "board (at_time now rent rt) = board rt"
  by (intro ext) (simp only: board_def at_time_views)

lemma at_time_forum [simp]:
  "likes_address (at_time now rent rt) = likes_address rt"
  "settings_address (at_time now rent rt) = settings_address rt"
  by (simp_all add: fun_eq_iff likes_address_def settings_address_def derive_likes_pda_def)

context solana
begin

lemma board_outside:
  assumes "outside_step pid L L'"
  shows "board rt pid L' = board rt pid L"
proof
  fix k
  from outside_kept [OF assms] consider
      "acc_owner (L' k) = acc_owner (L k)" "acc_data (L' k) = acc_data (L k)"
    | "set_option (tag_byte pid L k) \<subseteq> {0}" "set_option (tag_byte pid L' k) \<subseteq> {0}"
    unfolding kept_def by blast
  then show "board rt pid L' k = board rt pid L k"
  proof cases
    case 1
    then show ?thesis by (rule board_view.view_cong)
  next
    case 2
    then show ?thesis
      by (cases "tag_byte pid L k"; cases "tag_byte pid L' k") (simp_all add: board_def tag_defs)
  qed
qed

lemma board_of_reachable:
  assumes "reachable rt pid L"
  shows "board_reachable rt pid (board rt pid L)"
  using assms
proof (rule reachable_inv)
  fix L :: ledger
  assume "\<And>k. acc_owner (L k) \<noteq> pid"
  then have "board rt pid L = (\<lambda>_. None)" by (simp add: fun_eq_iff board_view.view_unowned)
  then show "board_reachable rt pid (board rt pid L)" by (simp add: board_reachable.empty)
next
  fix now rent accounts i L L'
  assume run: "dispatch (at_time now rent rt) pid accounts i L = Inr L'"
    and "board_reachable rt pid (board rt pid L)"
  from this(2) show "board_reachable rt pid (board rt pid L')"
    by (rule board_reachable.more)
      (rule solana.forum_dispatch [OF at_another_time run, unfolded at_time_board])
next
  fix L L'
  assume "outside_step pid L L'" "board_reachable rt pid (board rt pid L)"
  then show "board_reachable rt pid (board rt pid L')" by (simp add: board_outside)
qed

end

section \<open>Nothing is orphaned\<close>

text \<open>What an item refers to.\<close>

fun fits :: "runtime \<Rightarrow> pubkey \<Rightarrow> board \<Rightarrow> item \<Rightarrow> bool" where
  "fits rt pid B (Chain n) \<longleftrightarrow>
     (\<exists>t. B (an_thread n) = Some (Thread t) \<and> an_alloc_seq n \<le> tn_last_alloc_seq t)"
| "fits rt pid B (Message m) \<longleftrightarrow>
     (\<exists>t. B (ch_thread (cn_header m)) = Some (Thread t) \<and>
       ch_alloc_seq (cn_header m) \<le> tn_last_alloc_seq t)"
| "fits rt pid B (Gate x) \<longleftrightarrow> (\<exists>t. B (ta_thread x) = Some (Thread t) \<and> ta_admin x = tn_author t)"
| "fits rt pid B (Standing e) \<longleftrightarrow>
     (\<exists>x. B (access_address rt pid (ae_thread e)) = Some (Gate x) \<and> ta_thread x = ae_thread e)"
| "fits rt pid B (Follows r) \<longleftrightarrow> (\<forall>c \<in> set (fr_channels r). \<exists>t. B c = Some (Thread t))"
| "fits rt pid B (Followers s) \<longleftrightarrow> (\<exists>t. B (fs_thread s) = Some (Thread t))"
| "fits rt pid B _ \<longleftrightarrow> True"

definition whole :: "runtime \<Rightarrow> pubkey \<Rightarrow> board \<Rightarrow> bool" where
  "whole rt pid B \<longleftrightarrow> (\<forall>k x. B k = Some x \<longrightarrow> fits rt pid B x)"

lemma wholeD: "whole rt pid B \<Longrightarrow> B k = Some x \<Longrightarrow> fits rt pid B x"
  by (simp add: whole_def)

text \<open>Threads and gates stay, with their author and admin, and a chain only gets longer.\<close>

definition grows :: "board \<Rightarrow> board \<Rightarrow> bool" where
  "grows B B' \<longleftrightarrow>
     (\<forall>k t. B k = Some (Thread t) \<longrightarrow> (\<exists>t'. B' k = Some (Thread t') \<and>
       tn_author t' = tn_author t \<and> tn_last_alloc_seq t \<le> tn_last_alloc_seq t')) \<and>
     (\<forall>k x. B k = Some (Gate x) \<longrightarrow> (\<exists>x'. B' k = Some (Gate x') \<and>
       ta_thread x' = ta_thread x \<and> ta_admin x' = ta_admin x))"

lemma growsD:
  assumes "grows B B'"
  shows "B k = Some (Thread t) \<Longrightarrow> \<exists>t'. B' k = Some (Thread t') \<and>
      tn_author t' = tn_author t \<and> tn_last_alloc_seq t \<le> tn_last_alloc_seq t'"
    "B k = Some (Gate x) \<Longrightarrow> \<exists>x'. B' k = Some (Gate x') \<and>
      ta_thread x' = ta_thread x \<and> ta_admin x' = ta_admin x"
  using assms by (simp_all add: grows_def)

lemma fits_grows:
  assumes "grows B B'" "fits rt pid B x"
  shows "fits rt pid B' x"
  using assms(2) by (cases x) (fastforce dest: growsD [OF assms(1)] order_trans)+

lemma last_grows: "unat (n :: u32) + 1 < 2 ^ 32 \<Longrightarrow> n \<le> n + 1"
  by (simp add: word_le_nat_alt unat_add_lt)

lemma step_grows: "board_step rt pid who i B B' \<Longrightarrow> grows B B'"
  by (induction rule: board_step.induct)
    (auto simp: grows_def item_defs setters_keep intro: last_grows)

lemma whole_follows:
  assumes "whole rt pid B" "c \<in> set (follows_in (B k))"
  shows "\<exists>t. B c = Some (Thread t)"
  using assms by (cases "B k" rule: follows_in.cases) (auto dest: wholeD)

lemma whole_unfollow:
  assumes "whole rt pid B" "B k = Some (Follows r)" "i < length (fr_channels r)"
    and "c \<in> set (swap_remove i (fr_channels r))"
  shows "\<exists>t. B c = Some (Thread t)"
proof -
  from assms(4) have "c \<in> set (fr_channels r)"
    using swap_remove_permutes [OF assms(3)] by (metis in_diffD set_mset_mset)
  with wholeD [OF assms(1,2)] show ?thesis by simp
qed

lemma step_fits:
  assumes "board_step rt pid who i B B'" "whole rt pid B" "B' k = Some x"
  shows "fits rt pid B x \<or> fits rt pid B' x"
  using assms
  by (induction rule: board_step.induct)
    (auto simp: item_defs setters_keep entry_for_def dest: wholeD whole_follows whole_unfollow
      split: if_splits)

lemma whole_step:
  assumes "board_step rt pid who i B B'" "whole rt pid B"
  shows "whole rt pid B'"
  unfolding whole_def
  using step_fits [OF assms] fits_grows [OF step_grows [OF assms(1)]] by blast

lemma at_time_whole [simp]: "whole (at_time now rent rt) = whole rt"
proof -
  have "fits (at_time now rent rt) pid B x = fits rt pid B x" for pid B x
    by (cases x) simp_all
  then show ?thesis by (simp add: whole_def fun_eq_iff)
qed

lemma reachable_whole: "board_reachable rt pid B \<Longrightarrow> whole rt pid B"
proof (induction rule: board_reachable.induct)
  case empty
  show ?case by (simp add: whole_def)
next
  case (more B now rent who i B')
  from whole_step [OF more.hyps(2)] more.IH show ?case by simp
qed

context borsh_format
begin

lemma decoded_encodes:
  "try_from_slice (instruction_codec B) bytes = Some i \<Longrightarrow> enc (instruction_codec B) i = Some bytes"
  by (simp add: wire.try_from_slice_iff)

end

section \<open>Properties\<close>

text \<open>C2. The program refines the forum: a successful call is the step of its instruction on the
  board, by those who signed, and every state that can be reached shows a board that the
  specification alone can reach from an empty one.\<close>

theorem program_refines_forum:
  assumes "solana rt pid"
  shows "(\<forall>accounts bytes L L'. process_instruction rt pid accounts bytes L = Inr L' \<longrightarrow>
      (\<exists>i. enc (instruction_codec (rt_borsh rt)) i = Some bytes \<and>
        board_step rt pid (signed_by accounts) i (board rt pid L) (board rt pid L'))) \<and>
    (\<forall>L. reachable rt pid L \<longrightarrow> board_reachable rt pid (board rt pid L))"
proof (intro conjI allI impI)
  fix accounts bytes L L'
  assume "process_instruction rt pid accounts bytes L = Inr L'"
  then obtain i where "try_from_slice (instruction_codec (rt_borsh rt)) bytes = Some i"
      and run: "dispatch rt pid accounts i L = Inr L'"
    by (auto simp: process_instruction_Inr_iff)
  then have "enc (instruction_codec (rt_borsh rt)) i = Some bytes"
    by (simp add: borsh_format.decoded_encodes [OF solana.format [OF assms]])
  with solana.forum_dispatch [OF assms run]
  show "\<exists>i. enc (instruction_codec (rt_borsh rt)) i = Some bytes \<and>
      board_step rt pid (signed_by accounts) i (board rt pid L) (board rt pid L')" by blast
qed (rule solana.board_of_reachable [OF assms])

theorem program_refines_forum_witness:
  "board_reachable (ref_rt 0) ref_pid (board (ref_rt 0) ref_pid posted) \<and>
   board (ref_rt 0) ref_pid posted 398068 = Some (Message found_message)"
proof -
  have "content_at (ref_rt 0) ref_pid posted 398068 = Some found_message"
    by (simp add: posted_at run_simps found_message_def)
  then show ?thesis
    using program_refines_forum [OF ref_runtime.solana_axioms] posted_reachable
    by (simp add: ref_runtime.board_views)
qed

text \<open>C5. Nothing is orphaned: in every reachable state a chain node and a message belong to an
  existing thread and lie within its chain, an access gate guards an existing thread and is kept
  by that thread's author, a wallet's standing lies behind a gate, and only existing threads are
  followed and counted.\<close>

theorem nothing_is_orphaned:
  assumes "solana rt pid" "reachable rt pid L"
  shows "(\<forall>k n. alloc_at rt pid L k = Some n \<longrightarrow>
      (\<exists>t. thread_at rt pid L (an_thread n) = Some t \<and> an_alloc_seq n \<le> tn_last_alloc_seq t)) \<and>
    (\<forall>k m. content_at rt pid L k = Some m \<longrightarrow>
      (\<exists>t. thread_at rt pid L (ch_thread (cn_header m)) = Some t \<and>
        ch_alloc_seq (cn_header m) \<le> tn_last_alloc_seq t)) \<and>
    (\<forall>k x. access_at rt pid L k = Some x \<longrightarrow>
      (\<exists>t. thread_at rt pid L (ta_thread x) = Some t \<and> ta_admin x = tn_author t)) \<and>
    (\<forall>k e. entry_at rt pid L k = Some e \<longrightarrow> (\<exists>x. access_of rt pid L (ae_thread e) = Some x)) \<and>
    (\<forall>k r. registry_at rt pid L k = Some r \<longrightarrow>
      (\<forall>c \<in> set (fr_channels r). \<exists>t. thread_at rt pid L c = Some t)) \<and>
    (\<forall>k s. follower_shard_at rt pid L k = Some s \<longrightarrow>
      (\<exists>t. thread_at rt pid L (fs_thread s) = Some t))"
proof -
  note views = solana.board_views [OF assms(1)]
  have fits: "fits rt pid (board rt pid L) x" if "board rt pid L k = Some x" for k x
    using reachable_whole [OF solana.board_of_reachable [OF assms]] that by (rule wholeD)
  show ?thesis
    using fits [of _ "Chain _"] fits [of _ "Message _"] fits [of _ "Gate _"] fits [of _ "Standing _"]
      fits [of _ "Follows _"] fits [of _ "Followers _"]
    by (fastforce simp: views access_of_def)
qed

theorem nothing_is_orphaned_witness:
  "\<exists>t. thread_at (ref_rt 0) ref_pid posted 30 = Some t \<and>
     (\<exists>x. access_at (ref_rt 0) ref_pid posted 870984 = Some x \<and> ta_admin x = tn_author t)"
proof -
  have "access_at (ref_rt 0) ref_pid posted 870984 = Some found_access"
    by (simp add: posted_at guarded_at run_simps found_access_def)
  with nothing_is_orphaned [OF ref_runtime.solana_axioms posted_reachable]
  obtain t where "thread_at (ref_rt 0) ref_pid posted (ta_thread found_access) = Some t"
    "ta_admin found_access = tn_author t" by blast
  with \<open>access_at _ _ _ _ = Some found_access\<close> show ?thesis
    by (simp add: found_access_def)
qed

end
