(* ===== verification/Money.thy ===== *)
theory Money
  imports Forum
begin

text \<open>
  Whose money moves. A balance falls in three ways only: its holder has signed; an account of the
  program is given up by the one who may give it up, who gets its rent back; or a vault is swept.
\<close>

section \<open>Consent\<close>

text \<open>The accounts of the program that an instruction may take lamports from, by those who signed:
  a message that its author closes, a standing that the access admin takes back, a follow list
  that its owner shortens, and the vaults that a sweep names.\<close>

definition releases :: "runtime \<Rightarrow> pubkey \<Rightarrow> (pubkey \<Rightarrow> bool) \<Rightarrow> program_instruction \<Rightarrow> board \<Rightarrow>
  pubkey \<Rightarrow> bool" where
  "releases rt pid who i B k \<longleftrightarrow>
     (i = CloseAccount \<and> (\<exists>n. B k = Some (Message n) \<and> who (ch_author (cn_header n)))) \<or>
     (\<exists>e x. takes i = Some (ae_wallet e, ae_status e) \<and> B k = Some (Standing e) \<and>
       B (access_address rt pid (ae_thread e)) = Some (Gate x) \<and> who (ta_admin x)) \<or>
     (i = Unsubscribe \<and> (\<exists>r. B k = Some (Follows r) \<and> who (fr_owner r))) \<or>
     (\<exists>is. i = SweepTreasury is \<and>
       k \<in> (\<lambda>n. fst (derive_treasury_shard_pda rt pid n)) ` set is) \<or>
     (\<exists>js th t. i = SweepAuthorFees js \<and> B th = Some (Thread t) \<and> who (tn_author t) \<and>
       k \<in> (\<lambda>n. fst (derive_author_fee_pda rt pid th n)) ` set js)"

text \<open>The verdict on a run: whoever holds less afterwards has signed, or the account was the
  program's and released.\<close>

definition fair :: "runtime \<Rightarrow> pubkey \<Rightarrow> account_info list \<Rightarrow> program_instruction \<Rightarrow> ledger \<Rightarrow>
  ledger \<Rightarrow> bool" where
  "fair rt pid accounts i L L' \<longleftrightarrow> (\<forall>k. acc_lamports (L' k) < acc_lamports (L k) \<longrightarrow>
     signed_by accounts k \<or>
     acc_owner (L k) = pid \<and> releases rt pid (signed_by accounts) i (board rt pid L) k)"

lemma fair_signed:
  assumes "spends P L L'" "\<And>k. k \<in> P \<Longrightarrow> signed_by accounts k"
  shows "fair rt pid accounts i L L'"
  using assms unfolding fair_def spends_def by (meson not_le)

lemma fair_payer:
  "effect pid K {ai_key payer} L L' \<Longrightarrow> is_signer payer \<Longrightarrow>
   fair rt pid (payer # rest) i L L'"
  by (rule fair_signed [OF effect_spends]) auto

lemma fair_same: "(\<And>k. acc_lamports (L' k) = acc_lamports (L k)) \<Longrightarrow> fair rt pid accounts i L L'"
  by (simp add: fair_def)

lemma fair_released:
  assumes "spends {k} L L'" "acc_owner (L k) = pid"
    and "releases rt pid (signed_by accounts) i (board rt pid L) k"
  shows "fair rt pid accounts i L L'"
  using assms unfolding fair_def spends_def by (metis not_le singletonD)

section \<open>Sweeps\<close>

lemma sweep_takes:
  assumes "sweep_shards rt pid validate recipient m xs L = Inr L'"
    and "acc_lamports (L' k) < acc_lamports (L k)"
  shows "acc_owner (L k) = pid \<and> (\<exists>a i b. (a, i) \<in> set xs \<and> ai_key a = k \<and> validate a i = Inr b)"
  using assms
proof (induction xs arbitrary: L)
  case (Cons x xs)
  obtain a i where x: "x = (a, i)" by fastforce
  show ?case
  proof (cases "is_uninitialized rt a L")
    case True
    with Cons.prems x have "sweep_shards rt pid validate recipient m xs L = Inr L'" by simp
    from Cons.IH [OF this Cons.prems(2)] show ?thesis by (auto simp: x)
  next
    case False
    with Cons.prems(1) x obtain b L1 where
      gate: "owner L a = pid" "validate a i = Inr b"
      and one: "sweep_shard_excess a recipient m L = Inr L1"
      and rest: "sweep_shards rt pid validate recipient m xs L1 = Inr L'"
      by (auto simp: ok_simps)
    note o = sweep_shard_excess_ok [OF one]
    show ?thesis
    proof (cases "k = ai_key a")
      case True
      with gate show ?thesis by (auto simp: x owner_def)
    next
      case False
      with o(7) have "acc_lamports (L k) \<le> acc_lamports (L1 k)" by (simp add: spends_def)
      with Cons.prems(2) have "acc_lamports (L' k) < acc_lamports (L1 k)" by simp
      from Cons.IH [OF rest this] o(1) [of k] show ?thesis by (auto simp: x)
    qed
  qed
qed simp

context solana
begin

lemma sweep_treasury_fair:
  assumes "process_sweep_treasury rt pid accounts is L = Inr L'"
  shows "fair rt pid accounts (SweepTreasury is) L L'"
proof -
  from assms obtain m r shards where
    "sweep_shards rt pid (validate_treasury_shard rt pid) r m (zip shards is) L = Inr L'"
    by (auto simp: process_sweep_treasury_def Let_def attempt_Inr_iff if_Inl_Inr_iff)
  from sweep_takes [OF this] show ?thesis
    by (fastforce simp: fair_def releases_def treasury_kind.validate_iff dest: set_zip_rightD)
qed

lemma sweep_author_fees_fair:
  assumes "process_sweep_author_fees rt pid accounts js L = Inr L'"
  shows "fair rt pid accounts (SweepAuthorFees js) L L'"
proof -
  from assms obtain th w shards t m where
    acc: "accounts = th # w # shards" "thread_at rt pid L (ai_key th) = Some t"
      "ai_key w = tn_author t" "is_signer w"
    and run: "sweep_shards rt pid (validate_author_fee_shard rt pid (ai_key th)) w m
      (zip shards js) L = Inr L'"
    by (auto simp: process_sweep_author_fees_def Let_def attempt_Inr_iff next_account_info_Inr_iff
        assert_Inr_iffs if_Inl_Inr_iff load_thread_iff)
  have "releases rt pid (signed_by accounts) (SweepAuthorFees js) (board rt pid L) k"
    if "(a, j) \<in> set (zip shards js)" "ai_key a = k"
      "validate_author_fee_shard rt pid (ai_key th) a j = Inr b" for a j b k
    using that acc unfolding releases_def
    by (auto simp: author_kind.validate_iff dest!: set_zip_rightD intro!: exI [of _ "ai_key th"])
  with sweep_takes [OF run] show ?thesis unfolding fair_def by blast
qed

end

section \<open>Giving up an account\<close>

context solana
begin

lemma close_account_fair:
  assumes "process_close_account rt pid accounts L = Inr L'" "keys_only rt pid accounts"
  shows "fair rt pid accounts CloseAccount L L'"
proof -
  from close_account_ok [OF assms(1)] obtain payer a :: account_info and rest n where
    acc: "accounts = payer # a # rest" "is_signer payer" "ch_author (cn_header n) = ai_key payer"
    and at: "content_at rt pid L (ai_key a) = Some n" "ai_key a = content_address rt pid (cn_header n)"
    and m: "ai_key payer \<noteq> ai_key a \<longrightarrow>
      lamports L' a = 0 \<and> unat (lamports L' payer) = unat (lamports L payer) + unat (lamports L a) \<and>
      effect pid (insert (ai_key a) (ai_key ` set (take 1 rest))) {ai_key a} L L'"
    by (elim exE conjE)
  from assms(2) acc have "ai_key payer \<noteq> ai_key a"
    unfolding at(2) content_address_def derive_content_pda_def by (intro keys_only_key) auto
  with m have "spends {ai_key a} L L'" by (simp add: effect_def)
  then show ?thesis
    by (rule fair_released) (use acc at(1) content_view.view_owner [OF at(1)] in
      \<open>auto simp: releases_def\<close>)
qed

lemma take_fair:
  assumes "dispatch rt pid accounts i L = Inr L'" "takes i \<noteq> None" "keys_only rt pid accounts"
  shows "fair rt pid accounts i L L'"
proof -
  from assms(1,2) obtain authority access entry rest w st where
    i: "takes i = Some (w, st)" and acc: "accounts = authority # access # entry # rest"
    and run: "remove_access_entry rt pid authority access entry w st L = Inr L'"
    by (cases i) (auto simp: list_dispatch)
  from remove_access_entry_ok [OF run] obtain x where
    x: "is_signer authority" "access_at rt pid L (ai_key access) = Some x"
      "ta_admin x = ai_key authority" "ai_key access = access_address rt pid (ta_thread x)"
    and k: "ai_key entry = fst (derive_access_entry_pda rt pid (ta_thread x) w)"
      "entry_at rt pid L (ai_key entry) = Some (entry_for (ta_thread x) w st)"
    and m: "ai_key entry \<noteq> ai_key authority \<longrightarrow>
      effect pid {ai_key entry, ai_key access} {ai_key entry} L L' \<and>
      unat (lamports L' authority) = unat (lamports L authority) + unat (lamports L entry)"
    unfolding access_address_def by (elim exE conjE)
  from assms(3) acc x(1) have "ai_key entry \<noteq> ai_key authority"
    unfolding k(1) derive_access_entry_pda_def by (intro not_sym [OF keys_only_key]) auto
  with m have "spends {ai_key entry} L L'" by (simp add: effect_def)
  moreover have "releases rt pid (signed_by accounts) i (board rt pid L) (ai_key entry)"
    using i acc x k(2) unfolding releases_def
    by (auto simp: entry_for_def intro!: disjI2 [THEN disjI1] exI [of _ "entry_for (ta_thread x) w st"])
  ultimately show ?thesis
    using entry_view.view_owner [OF k(2)] by (intro fair_released) auto
qed

lemma unsubscribe_fair:
  assumes "process_unsubscribe rt pid accounts L = Inr L'"
  shows "fair rt pid accounts Unsubscribe L L'"
proof -
  from unsubscribe_ok [OF assms] obtain user reg sh :: account_info and rest r where
    acc: "accounts = user # reg # rest" "is_signer user" "fr_owner r = ai_key user"
    and r: "registry_at rt pid L (ai_key reg) = Some r"
    and e: "effect pid {ai_key reg, ai_key sh} {ai_key reg} L L'"
    by (elim exE conjE)
  then show ?thesis
    by (intro fair_released [OF effect_spends [OF e]])
      (auto simp: releases_def dest: registry_view.view_owner)
qed

end

section \<open>Everything else is paid by those who sign\<close>

context solana
begin

lemma settings_fair:
  assumes "dispatch rt pid accounts i L = Inr L'" "TAG_SETTINGS \<in> kinds_of i" "\<And>k. i \<noteq> InitSettings k"
  shows "fair rt pid accounts i L L'"
proof -
  from assms obtain f where
    run: "attempt (next_account_info accounts) (\<lambda>(authority, it).
        attempt (next_account_info it) (\<lambda>(a, it').
        attempt (load_admin_settings rt pid authority a L) (\<lambda>s.
        serialize (program_settings_codec (rt_borsh rt)) (f s) a L))) = Inr L'"
    and f: "\<And>s. ps_tag (f s) = ps_tag s"
    by (cases i)
      (auto simp: handler_dispatch process_set_admin_def process_set_treasury_def
        process_set_base_fee_def process_set_author_fee_cut_def process_set_entry_cut_def
        process_set_like_cut_def update_platform_setting_def split: if_splits)
  from settings_update.update_ok [OF run] f show ?thesis by (intro fair_same) metis
qed

lemma setters_fair:
  "process_set_message_fee rt pid accounts fee L = Inr L' \<Longrightarrow> fair rt pid accounts i L L'"
  "process_set_like_fee rt pid accounts fee L = Inr L' \<Longrightarrow> fair rt pid accounts i L L'"
  "process_set_thread_access rt pid accounts enabled L = Inr L' \<Longrightarrow> fair rt pid accounts i L L'"
  "process_set_entry_fee rt pid accounts fee L = Inr L' \<Longrightarrow> fair rt pid accounts i L L'"
  by ((drule set_thread_fee_ok [OF disjI1] | drule set_thread_fee_ok [OF disjI2] |
      drule access_switch_ok), (elim exE conjE)?, rule fair_same, blast)+

lemma paid_fair:
  "process_create_root_alloc rt pid accounts fee j title L = Inr L' \<Longrightarrow> fair rt pid accounts i L L'"
  "process_prepare_alloc rt pid accounts q L = Inr L' \<Longrightarrow> fair rt pid accounts i L L'"
  "process_fill_slot rt pid accounts kd body cands j v ra rs m L = Inr L' \<Longrightarrow> fair rt pid accounts i L L'"
  "process_append_content rt pid accounts chunk j v L = Inr L' \<Longrightarrow> fair rt pid accounts i L L'"
  "process_like_content rt pid accounts q s j v m L = Inr L' \<Longrightarrow> fair rt pid accounts i L L'"
  "process_init_thread_access rt pid accounts enabled j L = Inr L' \<Longrightarrow> fair rt pid accounts i L L'"
  "process_request_access rt pid accounts j v L = Inr L' \<Longrightarrow> fair rt pid accounts i L L'"
  "process_subscribe rt pid accounts L = Inr L' \<Longrightarrow> fair rt pid accounts i L L'"
  "process_init_settings rt pid accounts treasury L = Inr L' \<Longrightarrow> fair rt pid accounts i L L'"
  by ((drule create_root_alloc_ok | drule prepare_alloc_ok | drule fill_slot_posts |
      drule append_content_ok | drule like_content_ok | drule init_thread_access_ok |
      drule request_access_ok | drule subscribe_ok | drule init_settings_ok),
      (elim exE conjE, hypsubst, erule fair_payer, assumption))+

lemma give_fair:
  assumes "dispatch rt pid accounts i L = Inr L'" "gives i \<noteq> None"
  shows "fair rt pid accounts i L L'"
proof -
  from assms obtain authority access entry sp rest w st where
    acc: "accounts = authority # access # entry # sp # rest"
    and run: "apply_access_entry_status rt pid authority access entry sp w st L = Inr L'"
    by (cases i) (auto simp: list_dispatch)
  from apply_access_entry_status_ok [OF run] show ?thesis
    unfolding acc by (elim exE conjE) (rule fair_payer)
qed

lemma dispatch_fair:
  assumes "dispatch rt pid accounts i L = Inr L'" "keys_only rt pid accounts"
  shows "fair rt pid accounts i L L'"
  using assms(1) settings_fair [OF assms(1)] give_fair [OF assms(1)]
    take_fair [OF assms(1) _ assms(2)]
  by (cases i) (simp_all add: handler_dispatch setters_fair paid_fair sweep_treasury_fair
      sweep_author_fees_fair close_account_fair [OF _ assms(2)] unsubscribe_fair)

end

section \<open>Property\<close>

text \<open>C6. Money leaves an account by consent only: when an instruction succeeds and only keys sign
  it, a balance that fell belongs to a signer, or to an account of the program that the instruction
  releases, which takes its author's, its access admin's or its owner's signature, or to a fee
  vault that a sweep names, whose proceeds are the treasury's or the signing author's.\<close>

theorem money_leaves_by_consent:
  assumes "solana rt pid" "process_instruction rt pid accounts bytes L = Inr L'"
    and "\<And>a seeds. a \<in> set accounts \<Longrightarrow> is_signer a \<Longrightarrow> ai_key a \<noteq> fst (rt_find_pda rt seeds pid)"
    and "acc_lamports (L' k) < acc_lamports (L k)"
  shows "signed_by accounts k \<or> acc_owner (L k) = pid \<and>
    (\<exists>i. enc (instruction_codec (rt_borsh rt)) i = Some bytes \<and>
      releases rt pid (signed_by accounts) i (board rt pid L) k)"
proof -
  from assms(2) obtain i where dec: "try_from_slice (instruction_codec (rt_borsh rt)) bytes = Some i"
    and run: "dispatch rt pid accounts i L = Inr L'"
    by (auto simp: process_instruction_Inr_iff)
  have "keys_only rt pid accounts" using assms(3) by (simp add: keys_only_def)
  with solana.dispatch_fair [OF assms(1) run] assms(4)
    borsh_format.decoded_encodes [OF solana.format [OF assms(1)] dec]
  show ?thesis unfolding fair_def by blast
qed

definition closer :: "account_info list" where
  "closer = [signer_info 21, plain_info 398068, plain_info 164693]"

lemma close_run: "is_ok (dispatch (ref_rt 0) ref_pid closer CloseAccount stage)"
  by (simp add: closer_def dispatch_def run_simps stage_message_tag cong: run_congs)

lemma closer_signed [simp]: "signed_by closer w \<longleftrightarrow> w = 21"
  by (auto simp: closer_def signer_info_def plain_info_def signed_by_def)

lemma closer_keys:
  "a \<in> set closer \<Longrightarrow> is_signer a \<Longrightarrow> ai_key a \<noteq> fst (rt_find_pda (ref_rt 0) seeds ref_pid)"
  using ref_hash_ge [of "seeds @ [[255]]"]
  by (auto simp: closer_def signer_info_def plain_info_def ref_find_pda_def)

lemma closed_empty:
  assumes "dispatch (ref_rt 0) ref_pid closer CloseAccount stage = Inr L'"
  shows "acc_lamports (L' 398068) = 0"
proof -
  from assms have "process_close_account (ref_rt 0) ref_pid closer stage = Inr L'"
    by (simp add: dispatch_def)
  from ref_runtime.close_account_ok [OF this] show ?thesis
    by (auto simp: closer_def signer_info_def plain_info_def lamports_def)
qed

theorem money_leaves_by_consent_witness:
  "\<exists>L'. process_instruction (ref_rt 0) ref_pid closer [5] stage = Inr L' \<and>
     acc_lamports (L' 398068) < acc_lamports (stage 398068) \<and> acc_owner (stage 398068) = ref_pid \<and>
     (\<exists>i. enc (instruction_codec ref_borsh) i = Some [5] \<and>
       releases (ref_rt 0) ref_pid (signed_by closer) i (board (ref_rt 0) ref_pid stage) 398068)"
proof -
  have eq: "process_instruction (ref_rt 0) ref_pid closer [5] stage =
      dispatch (ref_rt 0) ref_pid closer CloseAccount stage"
    by (rule ref_runtime.process_instruction_enc) (simp add: wire_bytes)
  with close_run obtain L' where
    run: "process_instruction (ref_rt 0) ref_pid closer [5] stage = Inr L'"
    by (auto dest: is_ok_ok_value)
  have fell: "acc_lamports (L' 398068) < acc_lamports (stage 398068)"
    using closed_empty [of L'] run eq by (simp add: run_simps)
  have "signed_by closer 398068 \<or> acc_owner (stage 398068) = ref_pid \<and>
      (\<exists>i. enc (instruction_codec (rt_borsh (ref_rt 0))) i = Some [5] \<and>
        releases (ref_rt 0) ref_pid (signed_by closer) i (board (ref_rt 0) ref_pid stage) 398068)"
    by (rule money_leaves_by_consent [OF ref_runtime.solana_axioms run closer_keys fell])
  with run fell show ?thesis by simp
qed

end
