(* ===== verification/History.thy ===== *)
theory History
  imports Forum Scenario
begin

text \<open>
  Time. The clock never runs backwards; a message can be appended to for two minutes
  after its date. So a message that is older than that is a record: nothing edits it any more, it
  can only be taken away as a whole, and what is posted later is dated later.
\<close>

section \<open>Timed histories\<close>

text \<open>\<open>history rt pid t L t' L'\<close>: calls, each at its own time, and steps of other programs lead from
  the ledger \<open>L\<close> at time \<open>t\<close> to \<open>L'\<close> at time \<open>t'\<close>.\<close>

inductive history :: "runtime \<Rightarrow> pubkey \<Rightarrow> i64 \<Rightarrow> ledger \<Rightarrow> i64 \<Rightarrow> ledger \<Rightarrow> bool"
  for rt pid t L where
  here: "history rt pid t L t L"
| call: "history rt pid t L t' L' \<Longrightarrow> sint t' \<le> sint now \<Longrightarrow>
    process_instruction (at_time now rent rt) pid accounts bytes L' = Inr L'' \<Longrightarrow>
    history rt pid t L now L''"
| outside: "history rt pid t L t' L' \<Longrightarrow> outside_step pid L' L'' \<Longrightarrow> history rt pid t L t' L''"

inductive_cases historyE [elim]: "history rt pid t L t' L'"

text \<open>Time passes without a call, too.\<close>

definition older :: "i64 \<Rightarrow> content_node \<Rightarrow> bool" where
  "older t n \<longleftrightarrow> sint t - sint (ch_created_at (cn_header n)) > APPEND_WINDOW_SECS"

lemma older_later: "older t n \<Longrightarrow> sint t \<le> sint now \<Longrightarrow> older now n"
  by (simp add: older_def)

lemma history_time: "history rt pid t L t' L' \<Longrightarrow> sint t \<le> sint t'"
  by (induction rule: history.induct) auto

section \<open>One call\<close>

text \<open>On the specification: an old message stays as it is, or its author removes it.\<close>

lemma old_message_step:
  assumes "board_step rt pid who i B B'" "rt_clock rt = Inr now" "B k = Some (Message n)" "older now n"
  shows "B' k = Some (Message n) \<or> who (ch_author (cn_header n)) \<and> i = CloseAccount \<and> B' k = None"
  using assms by (induction rule: board_step.induct) (auto simp: older_def)

context solana
begin

lemma old_message:
  assumes "process_instruction (at_time now rent rt) pid accounts bytes L = Inr L'"
    and "content_at rt pid L k = Some n" "older now n"
  shows "content_at rt pid L' k = Some n \<or> signed_by accounts (ch_author (cn_header n)) \<and>
    enc (instruction_codec (rt_borsh rt)) CloseAccount = Some bytes \<and> content_at rt pid L' k = None"
proof -
  from assms(1) obtain i where
    dec: "try_from_slice (instruction_codec (rt_borsh rt)) bytes = Some i"
    and run: "dispatch (at_time now rent rt) pid accounts i L = Inr L'"
    by (auto simp: process_instruction_Inr_iff)
  have gone: "content_at rt pid L' k = None" if "board rt pid L' k = None"
    using that board_views(3) [of L' k] by (cases "content_at rt pid L' k") auto
  note step = solana.forum_dispatch [OF at_another_time run]
  from old_message_step [OF step, of now k n] assms(2,3) gone
    borsh_format.decoded_encodes [OF format dec]
  show ?thesis by auto
qed

lemma new_message_date:
  assumes "process_instruction (at_time now rent rt) pid accounts bytes L = Inr L'"
    and "content_at rt pid L k = None" "content_at rt pid L' k = Some n"
  shows "ch_created_at (cn_header n) = now"
proof -
  from assms(1) obtain i where "dispatch (at_time now rent rt) pid accounts i L = Inr L'"
    by (auto simp: process_instruction_Inr_iff)
  from solana.message_new [OF at_another_time this, of k n] assms(2,3) show ?thesis by simp
qed

section \<open>All calls\<close>

lemma history_old:
  assumes "history rt pid t L t' L'" "content_at rt pid L' k = Some n" "older t n"
  shows "content_at rt pid L k = Some n"
  using assms
proof (induction arbitrary: n)
  case (call t' L' now rent accounts bytes L'')
  from history_time [OF call.hyps(1)] call.hyps(2) have now: "sint t \<le> sint now" by simp
  have "content_at rt pid L' k = Some n"
  proof (cases "content_at rt pid L' k")
    case None
    from new_message_date [OF call.hyps(3) None call.prems(1)] call.prems(2) now show ?thesis
      by (simp add: older_def APPEND_WINDOW_SECS_def)
  next
    case (Some m)
    obtain i where "dispatch (at_time now rent rt) pid accounts i L' = Inr L''"
      using call.hyps(3) by (auto simp: process_instruction_Inr_iff)
    from solana.message_authority [OF at_another_time this, of k m] Some call.prems(1)
    have "cn_header m = cn_header n" by auto
    with call.prems(2) now have "older now m" by (auto simp: older_def)
    from old_message [OF call.hyps(3) Some this] call.prems(1) Some show ?thesis by auto
  qed
  from call.IH [OF this call.prems(2)] show ?case .
next
  case (outside t' L' L'')
  have "content_at rt pid L'' k = content_at rt pid L' k"
    using views_kept(9) [OF _ outside_kept [OF outside.hyps(2)]] by (simp add: tag_defs)
  with outside show ?case by simp
qed simp

end

section \<open>Properties\<close>

text \<open>A message is a record once its window is over: 120 seconds after its date no instruction
  changes it, except a \<open>CloseAccount\<close> with its author's signature, which removes it as a whole.\<close>

theorem old_messages_are_frozen:
  assumes "solana rt pid" "content_at rt pid L k = Some n"
    and "sint now - sint (ch_created_at (cn_header n)) > APPEND_WINDOW_SECS"
    and "process_instruction (at_time now rent rt) pid accounts bytes L = Inr L'"
  shows "content_at rt pid L' k = Some n \<or> signed_by accounts (ch_author (cn_header n)) \<and>
    enc (instruction_codec (rt_borsh rt)) CloseAccount = Some bytes \<and> content_at rt pid L' k = None"
  using solana.old_message [OF assms(1,4,2)] assms(3) by (simp add: older_def)

text \<open>The example: a thread's fee is set twenty minutes after the message was posted.\<close>

lemma later_call:
  "\<exists>bytes L'. enc (instruction_codec ref_borsh) (SetMessageFee 6) = Some bytes \<and>
     process_instruction (at_time 2200 ref_rent (ref_rt 0)) ref_pid [signer_info 20, plain_info 30] bytes posted
       = Inr L' \<and>
     content_at (ref_rt 0) ref_pid posted 398068 = Some found_message \<and>
     content_at (ref_rt 0) ref_pid L' 398068 = Some found_message"
proof -
  let ?accounts = "[signer_info 20, plain_info 30]"
  have "posted 30 = program_account 1322400 (image_of (thread_node_codec ref_borsh) found_thread)"
    by (simp add: posted_at guarded_at founded_at)
  then have "is_ok (dispatch (ref_rt 2200) ref_pid ?accounts (SetMessageFee 6) posted)"
    by (simp add: dispatch_def process_set_message_fee_def run_simps found_thread_def cong: run_congs)
  then obtain L' where run: "dispatch (ref_rt 2200) ref_pid ?accounts (SetMessageFee 6) posted = Inr L'"
    by (auto simp: is_ok_iff)
  obtain bytes where bytes: "enc (instruction_codec ref_borsh) (SetMessageFee 6) = Some bytes"
    by (simp add: wire_bytes payload_defs)
  have here: "content_at (ref_rt 0) ref_pid posted 398068 = Some found_message"
    by (simp add: posted_at run_simps found_message_def)
  have "content_at (ref_rt 0) ref_pid L' 398068 = content_at (ref_rt 0) ref_pid posted 398068"
    using ref_runtime.dispatch_views(9) [OF _ run] by (simp add: tag_defs content_at_def)
  with here bytes run ref_runtime.process_instruction_enc [of 2200] show ?thesis
    by (auto simp: ref_time)
qed

theorem old_messages_are_frozen_witness:
  "\<exists>bytes L'. process_instruction (at_time 2200 ref_rent (ref_rt 0)) ref_pid
      [signer_info 20, plain_info 30] bytes posted = Inr L' \<and>
    (content_at (ref_rt 0) ref_pid L' 398068 = Some found_message \<or>
     signed_by [signer_info 20, plain_info 30] 20 \<and>
     enc (instruction_codec ref_borsh) CloseAccount = Some bytes \<and>
     content_at (ref_rt 0) ref_pid L' 398068 = None)"
proof -
  from later_call obtain bytes L' where run: "process_instruction (at_time 2200 ref_rent (ref_rt 0)) ref_pid
      [signer_info 20, plain_info 30] bytes posted = Inr L'"
    and m: "content_at (ref_rt 0) ref_pid posted 398068 = Some found_message" by blast
  from old_messages_are_frozen [OF ref_runtime.solana_axioms m _ run] run show ?thesis
    by (auto simp: found_message_def APPEND_WINDOW_SECS_def)
qed

text \<open>C4. The past cannot be rewritten: a message that is dated more than the window before some time
  was there at that time, with the same words, author and place, whatever happened since then.\<close>

theorem past_is_kept:
  assumes "solana rt pid" "history rt pid t L t' L'" "content_at rt pid L' k = Some n"
    and "sint t - sint (ch_created_at (cn_header n)) > APPEND_WINDOW_SECS"
  shows "content_at rt pid L k = Some n"
  using solana.history_old [OF assms(1-3)] assms(4) by (simp add: older_def)

theorem past_is_kept_witness:
  "\<exists>t' L'. history (ref_rt 0) ref_pid 2000 posted t' L' \<and>
     content_at (ref_rt 0) ref_pid posted 398068 = Some found_message"
proof -
  from later_call obtain bytes L' where run: "process_instruction (at_time 2200 ref_rent (ref_rt 0)) ref_pid
      [signer_info 20, plain_info 30] bytes posted = Inr L'"
    and m: "content_at (ref_rt 0) ref_pid L' 398068 = Some found_message" by blast
  have h: "history (ref_rt 0) ref_pid 2000 posted 2200 L'"
    by (rule history.call [OF history.here _ run]) simp
  with past_is_kept [OF ref_runtime.solana_axioms h m] show ?thesis
    by (auto simp: found_message_def APPEND_WINDOW_SECS_def)
qed

end
