(* ===== verification/Panics.thy ===== *)
theory Panics
  imports Authority Scenario
begin

text \<open>
  How calls fail: with an error of the program's own list or of the code it calls, and never by a
  panic. A release build checks arithmetic overflow and every build checks
  indices; two places in the handlers could fail such a check: the age of a message in
  \<open>append_content.rs\<close> and the index of the counter that \<open>close_account.rs\<close> resets. Both read a
  stored message, and no stored message has a slot past the counters or a date before 1970.
\<close>

fun documented :: "program_error \<Rightarrow> bool" where
  "documented Panicked \<longleftrightarrow> False"
| "documented (Custom c) \<longleftrightarrow> (\<exists>e. error_code e = c)"
| "documented _ \<longleftrightarrow> True"

lemma documented_own [simp]: "documented (program_error_of e)"
  by (auto simp: program_error_of_def)

definition calm :: "'a res \<Rightarrow> bool" where
  "calm r \<longleftrightarrow> (\<forall>e. r = Inl e \<longrightarrow> documented e)"

section \<open>Composition\<close>

named_theorems calm_simps

lemma calm_results [calm_simps]: "calm (Inr x)" "calm (err e)" "calm (Inl InvalidInstructionData)"
  "calm (Inl IncorrectProgramId)" "calm (Inl NotEnoughAccountKeys)" "calm (Inl BorshIoError)"
  by (simp_all add: calm_def)

lemma calm_attempt [calm_simps]:
  "calm (attempt m f) \<longleftrightarrow> calm m \<and> (\<forall>x. m = Inr x \<longrightarrow> calm (f x))"
  by (auto simp: calm_def attempt_Inl_iff)

lemma calm_ok_or [calm_simps]: "calm (ok_or e m) \<longleftrightarrow> m = None \<longrightarrow> documented e"
  by (cases m) (simp_all add: calm_def)

lemma calm_ensure [calm_simps]: "calm (ensure c e) \<longleftrightarrow> c \<or> documented e"
  by (cases c) (simp_all add: calm_def)

lemma calm_if [calm_simps]: "calm (if b then x else y) \<longleftrightarrow> (b \<longrightarrow> calm x) \<and> (\<not> b \<longrightarrow> calm y)"
  by simp

lemma calm_let [calm_simps]: "(\<And>x. calm (f x)) \<Longrightarrow> calm (Let v f)"
  by (simp add: Let_def)

lemma calm_case_prod [calm_simps]: "calm (case_prod f p) \<longleftrightarrow> calm (f (fst p) (snd p))"
  by (simp add: case_prod_beta)

lemma calm_case_option [calm_simps]:
  "calm (case m of None \<Rightarrow> x | Some y \<Rightarrow> f y) \<longleftrightarrow> (m = None \<longrightarrow> calm x) \<and> (\<forall>y. m = Some y \<longrightarrow> calm (f y))"
  by (cases m) simp_all

lemma calm_case_list [calm_simps]:
  "calm (case xs of [] \<Rightarrow> x | y # ys \<Rightarrow> f y ys) \<longleftrightarrow>
     (xs = [] \<longrightarrow> calm x) \<and> (\<forall>y ys. xs = y # ys \<longrightarrow> calm (f y ys))"
  by (cases xs) simp_all

section \<open>Guards and loaders\<close>

lemma calm_guards [calm_simps]:
  "calm (next_account_info it)" "calm (assert_signer a)" "calm (assert_writable a)"
  "calm (assert_uninitialized rt a L)" "calm (assert_system_program rt a)"
  "calm (assert_owned_by a k L)" "calm (assert_pda a k)" "calm (read_tag a L)"
  "calm (assert_upgrade_authority rt pid a b L)"
  by (cases it; simp add: calm_simps)
    (simp_all add: calm_simps assert_signer_def assert_writable_def assert_uninitialized_def
      assert_system_program_def assert_owned_by_def assert_pda_def read_tag_def
      assert_upgrade_authority_def)

lemma calm_serialize [calm_simps]: "calm (serialize c x a L)"
  by (simp add: serialize_def calm_simps)

lemma calm_loaders [calm_simps]:
  "calm (load_content rt pid a L)" "calm (load_thread_access rt a L)"
  "calm (load_access_entry rt a L)" "calm (load_bound_access_entry rt pid a k w L)"
  "calm (load_alloc_likes rt a L)" "calm (load_follow_registry rt a L)"
  "calm (load_follower_shard rt a L)" "calm (load_bound_follower_shard rt pid a k i L)"
  "calm (load_thread rt pid a L)" "calm (load_alloc rt pid a L)" "calm (load_settings rt pid a L)"
  "calm (load_author_thread rt pid a b L)" "calm (load_admin_access rt pid a b L)"
  "calm (load_admin_settings rt pid a b L)"
  by (simp_all add: calm_simps load_content_def load_thread_access_def load_access_entry_def
      load_bound_access_entry_def load_alloc_likes_def load_follow_registry_def
      load_follower_shard_def load_bound_follower_shard_def load_thread_def load_alloc_def
      load_settings_def load_author_thread_def load_admin_access_def load_admin_settings_def)

lemma calm_shards [calm_simps]:
  "calm (validate_treasury_shard rt pid a i)" "calm (validate_author_fee_shard rt pid k a j)"
  "calm (assert_fee_shard_accounts rt a b s)" "calm (validate_fee_shards rt pid a b k i j)"
  "calm (sweep_shard_excess a b n L)"
  by (simp_all add: calm_simps validate_treasury_shard_def validate_author_fee_shard_def
      assert_fee_shard_accounts_def validate_fee_shards_def sweep_shard_excess_def)

lemma calm_gate [calm_simps]: "calm (gating_of rt pid a k L)" "calm (standing_of rt pid a k b w L)"
  by (simp_all add: calm_simps gating_of_def standing_of_def)

lemma calm_sweep_shards [calm_simps]:
  assumes "\<And>a i. calm (validate a i)"
  shows "calm (sweep_shards rt pid validate r m xs L)"
  by (induction xs arbitrary: L) (auto simp: calm_simps assms)

section \<open>The code outside\<close>

text \<open>What is called returns: a call that fails is an error of its own, not a panic of the
  program.\<close>

locale returning =
  fixes rt :: runtime and pid :: pubkey
  assumes rent_returns: "calm (rt_rent rt)"
    and clock_returns: "calm (rt_clock rt)"
    and transfer_returns: "calm (rt_transfer rt a b n L)"
    and create_account_returns: "calm (rt_create_account rt pid a b n m k ss L)"
    and allocate_returns: "calm (rt_allocate rt pid a m ss L)"
    and assign_returns: "calm (rt_assign rt pid a k ss L)"
    and resize_returns: "calm (rt_resize rt a l L)"
begin

lemmas calls_return = rent_returns clock_returns transfer_returns create_account_returns
  allocate_returns assign_returns resize_returns

lemma calm_accounts:
  "calm (ensure_rent_exempt rt a b n L)" "calm (close_program_account rt a b L)"
  "calm (create_pda_account rt pid a b s n seeds L)"
  by (simp_all add: calm_simps calls_return ensure_rent_exempt_def close_program_account_def
      create_pda_account_def)

lemmas calm_run = calm_simps calls_return calm_accounts

lemma calm_fees:
  "calm (collect_fee_to_shard rt n a b L)" "calm (collect_base_fee rt n bps a b L)"
  "calm (transfer_fee_split rt n bps a b c L)"
  "calm (ensure_shard_initialized rt pid a b s seeds bump L)"
  "calm (ensure_fee_shards_initialized rt pid a b c s k i j x y L)"
  "calm (prepare_fee_shards rt pid a b c s k i j L)"
  by (simp_all add: calm_run collect_fee_to_shard_def collect_base_fee_def transfer_fee_split_def
      ensure_shard_initialized_def ensure_fee_shards_initialized_def prepare_fee_shards_def)

lemmas calm_parts = calm_run calm_fees

section \<open>Handlers\<close>

lemma calm_settings:
  "calm (process_init_settings rt pid xs k L)" "calm (process_set_admin rt pid xs k L)"
  "calm (process_set_treasury rt pid xs k L)" "calm (process_set_base_fee rt pid xs bps L)"
  "calm (process_set_author_fee_cut rt pid xs bps L)" "calm (process_set_entry_cut rt pid xs bps L)"
  "calm (process_set_like_cut rt pid xs bps L)"
  by (simp_all add: calm_parts process_init_settings_def process_set_admin_def
      process_set_treasury_def process_set_base_fee_def process_set_author_fee_cut_def
      process_set_entry_cut_def process_set_like_cut_def update_platform_setting_def)

lemma calm_threads:
  "calm (process_create_root_alloc rt pid xs fee i title L)" "calm (process_prepare_alloc rt pid xs q L)"
  "calm (process_set_message_fee rt pid xs fee L)" "calm (process_set_like_fee rt pid xs fee L)"
  by (simp_all add: calm_parts process_create_root_alloc_def process_prepare_alloc_def
      process_set_message_fee_def process_set_like_fee_def)

lemma calm_entries:
  "calm (set_access_entry_status rt pid a b c k w st L)" "calm (adjust_whitelist_count rt a n L)"
  "calm (close_access_entry rt pid a b k w st L)"
  "calm (apply_access_entry_status rt pid a b c d w st L)"
  "calm (remove_access_entry rt pid a b c k st L)"
  by (simp_all add: calm_parts set_access_entry_status_def adjust_whitelist_count_def
      close_access_entry_def apply_access_entry_status_def remove_access_entry_def)

lemma calm_access:
  "calm (process_init_thread_access rt pid xs e i L)" "calm (process_set_thread_access rt pid xs e L)"
  "calm (process_set_entry_fee rt pid xs fee L)" "calm (process_add_to_whitelist rt pid xs w L)"
  "calm (process_add_to_fee_whitelist rt pid xs w L)" "calm (process_add_to_blacklist rt pid xs w L)"
  "calm (process_remove_from_whitelist rt pid xs w L)"
  "calm (process_remove_from_fee_whitelist rt pid xs w L)"
  "calm (process_remove_from_blacklist rt pid xs w L)" "calm (process_request_access rt pid xs i j L)"
  by (simp_all add: calm_parts calm_entries process_init_thread_access_def
      process_set_thread_access_def process_set_entry_fee_def process_add_to_whitelist_def
      process_add_to_fee_whitelist_def process_add_to_blacklist_def
      process_remove_from_whitelist_def process_remove_from_fee_whitelist_def
      process_remove_from_blacklist_def process_request_access_def)

lemma calm_fill_loop: "calm (fill_loop rt pid c cs L)"
proof (induction cs)
  case (Cons p cs)
  then show ?case by (cases p) (simp add: calm_parts fill_candidate_def)
qed (simp add: calm_simps)

lemma calm_messages:
  "calm (process_fill_slot rt pid xs kd body cands i j ra rs m L)"
  "calm (process_like_content rt pid xs q s i j m L)"
  by (simp_all add: calm_parts calm_fill_loop process_fill_slot_def process_like_content_def
      text_validate_def)

lemma calm_follows:
  "calm (process_subscribe rt pid xs L)" "calm (process_unsubscribe rt pid xs L)"
  by (simp_all add: calm_parts process_subscribe_def process_unsubscribe_def)

lemma calm_sweeps:
  "calm (process_sweep_treasury rt pid xs is L)" "calm (process_sweep_author_fees rt pid xs js L)"
  by (simp_all add: calm_parts process_sweep_treasury_def process_sweep_author_fees_def)

end

section \<open>The two places\<close>

text \<open>Stored messages have a counter of their own and a date since 1970.\<close>

definition messages_sane :: "runtime \<Rightarrow> pubkey \<Rightarrow> ledger \<Rightarrow> bool" where
  "messages_sane rt pid L \<longleftrightarrow> (\<forall>k n. content_at rt pid L k = Some n \<longrightarrow>
     unat (ch_slot (cn_header n)) < CONTENT_SLOTS \<and> 0 \<le> sint (ch_created_at (cn_header n)))"

lemma messages_saneD:
  assumes "messages_sane rt pid L" "content_at rt pid L k = Some n"
  shows "unat (ch_slot (cn_header n)) < CONTENT_SLOTS" "0 \<le> sint (ch_created_at (cn_header n))"
  using assms by (auto simp: messages_sane_def)

lemma age_in_range:
  assumes "0 \<le> sint (now :: i64)" "0 \<le> sint (created :: i64)"
  shows "- (2 ^ 63) \<le> sint now - sint created" "sint now - sint created < 2 ^ 63"
  using assms sint_lt [of now] sint_lt [of created] by simp_all

context solana
begin

lemma messages_sane_reachable:
  assumes "reachable rt pid L"
  shows "messages_sane rt pid L"
  using assms
proof (rule reachable_inv)
  fix L :: ledger
  assume none: "\<And>k. acc_owner (L k) \<noteq> pid"
  show "messages_sane rt pid L"
    by (simp add: messages_sane_def content_at_def stored_Some_iff none)
next
  fix now rent accounts i L L'
  assume a: "0 \<le> sint now" "dispatch (at_time now rent rt) pid accounts i L = Inr L'"
    "messages_sane rt pid L"
  note old = solana.message_authority [OF at_another_time a(2), unfolded at_time_views]
    and new = solana.message_new [OF at_another_time a(2), unfolded at_time_views at_time_simps]
  show "messages_sane rt pid L'"
    unfolding messages_sane_def
  proof (intro allI impI)
    fix k n'
    assume n': "content_at rt pid L' k = Some n'"
    show "unat (ch_slot (cn_header n')) < CONTENT_SLOTS \<and> 0 \<le> sint (ch_created_at (cn_header n'))"
    proof (cases "content_at rt pid L k")
      case None
      with new [OF None n'] a(1) show ?thesis by simp
    next
      case (Some n)
      from old [OF Some] n' have "cn_header n' = cn_header n" by auto
      with messages_saneD [OF a(3) Some] show ?thesis by simp
    qed
  qed
next
  fix L L'
  assume "outside_step pid L L'" "messages_sane rt pid L"
  then show "messages_sane rt pid L'"
    using views_kept(9) [OF _ outside_kept] by (simp add: messages_sane_def tag_defs)
qed

lemma calm_reset_likes:
  assumes "messages_sane rt pid L" "content_at rt pid L k = Some n"
  shows "calm (reset_likes rt pid n a L)"
  using messages_saneD(1) [OF assms] likes_at_shape(4)
  by (auto simp: calm_simps reset_likes_def load_alloc_likes_iff assert_Inr_iffs Let_def case_prod_beta)

end

context returning
begin

lemma calm_append:
  assumes "solana rt pid" "messages_sane rt pid L" "\<And>now. rt_clock rt = Inr now \<Longrightarrow> 0 \<le> sint now"
  shows "calm (process_append_content rt pid xs chunk i j L)"
proof -
  have "\<not> sint now - sint (ch_created_at (cn_header n)) < - 9223372036854775808"
    "\<not> 9223372036854775808 \<le> sint now - sint (ch_created_at (cn_header n))"
    if "content_at rt pid L k = Some n" "rt_clock rt = Inr now" for k n now
    using age_in_range [OF assms(3) [OF that(2)] messages_saneD(2) [OF assms(2) that(1)]] by simp_all
  then show ?thesis
    by (auto simp: process_append_content_def calm_parts load_content_Inr_iff Let_def)
qed

lemma calm_close:
  assumes "solana rt pid" "messages_sane rt pid L"
  shows "calm (process_close_account rt pid xs L)"
  using solana.calm_reset_likes [OF assms]
  by (auto simp: process_close_account_def calm_parts load_content_Inr_iff)

lemma calm_dispatch:
  assumes "solana rt pid" "messages_sane rt pid L" "\<And>now. rt_clock rt = Inr now \<Longrightarrow> 0 \<le> sint now"
  shows "calm (dispatch rt pid accounts i L)"
  by (cases i) (simp_all add: dispatch_def calm_settings calm_threads calm_access calm_messages
      calm_follows calm_sweeps calm_append [OF assms] calm_close [OF assms(1,2)])

lemma calm_entry:
  assumes "solana rt pid" "messages_sane rt pid L" "\<And>now. rt_clock rt = Inr now \<Longrightarrow> 0 \<le> sint now"
  shows "calm (process_instruction rt pid accounts bytes L)"
  by (simp add: process_instruction_def calm_simps calm_dispatch [OF assms])

lemma returning_later: "returning (at_time now rent rt) pid"
  by unfold_locales (simp_all add: calls_return calm_simps)

end

interpretation ref_returns: returning "ref_rt now" ref_pid
  by unfold_locales (simp_all add: calm_def ref_transfer_def ref_create_account_def
      ref_allocate_def ref_assign_def ref_resize_def)

section \<open>Property\<close>

text \<open>C7. The program never panics and has no undocumented error: whatever bytes and accounts a call is
  given, in every state that can be reached, it ends with success, with a \<open>Custom\<close> code of the
  error list, or with a plain error of the entry point or of the code it calls; the calls of the
  runtime are assumed to end like that.\<close>

theorem failures_are_documented:
  assumes "solana rt pid" "returning rt pid" "reachable rt pid L" "0 \<le> sint now"
  shows "process_instruction (at_time now rent rt) pid accounts bytes L \<noteq> Inl Panicked \<and>
    (\<forall>c. process_instruction (at_time now rent rt) pid accounts bytes L = Inl (Custom c) \<longrightarrow>
      (\<exists>e. error_code e = c))"
proof -
  have "calm (process_instruction (at_time now rent rt) pid accounts bytes L)"
    using returning.calm_entry [OF returning.returning_later [OF assms(2)]
        solana.at_another_time [OF assms(1)]]
      solana.messages_sane_reachable [OF assms(1,3)] assms(4)
    by (simp add: messages_sane_def)
  then show ?thesis by (auto simp: calm_def)
qed

theorem failures_are_documented_witness:
  "process_instruction (ref_rt 7) ref_pid [signer_info 20, plain_info 398068] [5] posted
     \<noteq> Inl Panicked"
  using failures_are_documented [OF ref_runtime.solana_axioms ref_returns.returning_axioms
      posted_reachable, of 7 ref_rent] by (simp add: ref_time)

end
