(* ===== verification/Paying.thy ===== *)
theory Paying
  imports Messages
begin

text \<open>
  When a payment goes through. \<open>can_pay\<close> is a wallet that signs and holds a given amount, on a
  ledger whose supply fits the balances' width; each step that spends takes a bounded part of
  it and succeeds.
\<close>

definition can_pay :: "runtime \<Rightarrow> account_info \<Rightarrow> ledger \<Rightarrow> nat \<Rightarrow> bool" where
  "can_pay rt a L n \<longleftrightarrow> is_signer a \<and> is_writable a \<and> owner L a = rt_system_id rt \<and>
     data L a = [] \<and> n \<le> unat (lamports L a) \<and> total L < 2 ^ 64"

lemma can_payD:
  assumes "can_pay rt a L n"
  shows "is_signer a" "is_writable a" "owner L a = rt_system_id rt" "data L a = []"
    "n \<le> unat (lamports L a)" "total L < 2 ^ 64"
  using assms by (simp_all add: can_pay_def)

lemma can_pay_le: "can_pay rt a L n \<Longrightarrow> m \<le> n \<Longrightarrow> can_pay rt a L m"
  by (simp add: can_pay_def)

context solana_live
begin

lemma pay_transfer:
  assumes "can_pay rt a L n" "unat amount \<le> n" "is_writable d" "ai_key d \<noteq> ai_key a"
  shows "\<exists>L'. rt_transfer rt a d amount L = Inr L' \<and> can_pay rt a L' (n - unat amount)"
proof -
  note p = can_payD [OF assms(1)]
  have le: "amount \<le> lamports L a" using p(5) assms(2) by (simp add: word_le_nat_alt)
  have "unat (lamports L d) + unat amount < 2 ^ 64"
    using balances_le_total [OF assms(4), of L] p(5,6) assms(2) by (simp add: lamports_def)
  with transfer_live [OF p(1,2) assms(3) p(3,4) le] obtain L' where
    run: "rt_transfer rt a d amount L = Inr L'" by blast
  have "total L' = total L"
    using transfer_effect [OF run, of "{ai_key a}" UNIV] by (auto dest: effect_total)
  moreover have "lamports L' a = lamports L a - amount"
    using transfer_ok [OF run] assms(4) by (simp add: lamports_def move_lamports_acc)
  ultimately have "can_pay rt a L' (n - unat amount)"
    using p transfer_contents [OF run] le
    by (simp add: can_pay_def owner_def data_def unat_sub_le diff_le_mono)
  with run show ?thesis by blast
qed

text \<open>Creating an account costs at most its rent-exempt minimum.\<close>

lemma create_cost:
  assumes "create_pda_account rt pid a d sp space seeds L = Inr L'" "rt_rent rt = Inr rent"
    and "ai_key a \<noteq> ai_key d"
  shows "unat (lamports L a) \<le> unat (lamports L' a) + unat (rent space)"
proof (cases "lamports L d = 0")
  case True
  with assms(1,2)
  have "rt_create_account rt pid a d (rent space) (of_nat space) pid [seeds] L = Inr L'"
    by (auto simp: create_pda_account_def ok_simps Let_def)
  from create_account_ok [OF this] assms(3) show ?thesis
    by (auto simp: lamports_def move_lamports_acc unat_sub_le)
next
  case False
  with assms(1,2) obtain L1 L2 where
    L1: "(if lamports L d < rent space
          then rt_transfer rt a d (rent space - lamports L d) L else Inr L) = Inr L1"
    and L2: "rt_allocate rt pid d (of_nat space) [seeds] L1 = Inr L2"
    and L': "rt_assign rt pid d pid [seeds] L2 = Inr L'"
    by (auto simp: create_pda_account_def ok_simps Let_def)
  have "lamports L' a = lamports L1 a"
    using allocate_ok [OF L2] assign_ok [OF L'] by (auto simp: lamports_def)
  moreover have "unat (lamports L a) \<le> unat (lamports L1 a) + unat (rent space)"
  proof (cases "lamports L d < rent space")
    case True
    with L1 have "rt_transfer rt a d (rent space - lamports L d) L = Inr L1" by simp
    from transfer_ok [OF this] assms(3) True show ?thesis
      by (auto simp: lamports_def move_lamports_acc unat_sub_le)
  next
    case False
    with L1 show ?thesis by simp
  qed
  ultimately show ?thesis by simp
qed

lemma pay_create:
  assumes "can_pay rt a L n" "rt_rent rt = Inr rent" "unat (rent space) \<le> n"
    and "rt_find_pda rt seeds pid = (ai_key d, bump)" "is_writable d" "is_uninitialized rt d L"
    and "ai_key d \<noteq> ai_key a" "ai_key sp = rt_system_id rt" "space \<le> max_data_increase"
  shows "\<exists>L'. create_pda_account rt pid a d sp space (seeds @ [[bump]]) L = Inr L' \<and>
    can_pay rt a L' (n - unat (rent space))"
proof -
  note p = can_payD [OF assms(1)]
  have "rent space \<le> lamports L a" using p(5) assms(3) by (simp add: word_le_nat_alt)
  with create_pda_account_live [OF assms(4,2) p(1-4) _ assms(7) [symmetric] assms(5)] assms(6,8,9)
  obtain L' where run: "create_pda_account rt pid a d sp space (seeds @ [[bump]]) L = Inr L'"
    by (auto simp: is_uninitialized_def)
  have small: "space < 2 ^ 64" using assms(9) by (simp add: max_data_increase_def)
  have "total L' = total L"
    using create_pda_account_effect [OF run, of "{ai_key a}" UNIV] by (auto dest: effect_total)
  then have "can_pay rt a L' (n - unat (rent space))"
    using p create_cost [OF run assms(2) assms(7) [symmetric]]
      create_pda_account_ok(6) [OF run small, of "ai_key a"] assms(7)
    by (auto simp: can_pay_def owner_def data_def)
  with run show ?thesis by blast
qed

text \<open>Fees, each with what a vault may need to be rent-exempt.\<close>

lemma pay_collect:
  assumes "can_pay rt a L n" "rt_rent rt = Inr rent" "unat amount + unat (rent 0) \<le> n"
    and "is_writable d" "ai_key d \<noteq> ai_key a"
  shows "\<exists>L'. collect_fee_to_shard rt amount a d L = Inr L' \<and>
    can_pay rt a L' (n - (unat amount + unat (rent 0)))"
proof (cases "amount = 0")
  case True
  with assms(1) show ?thesis by (auto simp: collect_fee_to_shard_def intro: can_pay_le)
next
  case False
  let ?fee = "max amount (saturating_sub (rent 0) (lamports L d))"
  have le: "unat ?fee \<le> unat amount + unat (rent 0)"
    by (auto simp: max_def unat_saturating_sub)
  have "0 < ?fee" using False by (simp add: less_max_iff_disj word_neq_0_conv)
  then have eq: "collect_fee_to_shard rt amount a d L = rt_transfer rt a d ?fee L"
    using False assms(2) by (simp add: collect_fee_to_shard_def Let_def)
  from pay_transfer [OF assms(1) _ assms(4,5), of ?fee] le assms(3) show ?thesis
    unfolding eq by (meson can_pay_le diff_le_mono2 order_trans)
qed

lemma pay_base_fee:
  assumes "can_pay rt a L n" "rt_rent rt = Inr rent" "bps \<le> 10000"
    and "unat r * unat bps div 10000 + unat (rent 0) \<le> n" "is_writable d" "ai_key d \<noteq> ai_key a"
  shows "\<exists>L'. collect_base_fee rt r bps a d L = Inr L' \<and>
    can_pay rt a L' (n - (unat r * unat bps div 10000 + unat (rent 0)))"
  using pay_collect [OF assms(1,2) _ assms(5,6), of "of_nat (unat r * unat bps div 10000)"] assms(4)
  by (simp add: collect_base_fee_def Let_def unat_fee_cut [OF assms(3)])

lemma pay_split:
  assumes "can_pay rt a L n" "rt_rent rt = Inr rent" "bps \<le> 10000"
    and "unat amount + 2 * unat (rent 0) \<le> n"
    and "is_writable d" "ai_key d \<noteq> ai_key a" "is_writable d'" "ai_key d' \<noteq> ai_key a"
  shows "\<exists>L'. transfer_fee_split rt amount bps a d d' L = Inr L'"
proof -
  obtain x y where split: "compute_fee_split amount bps = (x, y)" by fastforce
  with compute_fee_split_total [OF assms(3), of amount] have xy: "unat x + unat y = unat amount"
    by simp
  obtain L1 where L1: "(if y > 0 then collect_fee_to_shard rt y a d' L else Inr L) = Inr L1"
      "can_pay rt a L1 (n - (unat y + unat (rent 0)))"
  proof (cases "y > 0")
    case True
    with pay_collect [OF assms(1,2) _ assms(7,8), of y] that assms(4) xy show thesis by auto
  next
    case False
    with that can_pay_le [OF assms(1)] show thesis by simp
  qed
  have "unat x + unat (rent 0) \<le> n - (unat y + unat (rent 0))" using assms(4) xy by linarith
  from pay_collect [OF L1(2) assms(2) this assms(5,6)]
  have "\<exists>L'. (if x > 0 then collect_fee_to_shard rt x a d L1 else Inr L1) = Inr L'" by auto
  with L1(1) show ?thesis by (simp add: transfer_fee_split_def split Let_def)
qed

lemma pay_shard:
  assumes "can_pay rt a L n" "rt_rent rt = Inr rent" "unat (rent 0) \<le> n"
    and "rt_find_pda rt seeds pid = (ai_key d, bump)" "is_writable d" "ai_key d \<noteq> ai_key a"
    and "ai_key sp = rt_system_id rt"
  shows "\<exists>L'. ensure_shard_initialized rt pid a d sp seeds bump L = Inr L' \<and>
    can_pay rt a L' (n - unat (rent 0)) \<and>
    (\<forall>k. k \<noteq> ai_key d \<longrightarrow> acc_owner (L' k) = acc_owner (L k) \<and> acc_data (L' k) = acc_data (L k))"
proof (cases "is_uninitialized rt d L")
  case True
  from pay_create [OF assms(1-5) True assms(6,7)] obtain L' where
    run: "create_pda_account rt pid a d sp 0 (seeds @ [[bump]]) L = Inr L'"
      "can_pay rt a L' (n - unat (rent 0))"
    by auto
  with True create_pda_account_ok(6) [OF run(1)] show ?thesis
    by (auto simp: ensure_shard_initialized_def)
next
  case False
  with can_pay_le [OF assms(1)] show ?thesis by (simp add: ensure_shard_initialized_def)
qed

text \<open>A message into a free slot: its account, the base fee and the author's fee.\<close>

lemma fill_live:
  assumes "can_pay rt (fc_payer c) L n" "rt_rent rt = Inr (fc_rent c)"
    and "ps_base_fee_bps (fc_settings c) \<le> 10000" "ps_author_fee_cut_bps (fc_settings c) \<le> 10000"
    and "length (fc_body c) \<le> MAX_BODY_LEN" "is_uninitialized rt a L" "is_writable a"
    and "derive_content_pda rt pid (fc_thread_key c) (cs_alloc_seq cand) (cs_slot cand) =
      (ai_key a, bump)"
    and "ai_key (fc_system_program c) = rt_system_id rt"
    and "is_writable (fc_treasury_shard c)" "is_writable (fc_author_fee_shard c)"
    and "ai_key (fc_payer c) \<notin> {ai_key a, ai_key (fc_treasury_shard c), ai_key (fc_author_fee_shard c)}"
    and sz: "sz = ContentNode_size (length (fc_body c))"
    and fee: "fee = unat (fc_rent c sz) * unat (ps_base_fee_bps (fc_settings c)) div 10000 +
      unat (tn_message_fee (fc_thread c))"
    and "fee \<le> unat (fc_max_fee c)" "unat (fc_rent c sz) + fee + 3 * unat (fc_rent c 0) \<le> n"
  shows "\<exists>L'. fill_candidate rt pid c cand a bump L = Inr L'"
proof -
  let ?base = "unat (fc_rent c sz) * unat (ps_base_fee_bps (fc_settings c)) div 10000"
  let ?author = "if fc_fee_exempt c then 0 else tn_message_fee (fc_thread c)"
  have size_le: "sz \<le> max_data_increase" "sz < 2 ^ 64"
    using assms(5) by (simp_all add: sz size_defs MAX_BODY_LEN_def max_data_increase_def)
  have seeds: "rt_find_pda rt [CONTENT_SEED, as_ref (fc_thread_key c),
      le_bytes 4 (unat (cs_alloc_seq cand)), [cs_slot cand]] pid = (ai_key a, bump)"
    using assms(8) by (simp add: derive_content_pda_def)
  from pay_create [OF assms(1,2) _ seeds assms(7,6) _ assms(9) size_le(1)] assms(12,16)
  obtain L1 where L1: "create_pda_account rt pid (fc_payer c) a (fc_system_program c) sz
        [CONTENT_SEED, as_ref (fc_thread_key c), le_bytes 4 (unat (cs_alloc_seq cand)),
         [cs_slot cand], [bump]] L = Inr L1"
      "can_pay rt (fc_payer c) L1 (n - unat (fc_rent c sz))"
    by auto
  note made = create_pda_account_ok [OF L1(1) size_le(2)]
  have "enc (content_node_codec (rt_borsh rt)) (new_content c cand) \<noteq> None"
    unfolding fmt.encodable_iff using assms(5) by (simp add: new_content_def MAX_BODY_LEN_def)
  with fmt.content.serialize_succeeds [of "new_content c cand" L1 a] made(4)
  obtain L2 where L2: "serialize (content_node_codec (rt_borsh rt)) (new_content c cand) a L1 = Inr L2"
    by (auto simp: sz new_content_def)
  have "can_pay rt (fc_payer c) L2 (n - unat (fc_rent c sz))"
    using L1(2) serialize_other [OF L2, of "ai_key (fc_payer c)"] assms(12)
      effect_total [OF serialize_effect [OF L2, of UNIV pid "{}"]]
    by (simp add: can_pay_def owner_def data_def lamports_def)
  moreover have "?base + unat (fc_rent c 0) \<le> n - unat (fc_rent c sz)"
    using assms(16) fee by linarith
  ultimately obtain L3 where L3: "collect_base_fee rt (fc_rent c sz) (ps_base_fee_bps (fc_settings c))
        (fc_payer c) (fc_treasury_shard c) L2 = Inr L3"
      "can_pay rt (fc_payer c) L3 (n - unat (fc_rent c sz) - (?base + unat (fc_rent c 0)))"
    using pay_base_fee [OF _ assms(2,3) _ assms(10)] assms(12) by (metis insert_iff)
  have "unat ?author + 2 * unat (fc_rent c 0) \<le>
      n - unat (fc_rent c sz) - (?base + unat (fc_rent c 0))"
    using assms(16) fee by auto
  from pay_split [OF L3(2) assms(2,4) this assms(11) _ assms(10)] assms(12)
  obtain L4 where L4: "transfer_fee_split rt ?author (ps_author_fee_cut_bps (fc_settings c))
      (fc_payer c) (fc_author_fee_shard c) (fc_treasury_shard c) L3 = Inr L4"
    by auto
  have small: "unat (of_nat ?base :: u64) = ?base" by (rule unat_fee_cut [OF assms(3)])
  have "?base + unat ?author \<le> unat (fc_max_fee c)" using assms(15) fee by auto
  with unat_less_2p [of "fc_max_fee c"] small
  have sum: "checked_add (of_nat ?base) ?author = Some (of_nat ?base + ?author)"
    "of_nat ?base + ?author \<le> fc_max_fee c"
    by (simp_all add: checked_add_Some_iff word_le_nat_alt unat_add_lt)
  show ?thesis
    using L1(1) L2 L3(1) L4 sum assms(7)
    by (simp add: fill_candidate_def assert_writable_def Let_def not_less flip: sz)
qed

end

end
