(* ===== verification/Liveness.thy ===== *)
theory Liveness
  imports Forum Panics Paying
begin

text \<open>
  What is bound to happen: a chain cannot be extended for ever, an admitted wallet can post, and
  an author can always take a message back.
\<close>

section \<open>Chains end\<close>

text \<open>A call that extends a thread's chain.\<close>

definition extends :: "runtime \<Rightarrow> pubkey \<Rightarrow> pubkey \<Rightarrow> ledger \<Rightarrow> ledger \<Rightarrow> bool" where
  "extends rt pid th L L' \<longleftrightarrow> step rt pid L L' \<and> (\<exists>t t'. thread_at rt pid L th = Some t \<and>
     thread_at rt pid L' th = Some t' \<and> tn_last_alloc_seq t' \<noteq> tn_last_alloc_seq t)"

text \<open>How many nodes can still come.\<close>

definition room :: "runtime \<Rightarrow> pubkey \<Rightarrow> pubkey \<Rightarrow> ledger \<Rightarrow> nat" where
  "room rt pid th L = (case thread_at rt pid L th of None \<Rightarrow> 2 ^ 32
     | Some t \<Rightarrow> 2 ^ 32 - 1 - unat (tn_last_alloc_seq t))"

context solana
begin

lemma step_thread_grows:
  assumes "step rt pid L L'" "thread_at rt pid L k = Some t"
  shows "\<exists>t'. thread_at rt pid L' k = Some t' \<and> tn_last_alloc_seq t \<le> tn_last_alloc_seq t'"
proof -
  from assms(1) have "grows (board rt pid L) (board rt pid L')"
  proof cases
    case (call now rent accounts bytes)
    then obtain i where "dispatch (at_time now rent rt) pid accounts i L = Inr L'"
      by (auto simp: process_instruction_Inr_iff)
    from step_grows [OF solana.forum_dispatch [OF at_another_time this]] show ?thesis by simp
  next
    case outside
    then show ?thesis by (simp add: board_outside grows_def)
  qed
  from growsD(1) [OF this, of k t] assms(2) show ?thesis by auto
qed

lemma step_room: "step rt pid L L' \<Longrightarrow> room rt pid th L' \<le> room rt pid th L"
  using step_thread_grows [of L L' th]
  by (cases "thread_at rt pid L th"; cases "thread_at rt pid L' th")
    (auto simp: room_def word_le_nat_alt)

lemma steps_room: "(step rt pid)\<^sup>*\<^sup>* L L' \<Longrightarrow> room rt pid th L' \<le> room rt pid th L"
  by (induction rule: rtranclp_induct) (auto dest: step_room [of _ _ th])

lemma extends_room:
  assumes "extends rt pid th L L'"
  shows "room rt pid th L' < room rt pid th L"
proof -
  from assms obtain t t' where t: "step rt pid L L'" "thread_at rt pid L th = Some t"
      "thread_at rt pid L' th = Some t'" "tn_last_alloc_seq t' \<noteq> tn_last_alloc_seq t"
    by (auto simp: extends_def)
  from step_thread_grows [OF t(1,2)] t(3,4) have "tn_last_alloc_seq t < tn_last_alloc_seq t'" by auto
  with t(2,3) unat_less_2p [of "tn_last_alloc_seq t'"] show ?thesis
    by (auto simp: room_def word_less_nat_alt)
qed

end

section \<open>Taking a message back\<close>

context solana_live
begin

lemma close_live:
  assumes "reachable rt pid L" "content_at rt pid L (ai_key a) = Some n"
    and "is_signer payer" "ai_key payer = ch_author (cn_header n)" "is_writable a"
    and "ai_key payer \<noteq> ai_key a" "unat (lamports L payer) + unat (lamports L a) < 2 ^ 64"
  shows "\<exists>L'. process_close_account rt pid [payer, a] L = Inr L' \<and>
    content_at rt pid L' (ai_key a) = None"
proof -
  have "ai_key a = content_address rt pid (cn_header n)"
    using places_reachable(2) [OF assms(1)] assms(2) unfolding placed_defs placed_def by auto
  with assms(2) have load: "load_content rt pid a L = Inr n" by (simp add: load_content_Inr_iff)
  have owned: "owner L a = pid" using content_view.view_owner [OF assms(2)] by (simp add: owner_def)
  have tag: "read_tag a L = Inr TAG_CONTENT"
    using view_tag_byte(9) [OF assms(2)] owned
    by (auto simp: read_tag_def tag_byte_def owner_def data_def split: if_splits list.splits)
  obtain sum where sum: "checked_add (lamports L payer) (lamports L a) = Some sum"
    using assms(7) by (auto simp: checked_add_def)
  obtain L1 where "close_program_account rt a payer L = Inr L1"
    using sum resize_live by (fastforce simp: close_program_account_def Let_def attempt_Inr_iff)
  then have run: "process_close_account rt pid [payer, a] L = Inr L1"
    using assms(3-5) load owned tag
    by (simp add: process_close_account_def assert_signer_def assert_writable_def
        assert_owned_by_def)
  from close_account_ok [OF this] obtain b c :: account_info and rest where
    "[payer, a] = b # c # rest" "acc_data (L1 (ai_key c)) = []"
    by (elim exE conjE)
  then have "content_at rt pid L1 (ai_key a) = None" by (simp add: content_view.view_empty)
  with run show ?thesis by blast
qed

end

section \<open>Posting\<close>

text \<open>A wallet, the thread, the settings and the accounts of a post into one free slot.\<close>

definition ready_to_post :: "runtime \<Rightarrow> pubkey \<Rightarrow> ledger \<Rightarrow> account_info list \<Rightarrow> u8 list \<Rightarrow>
  candidate_slot \<Rightarrow> u16 \<Rightarrow> u8 \<Rightarrow> u64 \<Rightarrow> bool" where
  "ready_to_post rt pid L accounts body c i j max_fee \<longleftrightarrow>
     (\<exists>payer th st ts fs sp a access entry t s rent now.
       accounts = [payer, th, st, ts, fs, sp, a, access, entry] \<and>
       thread_at rt pid L (ai_key th) = Some t \<and> settings_at rt pid L (ai_key st) = Some s \<and>
       may_post rt pid L (ai_key th) (tn_author t) (ai_key payer) \<and>
       rt_rent rt = Inr rent \<and> rt_clock rt = Inr now \<and> length body \<le> MAX_BODY_LEN \<and>
       cs_alloc_seq c \<le> tn_last_alloc_seq t \<and> unat (cs_slot c) < CONTENT_SLOTS \<and>
       i < N_TREASURY_SHARDS \<and> j < N_AUTHOR_FEE_SHARDS \<and>
       ai_key ts = fst (derive_treasury_shard_pda rt pid i) \<and> is_writable ts \<and>
       ai_key fs = fst (derive_author_fee_pda rt pid (ai_key th) j) \<and> is_writable fs \<and>
       ai_key sp = rt_system_id rt \<and>
       ai_key a = fst (derive_content_pda rt pid (ai_key th) (cs_alloc_seq c) (cs_slot c)) \<and>
       is_writable a \<and> is_uninitialized rt a L \<and>
       ai_key access = access_address rt pid (ai_key th) \<and>
       (is_uninitialized rt access L \<or>
         (\<exists>x. access_at rt pid L (ai_key access) = Some x \<and> ta_thread x = ai_key th)) \<and>
       ai_key entry = entry_address rt pid (ai_key th) (ai_key payer) \<and>
       (is_uninitialized rt entry L \<or> (\<exists>e. entry_at rt pid L (ai_key entry) = Some e \<and>
         ae_thread e = ai_key th \<and> ae_wallet e = ai_key payer)) \<and>
       ai_key payer \<notin> {ai_key a, ai_key ts, ai_key fs} \<and> ai_key a \<notin> {ai_key ts, ai_key fs} \<and>
       (let sz = ContentNode_size (length body);
            fee = unat (rent sz) * unat (ps_base_fee_bps s) div 10000 + unat (tn_message_fee t)
        in fee \<le> unat max_fee \<and>
          can_pay rt payer L (unat (rent sz) + fee + 5 * unat (rent 0))))"

context solana_live
begin

lemma gate_open:
  assumes "may_post rt pid L thread (tn_author t) (ai_key payer)"
    and "ai_key access = access_address rt pid thread"
    and "is_uninitialized rt access L \<or>
      (\<exists>x. access_at rt pid L (ai_key access) = Some x \<and> ta_thread x = thread)"
    and "ai_key entry = entry_address rt pid thread (ai_key payer)"
    and "is_uninitialized rt entry L \<or> (\<exists>e. entry_at rt pid L (ai_key entry) = Some e \<and>
      ae_thread e = thread \<and> ae_wallet e = ai_key payer)"
  obtains al ex where "gating_of rt pid access thread L = Inr (gated rt pid L thread)"
    "standing_of rt pid entry thread payer t L = Inr (al, ex)" "gated rt pid L thread \<longrightarrow> al"
proof -
  from assms(3) obtain g where "gating_of rt pid access thread L = Inr g"
    using gating_of_iff [of rt pid access thread L] by (cases "is_uninitialized rt access L") auto
  with gating_of_policy [OF this assms(2)]
  have g: "gating_of rt pid access thread L = Inr (gated rt pid L thread)" by simp
  have "entry_status rt pid L thread (ai_key payer) \<noteq> Some ACCESS_DENIED"
    using assms(1) by (simp add: may_post_def)
  with assms(4,5) obtain al ex where st: "standing_of rt pid entry thread payer t L = Inr (al, ex)"
    using standing_of_iff [of rt pid entry thread payer t L]
    by (cases "is_uninitialized rt entry L") (auto simp: entry_status_def entry_address_def)
  with standing_of_policy [OF st] assms(1,4) have "gated rt pid L thread \<longrightarrow> al"
    by (auto simp: may_post_def entry_address_def)
  with g st that show thesis by blast
qed

lemma shards_live:
  assumes "can_pay rt payer L (n + 2 * unat (rent 0))" "rt_rent rt = Inr rent"
    and "ai_key ts = fst (derive_treasury_shard_pda rt pid i)" "is_writable ts"
    and "ai_key fs = fst (derive_author_fee_pda rt pid thread j)" "is_writable fs"
    and "ai_key sp = rt_system_id rt" "ai_key payer \<notin> {ai_key ts, ai_key fs}"
  obtains tb fb L2 where "derive_treasury_shard_pda rt pid i = (ai_key ts, tb)"
    "derive_author_fee_pda rt pid thread j = (ai_key fs, fb)"
    "ensure_fee_shards_initialized rt pid payer ts fs sp thread i j tb fb L = Inr L2"
    "can_pay rt payer L2 n"
    "\<forall>k. k \<notin> {ai_key ts, ai_key fs} \<longrightarrow>
      acc_owner (L2 k) = acc_owner (L k) \<and> acc_data (L2 k) = acc_data (L k)"
proof -
  obtain tb where tb: "derive_treasury_shard_pda rt pid i = (ai_key ts, tb)"
    using assms(3) by (metis prod.collapse)
  obtain fb where fb: "derive_author_fee_pda rt pid thread j = (ai_key fs, fb)"
    using assms(5) by (metis prod.collapse)
  from pay_shard [OF assms(1,2) _ tb [unfolded derive_treasury_shard_pda_def] assms(4) _ assms(7)]
    assms(8) obtain L1 where
    L1: "ensure_shard_initialized rt pid payer ts sp
        [TREASURY_SHARD_SEED, le_bytes 2 (unat i)] tb L = Inr L1"
      "can_pay rt payer L1 (n + unat (rent 0))"
      "\<forall>k. k \<noteq> ai_key ts \<longrightarrow> acc_owner (L1 k) = acc_owner (L k) \<and> acc_data (L1 k) = acc_data (L k)"
    by (auto simp: add.commute mult_2)
  from pay_shard [OF L1(2) assms(2) _ fb [unfolded derive_author_fee_pda_def] assms(6) _ assms(7)]
    assms(8) obtain L2 where
    L2: "ensure_shard_initialized rt pid payer fs sp
        [AUTHOR_FEE_SEED, as_ref thread, [j]] fb L1 = Inr L2" "can_pay rt payer L2 n"
      "\<forall>k. k \<noteq> ai_key fs \<longrightarrow> acc_owner (L2 k) = acc_owner (L1 k) \<and> acc_data (L2 k) = acc_data (L1 k)"
    by auto
  have "ensure_fee_shards_initialized rt pid payer ts fs sp thread i j tb fb L = Inr L2"
    using L1(1) L2(1) by (simp add: ensure_fee_shards_initialized_def)
  from that [OF tb fb this L2(2)] L1(3) L2(3) show thesis by simp
qed

lemma post_live:
  assumes "all_capped rt pid L" "ready_to_post rt pid L accounts body c i j max_fee"
  shows "\<exists>L'. process_fill_slot rt pid accounts kd body [c] i j ra rs max_fee L = Inr L'"
proof -
  from assms(2) obtain payer th st ts fs sp a access entry t s rent now where
    acc: "accounts = [payer, th, st, ts, fs, sp, a, access, entry]"
    and t: "thread_at rt pid L (ai_key th) = Some t" "settings_at rt pid L (ai_key st) = Some s"
    and may: "may_post rt pid L (ai_key th) (tn_author t) (ai_key payer)"
    and rt: "rt_rent rt = Inr rent" "rt_clock rt = Inr now" and len: "length body \<le> MAX_BODY_LEN"
    and slot: "cs_alloc_seq c \<le> tn_last_alloc_seq t" "unat (cs_slot c) < CONTENT_SLOTS"
    and ij: "i < N_TREASURY_SHARDS" "j < N_AUTHOR_FEE_SHARDS"
    and ts: "ai_key ts = fst (derive_treasury_shard_pda rt pid i)" "is_writable ts"
    and fs: "ai_key fs = fst (derive_author_fee_pda rt pid (ai_key th) j)" "is_writable fs"
    and sp: "ai_key sp = rt_system_id rt"
    and a: "ai_key a = fst (derive_content_pda rt pid (ai_key th) (cs_alloc_seq c) (cs_slot c))"
      "is_writable a" "is_uninitialized rt a L"
    and access: "ai_key access = access_address rt pid (ai_key th)"
      "is_uninitialized rt access L \<or>
        (\<exists>x. access_at rt pid L (ai_key access) = Some x \<and> ta_thread x = ai_key th)"
    and entry: "ai_key entry = entry_address rt pid (ai_key th) (ai_key payer)"
      "is_uninitialized rt entry L \<or> (\<exists>e. entry_at rt pid L (ai_key entry) = Some e \<and>
        ae_thread e = ai_key th \<and> ae_wallet e = ai_key payer)"
    and ne: "ai_key payer \<notin> {ai_key a, ai_key ts, ai_key fs}" "ai_key a \<notin> {ai_key ts, ai_key fs}"
    and fee: "unat (rent (ContentNode_size (length body))) * unat (ps_base_fee_bps s) div 10000 +
        unat (tn_message_fee t) \<le> unat max_fee"
    and pay: "can_pay rt payer L (unat (rent (ContentNode_size (length body))) +
        (unat (rent (ContentNode_size (length body))) * unat (ps_base_fee_bps s) div 10000 +
          unat (tn_message_fee t)) + 5 * unat (rent 0))"
    unfolding ready_to_post_def Let_def by (elim exE conjE) (rule that)
  from assms(1) t(2) have st: "ai_key st = fst (derive_settings_pda rt pid)" and capped: "settings_capped s"
    by (auto simp: all_capped_def)
  then have bps: "ps_base_fee_bps s \<le> 10000" "ps_author_fee_cut_bps s \<le> 10000"
    by (auto simp: settings_capped_def MAX_FEE_CUT_BPS_def elim: order_trans)
  from gate_open [OF may access entry] obtain al ex where
    gate: "gating_of rt pid access (ai_key th) L = Inr (gated rt pid L (ai_key th))"
    and standing: "standing_of rt pid entry (ai_key th) payer t L = Inr (al, ex)"
    and al: "gated rt pid L (ai_key th) \<longrightarrow> al" .
  let ?sz = "ContentNode_size (length body)"
  let ?fee = "unat (rent ?sz) * unat (ps_base_fee_bps s) div 10000 + unat (tn_message_fee t)"
  obtain ab where ab:
    "derive_content_pda rt pid (ai_key th) (cs_alloc_seq c) (cs_slot c) = (ai_key a, ab)"
    using a(1) by (metis prod.collapse)
  have "can_pay rt payer L ((unat (rent ?sz) + ?fee + 3 * unat (rent 0)) + 2 * unat (rent 0))"
    by (rule can_pay_le [OF pay]) simp
  from shards_live [OF this rt(1) ts fs sp] ne obtain tb fb L2 where
    tb: "derive_treasury_shard_pda rt pid i = (ai_key ts, tb)"
    and fb: "derive_author_fee_pda rt pid (ai_key th) j = (ai_key fs, fb)"
    and ensure: "ensure_fee_shards_initialized rt pid payer ts fs sp (ai_key th) i j tb fb L = Inr L2"
    and L2: "can_pay rt payer L2 (unat (rent ?sz) + ?fee + 3 * unat (rent 0))"
      "\<forall>k. k \<notin> {ai_key ts, ai_key fs} \<longrightarrow>
        acc_owner (L2 k) = acc_owner (L k) \<and> acc_data (L2 k) = acc_data (L k)"
    by auto
  have free: "is_uninitialized rt a L2"
    using a(3) ne(2) L2(2) by (simp add: is_uninitialized_def owner_def data_def)
  let ?c = "\<lparr>fc_payer = payer, fc_thread_key = ai_key th, fc_thread = t, fc_settings = s,
    fc_treasury_shard = ts, fc_author_fee_shard = fs, fc_system_program = sp,
    fc_fee_exempt = ex, fc_created_at = now, fc_rent = rent, fc_kind = kd, fc_body = body,
    fc_reply_alloc_seq = ra, fc_reply_slot = rs, fc_max_fee = max_fee\<rparr>"
  have "\<exists>L3. fill_candidate rt pid ?c c a ab L2 = Inr L3"
    by (rule fill_live [of ?c _ "unat (rent ?sz) + ?fee + 3 * unat (rent 0)", OF _ _ _ _ _ free a(2) _ _ _ _ _ refl refl])
      (use L2(1) rt bps len ab sp ts(2) fs(2) ne fee in simp_all)
  then obtain L3 where L3: "fill_candidate rt pid ?c c a ab L2 = Inr L3" by blast
  then have loop: "fill_loop rt pid ?c [(c, a)] L2 = Inr L3"
    using slot free ab by (simp add: assert_pda_def not_less not_le)
  have kind_ok: "(if from_u16 kd = Text then text_validate \<lparr>tb_text = body\<rparr> else Inr ()) = Inr ()"
    using len by (simp add: text_validate_def)
  have loads: "load_thread rt pid th L = Inr t" "load_settings rt pid st L = Inr s"
    using t st by (simp_all add: load_thread_iff load_settings_iff)
  have shards: "validate_fee_shards rt pid ts fs (ai_key th) i j = Inr (tb, fb)"
    using ij tb fb by (simp add: validate_fee_shards_iff)
  have guards: "assert_signer payer = Inr ()" "assert_fee_shard_accounts rt ts fs sp = Inr ()"
    "assert_pda access (fst (derive_access_pda rt pid (ai_key th))) = Inr ()"
    "assert_pda entry (fst (derive_access_entry_pda rt pid (ai_key th) (ai_key payer))) = Inr ()"
    using can_payD(1) [OF pay] ts(2) fs(2) sp access(1) entry(1)
    by (simp_all add: assert_fee_shard_accounts_def assert_signer_def assert_writable_def
        assert_system_program_def assert_pda_def access_address_def entry_address_def)
  show ?thesis
    unfolding acc process_fill_slot_def
    using len kind_ok guards loads shards gate standing al ensure rt loop
    by (simp add: Let_def case_prod_beta)
qed

end

section \<open>Properties\<close>

text \<open>C23. A thread's chain is extended finitely often: whatever else happens in between, no history
  holds infinitely many extensions of one thread.\<close>

theorem chains_are_extended_finitely_often:
  assumes "solana rt pid"
  shows "wf {(L', L). \<exists>L1. (step rt pid)\<^sup>*\<^sup>* L L1 \<and> extends rt pid th L1 L'}"
proof (rule wf_subset [OF wf_measure [of "room rt pid th"]], safe)
  fix L L1 L'
  assume "(step rt pid)\<^sup>*\<^sup>* L L1" "extends rt pid th L1 L'"
  then show "(L', L) \<in> measure (room rt pid th)"
    using solana.steps_room [OF assms, of L L1 th] solana.extends_room [OF assms, of th L1 L']
    by simp
qed

theorem chains_are_extended_finitely_often_witness:
  "wf {(L', L). \<exists>L1. (step (ref_rt 0) ref_pid)\<^sup>*\<^sup>* L L1 \<and> extends (ref_rt 0) ref_pid 30 L1 L'}"
  by (rule chains_are_extended_finitely_often [OF ref_runtime.solana_axioms])

text \<open>C16. An admitted wallet can post: in every reachable state, whoever the gate admits and can pay
  for the account and the fees fills a free slot of the thread's chain, whatever sits at the
  vaults' addresses.\<close>

theorem admitted_can_post:
  assumes "solana_live rt pid" "reachable rt pid L"
    and "ready_to_post rt pid L accounts body c i j max_fee"
  shows "\<exists>L'. process_fill_slot rt pid accounts kd body [c] i j ra rs max_fee L = Inr L'"
  using solana_live.post_live [OF assms(1) _ assms(3)]
    solana.books_reachable(4) [OF solana_live.axioms(1) [OF assms(1)] assms(2)] by blast

lemma total_update_le: "total L \<le> n \<Longrightarrow> total (L(k := a)) \<le> n + unat (acc_lamports a)"
  using total_update [of L k a] by linarith

lemma guarded_total: "total guarded < 2 ^ 64"
proof -
  have zero: "total (\<lambda>_. wallet_account 0) \<le> 0" by (simp add: total_def wallet_account_def)
  show ?thesis
    unfolding guarded_def founded_def opened_eq genesis_def
    by (rule order.strict_trans1, (rule total_update_le)+, rule zero)
      (simp add: wallet_account_def program_account_def)
qed

theorem admitted_can_post_witness:
  "\<exists>L'. process_fill_slot (ref_rt 0) ref_pid [signer_info 20, plain_info 30, plain_info 254147,
     plain_info 32017, plain_info 624592, plain_info 0, plain_info 398068, plain_info 870984,
     plain_info 438000] 0 [104, 105] [\<lparr>cs_alloc_seq = 0, cs_slot = 0\<rparr>] 3 1 0 0 1000000 guarded = Inr L'"
proof (rule admitted_can_post [OF ref_runtime.solana_live_axioms history(2) [THEN conjunct1]])
  have t: "thread_at (ref_rt 0) ref_pid guarded 30 = Some found_thread"
    by (simp add: guarded_at founded_at run_simps found_thread_def)
  have s: "settings_at (ref_rt 0) ref_pid guarded 254147 = Some stage_settings"
    by (simp add: guarded_at founded_at run_simps)
  have x: "access_at (ref_rt 0) ref_pid guarded 870984 = Some found_access"
    by (simp add: guarded_at run_simps found_access_def)
  have e: "entry_at (ref_rt 0) ref_pid guarded k = None" for k
    using history(2) by (simp add: unlisted_def)
  have may: "may_post (ref_rt 0) ref_pid guarded 30 20 20"
    by (simp add: may_post_def entry_status_def e)
  have free: "is_uninitialized (ref_rt 0) (plain_info 398068) guarded"
    "is_uninitialized (ref_rt 0) (plain_info 438000) guarded"
    by (simp_all add: guarded_at founded_at run_simps)
  have pay: "can_pay (ref_rt 0) (signer_info 20) guarded 999993523720"
    using guarded_total by (simp add: can_pay_def guarded_at run_simps)
  have info: "ai_key (plain_info k) = k" "is_writable (plain_info k)" "ai_key (signer_info k) = k" for k
    by (simp_all add: plain_info_def signer_info_def)
  show "ready_to_post (ref_rt 0) ref_pid guarded [signer_info 20, plain_info 30, plain_info 254147,
     plain_info 32017, plain_info 624592, plain_info 0, plain_info 398068, plain_info 870984,
     plain_info 438000] [104, 105] \<lparr>cs_alloc_seq = 0, cs_slot = 0\<rparr> 3 1 1000000"
    unfolding ready_to_post_def
    by (rule exI [of _ "signer_info 20"], rule exI [of _ "plain_info 30"],
        rule exI [of _ "plain_info 254147"], rule exI [of _ "plain_info 32017"],
        rule exI [of _ "plain_info 624592"], rule exI [of _ "plain_info 0"],
        rule exI [of _ "plain_info 398068"], rule exI [of _ "plain_info 870984"],
        rule exI [of _ "plain_info 438000"], rule exI [of _ found_thread],
        rule exI [of _ stage_settings], rule exI [of _ ref_rent], rule exI [of _ 0])
      (simp add: t s x may free pay info found_thread_def found_access_def stage_settings_def
        MAX_BODY_LEN_def CONTENT_SLOTS_def N_TREASURY_SHARDS_def N_AUTHOR_FEE_SHARDS_def
        access_address_def entry_address_def ref_system_id_def ref_rent_def size_defs
        can_pay_le [OF pay] unat_of_nat)
qed

text \<open>C18. An author can take a message back at any time: in every reachable state the author's
  signature closes the message's account, whatever the thread, its gate and the settings have
  become since.\<close>

theorem author_can_close:
  assumes "solana_live rt pid" "reachable rt pid L" "content_at rt pid L (ai_key a) = Some n"
    and "is_signer payer" "ai_key payer = ch_author (cn_header n)" "is_writable a"
    and "ai_key payer \<noteq> ai_key a" "unat (lamports L payer) + unat (lamports L a) < 2 ^ 64"
  shows "\<exists>L'. process_close_account rt pid [payer, a] L = Inr L' \<and>
    content_at rt pid L' (ai_key a) = None"
  by (rule solana_live.close_live [OF assms])

theorem author_can_close_witness:
  "\<exists>L'. process_close_account (ref_rt 0) ref_pid [signer_info 20, plain_info 398068] posted = Inr L' \<and>
     content_at (ref_rt 0) ref_pid L' 398068 = None"
proof -
  have "content_at (ref_rt 0) ref_pid posted 398068 = Some found_message"
    by (simp add: posted_at run_simps found_message_def)
  then show ?thesis
    using author_can_close [OF ref_runtime.solana_live_axioms posted_reachable,
        of "plain_info 398068" found_message "signer_info 20"]
    by (simp add: plain_info_def signer_info_def found_message_def posted_at ledger_defs
        wallet_account_def program_account_def)
qed

end
