(* ===== verification/Leaving.thy ===== *)
theory Leaving
  imports Liveness
begin

text \<open>
  Nobody is locked in: in every reachable state a follower can stop following and an access admin
  can take an entry back. The invariants of the reachable states are what makes these calls succeed:
  the accounts they need exist, and are where the handlers look for them.
\<close>

section \<open>Following is counted somewhere\<close>

context solana
begin

lemma follower_is_counted:
  assumes "reachable rt pid L" "registry_at rt pid L k = Some r" "th \<in> set (fr_channels r)"
  obtains s t where "follower_shard_at rt pid L (shard_address rt pid th (follower_shard_index (fr_owner r))) = Some s"
    "fs_thread s = th" "fs_shard s = follower_shard_index (fr_owner r)" "thread_at rt pid L th = Some t"
proof -
  let ?i = "follower_shard_index (fr_owner r)" and ?S = "shard_address rt pid th (follower_shard_index (fr_owner r))"
  have "k \<in> followers_in rt pid L th ?i" using assms(2,3) by (auto simp: followers_in_def)
  then have "card (followers_in rt pid L th ?i) > 0" by (auto simp: card_gt_0_iff)
  then have "follower_count rt pid L ?S th ?i > 0"
    using books_reachable(3) [OF assms(1)] by (simp add: followers_counted_def)
  then obtain s where s: "follower_shard_at rt pid L ?S = Some s" "fs_thread s = th" "fs_shard s = ?i"
    by (auto simp: follower_count_def split: option.splits if_splits)
  have "board rt pid L k = Some (Follows r)" using board_views assms(2) by simp
  then have "fits rt pid (board rt pid L) (Follows r)"
    using wholeD reachable_whole [OF board_of_reachable [OF assms(1)]] by blast
  then obtain t where "thread_at rt pid L th = Some t" using assms(3) board_views by auto
  with s that show thesis by blast
qed

end

section \<open>The calls succeed\<close>

context solana_live
begin

lemma sweep_live:
  assumes "ai_key a \<noteq> ai_key b" "unat (lamports L a) + unat (lamports L b) < 2 ^ 64"
  shows "\<exists>L'. sweep_shard_excess a b m L = Inr L'"
proof -
  have "unat (saturating_sub (lamports L a) m) \<le> unat (lamports L a)"
    by (simp add: unat_saturating_sub)
  with assms have "unat (lamports (set_lamports a m L) b) + unat (saturating_sub (lamports L a) m) < 2 ^ 64"
    by (simp add: lamports_def)
  then show ?thesis by (simp add: sweep_shard_excess_def checked_add_def Let_def)
qed

lemma shrink_live:
  assumes "registry_at rt pid L (ai_key a) = Some r" "length xs < length (fr_channels r)"
  obtains L1 L2 where "rt_resize rt a (FollowRegistry_size (length xs)) L = Inr L1"
    "serialize (follow_registry_codec (rt_borsh rt)) (r\<lparr>fr_channels := xs\<rparr>) a L1 = Inr L2"
    "\<And>k. acc_lamports (L2 k) = acc_lamports (L k)"
proof -
  have r: "try_from_slice (follow_registry_codec (rt_borsh rt)) (data L a) = Some r"
    using assms(1) by (simp add: registry_at_def stored_Some_iff data_def)
  have len: "length (data L a) = FollowRegistry_size (length (fr_channels r))"
    by (rule fmt.registry.try_from_slice_size [OF r])
  have "length (fr_channels r) < 2 ^ 32"
    using fmt.registry.try_from_slice_iff r fmt.encodable_iff(2) by (metis option.distinct(1))
  with assms(2) have "length (fr_channels (r\<lparr>fr_channels := xs\<rparr>)) < 2 ^ 32" by simp
  then have small: "enc (follow_registry_codec (rt_borsh rt)) (r\<lparr>fr_channels := xs\<rparr>) \<noteq> None"
    by (rule fmt.encodable_iff(2) [THEN iffD2])
  have "FollowRegistry_size (length xs) \<le> length (data L a)"
    using assms(2) by (simp add: len size_defs)
  then obtain L1 where L1: "rt_resize rt a (FollowRegistry_size (length xs)) L = Inr L1"
    using resize_live [of "FollowRegistry_size (length xs)" L a] by auto
  have "length (data L1 a) = FollowRegistry_size (length xs)"
    using resize_ok [OF L1] by (simp add: data_def)
  then obtain L2 where "serialize (follow_registry_codec (rt_borsh rt)) (r\<lparr>fr_channels := xs\<rparr>) a L1 = Inr L2"
    using fmt.registry.serialize_succeeds [OF small, where a = a and L = L1] by auto
  moreover from serialize_keeps(2) [OF this] have "acc_lamports (L2 k) = acc_lamports (L k)" for k
    using resize_ok [OF L1] by simp
  ultimately show thesis using that L1 by blast
qed

lemma unsubscribe_live:
  assumes "reachable rt pid L" and r: "registry_at rt pid L (ai_key reg) = Some r"
    and follows: "ai_key th \<in> set (fr_channels r)" and own: "fr_owner r = ai_key user"
    and flags: "is_signer user" "is_writable user" "is_writable reg" "is_writable sh"
    and keys: "ai_key sh = shard_address rt pid (ai_key th) (follower_shard_index (ai_key user))"
      "ai_key sp = rt_system_id rt" "ai_key user \<noteq> ai_key reg"
    and sum: "unat (lamports L user) + unat (lamports L reg) < 2 ^ 64"
  shows "\<exists>L'. process_unsubscribe rt pid [user, reg, sh, th, sp] L = Inr L' \<and>
    ai_key th \<notin> set (follows rt pid L' (ai_key reg))"
proof -
  from follower_is_counted [OF assms(1) r follows] obtain s t where
    s: "follower_shard_at rt pid L (ai_key sh) = Some s" "fs_thread s = ai_key th"
      "fs_shard s = follower_shard_index (ai_key user)"
    and t: "thread_at rt pid L (ai_key th) = Some t"
    unfolding own keys(1) by blast
  have reg: "ai_key reg = fst (derive_follow_registry_pda rt pid (ai_key user))"
    using places_reachable(5) [OF assms(1)] r own
    unfolding registries_placed_def placed_def registry_address_def by metis
  obtain pos where pos: "position (\<lambda>c. c = ai_key th) (fr_channels r) = Some pos"
    using follows position_None_iff by (metis (mono_tags, lifting) not_None_eq)
  let ?r' = "r\<lparr>fr_channels := swap_remove pos (fr_channels r)\<rparr>"
  have "length (swap_remove pos (fr_channels r)) < length (fr_channels r)"
    using position_Some [OF pos] by auto
  from shrink_live [OF r this] obtain L1 L2 where
    L1: "rt_resize rt reg (FollowRegistry_size (length (fr_channels ?r'))) L = Inr L1"
    and L2: "serialize (follow_registry_codec (rt_borsh rt)) ?r' reg L1 = Inr L2"
    and bal: "\<And>k. acc_lamports (L2 k) = acc_lamports (L k)"
    by auto
  from rent_ok obtain rent where rent: "rt_rent rt = Inr rent" by blast
  obtain L3 where L3: "sweep_shard_excess reg user
      (rent (FollowRegistry_size (length (fr_channels ?r')))) L2 = Inr L3"
    using sweep_live [of reg user L2] keys(3) sum by (auto simp: bal lamports_def add.commute)
  have ne: "ai_key sh \<noteq> ai_key reg" using registry_not_shard [OF r] s(1) by auto
  have S: "acc_owner (L3 (ai_key sh)) = acc_owner (L (ai_key sh))"
    "acc_data (L3 (ai_key sh)) = acc_data (L (ai_key sh))"
    using sweep_shard_excess_ok(1,2) [OF L3] serialize_other [OF L2 ne] resize_ok [OF L1] ne by simp_all
  then have s3: "follower_shard_at rt pid L3 (ai_key sh) = Some s"
    using s(1) by (simp add: follower_shard_at_def stored_Some_iff)
  note shape = shard_at_shape [OF s3]
  have load: "load_bound_follower_shard rt pid sh (ai_key th) (follower_shard_index (ai_key user)) L3 = Inr s"
    using s3 s(2,3) by (simp add: load_bound_follower_shard_iff)
  have "length (data L3 sh) = FollowerShard_size" using shape(2) by (simp add: data_def)
  then obtain L4 where L4: "serialize (follower_shard_codec (rt_borsh rt))
      (s\<lparr>fs_count := saturating_sub (fs_count s) 1\<rparr>) sh L3 = Inr L4"
    using fmt.shard.serialize_succeeds [OF fmt.encodable(5), where a = sh and L = L3] by fastforce
  have live: "\<not> is_uninitialized rt sh L3" using owned_initialized shape(1) by (simp add: owner_def)
  have loads: "load_follow_registry rt reg L = Inr r" "load_thread rt pid th L = Inr t"
    and owned: "owner L reg = pid"
    using r t registry_view.view_owner [OF r]
    by (simp_all add: owner_def load_follow_registry_iff load_thread_iff)
  have run: "process_unsubscribe rt pid [user, reg, sh, th, sp] L = Inr L4"
    unfolding process_unsubscribe_def Let_def refund_is_sweep
    using flags keys(1,2) reg loads owned own pos L1 L2 rent L3 live load L4
    by (simp add: derive_split assert_signer_def assert_writable_def assert_system_program_def
        assert_owned_by_def assert_pda_def shard_address_def)
  from unsubscribe_ok [OF run] obtain p where
    "follows rt pid L4 (ai_key reg) = swap_remove p (fr_channels r)"
    "p < length (fr_channels r)" "fr_channels r ! p = ai_key th"
    by (auto simp: follows_def r)
  moreover have "distinct (fr_channels r)"
    using books_reachable(3) [OF assms(1)] r by (simp add: follow_lists_ok_def)
  ultimately have "ai_key th \<notin> set (follows rt pid L4 (ai_key reg))"
    by (simp add: set_swap_remove)
  with run show ?thesis by blast
qed

lemma remove_live:
  assumes "reachable rt pid L" and x: "access_at rt pid L (ai_key access) = Some x"
    and e: "entry_at rt pid L (ai_key entry) = Some e" "ae_thread e = ta_thread x"
    and flags: "is_signer admin" "ai_key admin = ta_admin x" "is_writable admin"
      "is_writable access" "is_writable entry"
    and keys: "ai_key admin \<noteq> ai_key entry"
    and sum: "unat (lamports L admin) + unat (lamports L entry) < 2 ^ 64"
  shows "\<exists>L'. remove_access_entry rt pid admin access entry (ae_wallet e) (ae_status e) L = Inr L' \<and>
    entry_at rt pid L' (ai_key entry) = None"
proof -
  have at: "ai_key access = access_address rt pid (ta_thread x)"
    "ai_key entry = entry_address rt pid (ta_thread x) (ae_wallet e)"
    using places_reachable(3,4) [OF assms(1)] x e
    unfolding access_placed_def entries_placed_def placed_def by metis+
  obtain s where s: "checked_add (lamports L admin) (lamports L entry) = Some s"
    using sum by (auto simp: checked_add_def)
  obtain L1 where L1: "close_program_account rt entry admin L = Inr L1"
    using s resize_live by (fastforce simp: close_program_account_def Let_def attempt_Inr_iff)
  note closed = close_program_account_ok [OF L1 not_sym [OF keys]]
  have ne: "ai_key access \<noteq> ai_key entry" using access_not_entry [OF x] e(1) by auto
  have same: "acc_owner (L1 (ai_key access)) = acc_owner (L (ai_key access))"
    "acc_data (L1 (ai_key access)) = acc_data (L (ai_key access))"
    using closed(5-7) ne by (cases "ai_key access = ai_key admin"; simp add: owner_def data_def)+
  then have x1: "access_at rt pid L1 (ai_key access) = Some x"
    using x by (simp add: access_at_def stored_Some_iff)
  have "\<exists>L2. adjust_whitelist_count rt access n L1 = Inr L2" for n
  proof -
    have own: "owner L1 access = pid" using access_view.view_owner [OF x1] by (simp add: owner_def)
    have "ThreadAccess_size \<le> length (data L1 access)"
      using x1 by (auto simp: access_at_def stored_Some_iff fmt.access.deserialize_iff data_def
          dest!: fmt.access.enc_size)
    moreover have "load_thread_access rt access L1 = Inr x"
      using x1 by (simp add: load_thread_access_iff [OF own])
    ultimately show ?thesis
      using fmt.access.serialize_succeeds [OF fmt.encodable(3), where a = access and L = L1]
      by (simp add: adjust_whitelist_count_def)
  qed
  then obtain L2 where L2: "(if ae_status e = ACCESS_ALLOWED
      then adjust_whitelist_count rt access (- 1) L1 else Inr L1) = Inr L2"
    by (cases "ae_status e = ACCESS_ALLOWED") auto
  have live: "\<not> is_uninitialized rt entry L"
    using owned_initialized entry_view.view_owner [OF e(1)] by (simp add: owner_def)
  have loads: "load_admin_access rt pid admin access L = Inr x"
    "load_bound_access_entry rt pid entry (ta_thread x) (ae_wallet e) L = Inr e"
    using x e flags at by (simp_all add: load_admin_access_iff load_bound_access_entry_iff access_address_def)
  have run: "remove_access_entry rt pid admin access entry (ae_wallet e) (ae_status e) L = Inr L2"
    using flags loads live at(2) L1 L2
    by (simp add: remove_access_entry_def close_access_entry_def derive_split assert_writable_def
        assert_pda_def entry_address_def)
  from remove_access_entry_ok [OF run] have "entry_at rt pid L2 (ai_key entry) = None" by blast
  with run show ?thesis by blast
qed

end

section \<open>An example\<close>

text \<open>In the short history, a wallet follows the thread, and another one gets an entry.\<close>

lemma founded_total: "total founded < 2 ^ 64"
proof -
  have zero: "total (\<lambda>_. wallet_account 0) \<le> 0" by (simp add: total_def wallet_account_def)
  show ?thesis
    unfolding founded_def opened_eq genesis_def
    by (rule order.strict_trans1, (rule total_update_le)+, rule zero)
      (simp add: wallet_account_def program_account_def)
qed

lemma followed:
  "\<exists>L. reachable (ref_rt 0) ref_pid L \<and> total L < 2 ^ 64 \<and>
     registry_at (ref_rt 0) ref_pid L 748063 = Some \<lparr>fr_tag = TAG_FOLLOW_REGISTRY, fr_owner = 20, fr_channels = [30]\<rparr>"
proof -
  let ?accounts = "[signer_info 20, plain_info 748063, plain_info 47511, plain_info 30, plain_info 0]"
  have at: "derive_follow_registry_pda (ref_rt t) ref_pid 20 = (748063, 255)"
    "derive_follower_shard_pda (ref_rt t) ref_pid 30 4 = (47511, 255)" for t
    by (simp_all add: derive_defs seed_defs address_eval)
  have free: "founded 748063 = wallet_account 0" "founded 47511 = wallet_account 0"
    by (simp_all add: founded_def opened_eq genesis_def)
  have "is_ok (process_subscribe (ref_rt 0) ref_pid ?accounts founded)"
    by (simp add: free founded_at found_thread_def at run_simps cong: run_congs)
  then obtain L where run: "process_subscribe (ref_rt 0) ref_pid ?accounts founded = Inr L"
    by (auto simp: is_ok_iff)
  then have "dispatch (ref_rt 0) ref_pid ?accounts Subscribe founded = Inr L"
    by (simp add: dispatch_def)
  moreover have "enc (instruction_codec ref_borsh) Subscribe = Some [27]" by (simp add: wire_bytes)
  ultimately have "reachable (ref_rt 0) ref_pid L"
    using history_call [OF history(1)] by (simp add: tag_defs)
  moreover have "total L < 2 ^ 64"
  proof -
    have "total L = total founded"
      using ref_runtime.subscribe_ok [OF run] by (auto dest: effect_total)
    with founded_total show ?thesis by simp
  qed
  moreover have "registry_at (ref_rt 0) ref_pid founded 748063 = None"
    by (simp add: free run_simps)
  ultimately show ?thesis
    using ref_runtime.subscribe_ok [OF run]
    by (auto simp: signer_info_def plain_info_def follows_def)
qed

lemma listed:
  "\<exists>L. reachable (ref_rt 0) ref_pid L \<and> total L < 2 ^ 64 \<and>
     entry_at (ref_rt 0) ref_pid L 438257 = Some (stage_entry 21 ACCESS_ALLOWED) \<and>
     (\<exists>x. access_at (ref_rt 0) ref_pid L 870984 = Some x \<and> ta_thread x = 30 \<and> ta_admin x = 20)"
proof -
  let ?accounts = "[signer_info 20, plain_info 870984, plain_info 438257, plain_info 0]"
  have "guarded 438257 = wallet_account 0" "guarded 0 = wallet_account 0"
    by (simp_all add: guarded_def founded_def opened_eq genesis_def)
  then have "is_ok (process_add_to_whitelist (ref_rt 0) ref_pid ?accounts 21 guarded)"
    by (simp add: process_add_to_whitelist_def guarded_at found_access_def run_simps cong: run_congs)
  then obtain L where run: "process_add_to_whitelist (ref_rt 0) ref_pid ?accounts 21 guarded = Inr L"
    by (auto simp: is_ok_iff)
  then have "apply_access_entry_status (ref_rt 0) ref_pid (signer_info 20) (plain_info 870984)
      (plain_info 438257) (plain_info 0) 21 ACCESS_ALLOWED guarded = Inr L"
    by (simp add: process_add_to_whitelist_def)
  from ref_runtime.apply_access_entry_status_ok [OF this] obtain x where
    x: "access_at (ref_rt 0) ref_pid guarded 870984 = Some x"
    and e: "entry_at (ref_rt 0) ref_pid L 438257 = Some (entry_for (ta_thread x) 21 ACCESS_ALLOWED)"
    and x': "\<exists>n. access_at (ref_rt 0) ref_pid L 870984 = Some (x\<lparr>ta_whitelist_count := n\<rparr>)"
    and eff: "effect ref_pid {438257, 870984} {20} guarded L"
    by (auto simp: plain_info_def signer_info_def)
  have "access_at (ref_rt 0) ref_pid guarded 870984 = Some found_access"
    by (simp add: guarded_at run_simps found_access_def)
  with x have fa: "x = found_access" by simp
  have only: "entry_at (ref_rt 0) ref_pid L k = None" if "k \<noteq> 438257" for k
  proof -
    have "entry_at (ref_rt 0) ref_pid guarded k = None"
      using history(2) by (simp add: unlisted_def)
    moreover have "k = 870984 \<Longrightarrow> entry_at (ref_rt 0) ref_pid L k = None"
      using x' by (auto dest: ref_runtime.access_not_entry)
    ultimately show ?thesis
      using ref_runtime.entry_view.view_effect [OF eff, of k] that by (cases "k = 870984") simp_all
  qed
  have "card (allowed_entries (ref_rt 0) ref_pid L t) < 2 ^ 32" for t
  proof -
    have "k = 438257" if "k \<in> allowed_entries (ref_rt 0) ref_pid L t" for k
      using only [of k] that by (cases "k = 438257") (simp_all add: allowed_entries_def)
    then have "allowed_entries (ref_rt 0) ref_pid L t \<subseteq> {438257}" by blast
    then have "card (allowed_entries (ref_rt 0) ref_pid L t) \<le> card {438257 :: pubkey}"
      by (rule card_mono [OF finite.insertI [OF finite.emptyI]])
    then show ?thesis by simp
  qed
  then have "countable_lists (ref_rt 0) ref_pid L" by (simp add: countable_lists_def)
  moreover have "step (ref_rt 0) ref_pid guarded L"
  proof -
    have "enc (pair_codec (b_u8 ref_borsh) (b_key ref_borsh)) (10, w) \<noteq> None" for w
      unfolding encodes using ref_format.enc_u8 ref_format.enc_key by simp
    then obtain bytes where "enc (instruction_codec ref_borsh) (AddToWhitelist 21) = Some bytes"
      by (fastforce simp: instruction_codec_def variant_enc_def simp del: ref_borsh_simps)
    then have "process_instruction (ref_rt 0) ref_pid ?accounts bytes guarded = Inr L"
      using run ref_runtime.process_instruction_enc [of 0 "AddToWhitelist 21" bytes ?accounts guarded]
      by (simp add: dispatch_def)
    then show ?thesis by (intro step.call [of 0 ref_rent]) (simp_all add: ref_time)
  qed
  ultimately have "reachable (ref_rt 0) ref_pid L"
    using history(2) reachable.more by blast
  moreover have "total L < 2 ^ 64" using effect_total [OF eff] guarded_total by simp
  ultimately show ?thesis using e x' fa
    by (auto simp: found_access_def entry_for_def stage_entry_def)
qed

section \<open>Properties\<close>

text \<open>C21. A follower can always leave: in every reachable state a wallet takes any thread off its
  follow list again; the thread, its list and the follower count are all still there to be
  updated.\<close>

theorem follower_can_leave:
  assumes "solana_live rt pid" "reachable rt pid L"
    and "registry_at rt pid L (ai_key reg) = Some r" "ai_key th \<in> set (fr_channels r)"
    and "fr_owner r = ai_key user" "is_signer user" "is_writable user" "is_writable reg" "is_writable sh"
    and "ai_key sh = shard_address rt pid (ai_key th) (follower_shard_index (ai_key user))"
    and "ai_key sp = rt_system_id rt" "ai_key user \<noteq> ai_key reg"
    and "unat (lamports L user) + unat (lamports L reg) < 2 ^ 64"
  shows "\<exists>L'. process_unsubscribe rt pid [user, reg, sh, th, sp] L = Inr L' \<and>
    ai_key th \<notin> set (follows rt pid L' (ai_key reg))"
  by (rule solana_live.unsubscribe_live [OF assms])

theorem follower_can_leave_witness:
  "\<exists>L L'. reachable (ref_rt 0) ref_pid L \<and> follows (ref_rt 0) ref_pid L 748063 = [30] \<and>
     process_unsubscribe (ref_rt 0) ref_pid [signer_info 20, plain_info 748063, plain_info 47511,
       plain_info 30, plain_info 0] L = Inr L' \<and> 30 \<notin> set (follows (ref_rt 0) ref_pid L' 748063)"
proof -
  from followed obtain L where L: "reachable (ref_rt 0) ref_pid L" "total L < 2 ^ 64"
    and r: "registry_at (ref_rt 0) ref_pid L 748063 =
      Some \<lparr>fr_tag = TAG_FOLLOW_REGISTRY, fr_owner = 20, fr_channels = [30]\<rparr>" by blast
  have shard: "shard_address (ref_rt 0) ref_pid 30 (follower_shard_index 20) = 47511"
    by (simp add: shard_address_def follower_shard_index_def N_FOLLOWER_SHARDS_def derive_defs
        seed_defs address_eval)
  have "unat (acc_lamports (L 20)) + unat (acc_lamports (L 748063)) < 2 ^ 64"
    using balances_le_total [of 20 748063 L] L(2) by simp
  then have "\<exists>L'. process_unsubscribe (ref_rt 0) ref_pid [signer_info 20, plain_info 748063,
      plain_info 47511, plain_info 30, plain_info 0] L = Inr L' \<and>
      30 \<notin> set (follows (ref_rt 0) ref_pid L' 748063)"
    using follower_can_leave [OF ref_runtime.solana_live_axioms L(1), of "plain_info 748063" _
        "plain_info 30" "signer_info 20" "plain_info 47511" "plain_info 0"] r shard
    by (simp add: plain_info_def signer_info_def lamports_def ref_system_id_def)
  moreover have "follows (ref_rt 0) ref_pid L 748063 = [30]" by (simp add: follows_def r)
  ultimately show ?thesis using L(1) by blast
qed

text \<open>C22. An access admin can take back any entry of the thread: in every reachable state the admin's
  signature removes a wallet's entry, whatever its status, and gets its rent.\<close>

theorem admin_can_take_back:
  assumes "solana_live rt pid" "reachable rt pid L"
    and "access_at rt pid L (ai_key access) = Some x"
    and "entry_at rt pid L (ai_key entry) = Some e" "ae_thread e = ta_thread x"
    and "is_signer admin" "ai_key admin = ta_admin x" "is_writable admin"
    and "is_writable access" "is_writable entry" "ai_key admin \<noteq> ai_key entry"
    and "unat (lamports L admin) + unat (lamports L entry) < 2 ^ 64"
  shows "\<exists>L'. remove_access_entry rt pid admin access entry (ae_wallet e) (ae_status e) L = Inr L' \<and>
    entry_at rt pid L' (ai_key entry) = None"
  by (rule solana_live.remove_live [OF assms])

theorem admin_can_take_back_witness:
  "\<exists>L L'. reachable (ref_rt 0) ref_pid L \<and>
     entry_at (ref_rt 0) ref_pid L 438257 = Some (stage_entry 21 ACCESS_ALLOWED) \<and>
     remove_access_entry (ref_rt 0) ref_pid (signer_info 20) (plain_info 870984)
       (plain_info 438257) 21 ACCESS_ALLOWED L = Inr L' \<and>
     entry_at (ref_rt 0) ref_pid L' 438257 = None"
proof -
  from listed obtain L x where L: "reachable (ref_rt 0) ref_pid L" "total L < 2 ^ 64"
    and e: "entry_at (ref_rt 0) ref_pid L 438257 = Some (stage_entry 21 ACCESS_ALLOWED)"
    and x: "access_at (ref_rt 0) ref_pid L 870984 = Some x" "ta_thread x = 30" "ta_admin x = 20"
    by blast
  have "unat (acc_lamports (L 20)) + unat (acc_lamports (L 438257)) < 2 ^ 64"
    using balances_le_total [of 20 438257 L] L(2) by simp
  then have "\<exists>L'. remove_access_entry (ref_rt 0) ref_pid (signer_info 20) (plain_info 870984)
      (plain_info 438257) 21 ACCESS_ALLOWED L = Inr L' \<and> entry_at (ref_rt 0) ref_pid L' 438257 = None"
    using admin_can_take_back [OF ref_runtime.solana_live_axioms L(1), of "plain_info 870984" x
        "plain_info 438257" "stage_entry 21 ACCESS_ALLOWED" "signer_info 20"] e x
    by (simp add: plain_info_def signer_info_def lamports_def stage_entry_def)
  with L(1) e show ?thesis by blast
qed

end
