(* ===== verification/Growing.thy ===== *)
theory Growing
  imports Leaving
begin

text \<open>
  What anyone who pays can do, in every reachable state: extend a thread's chain, up to the last
  number but one of its counter, and follow a thread.
\<close>

lemma can_pay_same:
  "can_pay rt a L n \<Longrightarrow> L' (ai_key a) = L (ai_key a) \<Longrightarrow> total L' = total L \<Longrightarrow> can_pay rt a L' n"
  by (simp add: can_pay_def owner_def data_def lamports_def)

context solana_live
begin

lemma pay_serialize:
  assumes "can_pay rt a L n" "enc c x \<noteq> None" "codec c size_of" "size_of x \<le> length (data L d)"
    and "ai_key d \<noteq> ai_key a"
  obtains L' where "serialize c x d L = Inr L'" "can_pay rt a L' n"
    "\<And>k. k \<noteq> ai_key d \<Longrightarrow> L' k = L k"
proof -
  from codec.serialize_succeeds [OF assms(3,2,4)] obtain L' where run: "serialize c x d L = Inr L'" by blast
  have "total L' = total L"
    using effect_total [OF serialize_effect [OF run, of UNIV pid "{}"]] by simp
  with that [OF run] can_pay_same [OF assms(1)] serialize_other [OF run] assms(5) show thesis by metis
qed

section \<open>Extending a chain\<close>

lemma prepare_live:
  assumes "reachable rt pid L" and t: "thread_at rt pid L (ai_key th) = Some t"
    and cur: "ai_key cur = chain_address rt pid (ai_key th) (tn_last_alloc_seq t)" "is_writable cur"
    and new: "ai_key new = chain_address rt pid (ai_key th) (tn_last_alloc_seq t + 1)"
      "is_writable new" "is_uninitialized rt new L"
    and th: "is_writable th" and sp: "ai_key sp = rt_system_id rt"
    and pay: "rt_rent rt = Inr rent" "can_pay rt payer L (unat (rent AllocNode_size))"
      "ai_key new \<noteq> ai_key payer"
    and room: "unat (tn_last_alloc_seq t) + 2 < 2 ^ 32"
  shows "\<exists>L'. process_prepare_alloc rt pid [payer, cur, new, th, sp] (tn_last_alloc_seq t) L = Inr L'"
proof -
  let ?q = "tn_last_alloc_seq t" and ?n = "\<lambda>q. \<lparr>an_tag = TAG_ALLOC, an_thread = ai_key th, an_alloc_seq = q\<rparr>"
  from books_reachable(1) [OF assms(1)] t
  have count: "unat (tn_alloc_count t) = unat ?q + 1"
    and node: "alloc_at rt pid L (ai_key cur) = Some (?n ?q)"
    by (simp_all add: chains_def cur(1))
  have next_seq: "checked_add ?q 1 = Some (?q + 1)" "checked_add (tn_alloc_count t) 1 = Some (tn_alloc_count t + 1)"
    using room count by (simp_all add: checked_add_Some_iff)
  obtain bump where bump: "derive_alloc_pda rt pid (ai_key th) (?q + 1) = (ai_key new, bump)"
    using new(1) by (metis chain_address_def prod.collapse)
  have size: "AllocNode_size \<le> max_data_increase" "AllocNode_size < 2 ^ 64"
    by (simp_all add: size_defs max_data_increase_def)
  from pay_create [OF pay(2,1) order_refl bump [unfolded derive_alloc_pda_def] new(2,3) pay(3) sp size(1)]
  obtain L1 where L1: "create_pda_account rt pid payer new sp AllocNode_size
      [ALLOC_SEED, as_ref (ai_key th), le_bytes 4 (unat (?q + 1)), [bump]] L = Inr L1" by auto
  note made = create_pda_account_ok [OF L1 size(2)]
  obtain L2 where L2: "serialize (alloc_node_codec (rt_borsh rt)) (?n (?q + 1)) new L1 = Inr L2"
    using fmt.alloc.serialize_succeeds [OF fmt.encodable(1), where a = new and L = L1] made(4) by auto
  have ne: "ai_key th \<noteq> ai_key new"
    using owned_initialized [of L th] thread_view.view_owner [OF t] new(3)
    by (auto simp: owner_def is_uninitialized_def data_def)
  have bytes: "try_from_slice (thread_node_codec (rt_borsh rt)) (data L th) = Some t"
    using t by (simp add: thread_at_def stored_Some_iff data_def)
  have "length (data L th) = ThreadNode_size (length (tn_title t))"
    by (rule fmt.thread.try_from_slice_size [OF bytes])
  moreover have "data L2 th = data L th"
    using serialize_other [OF L2 ne] made(6) [OF ne] by (simp add: data_def)
  moreover have "length (tn_title t) < 2 ^ 32"
    using fmt.thread.try_from_slice_iff bytes fmt.encodable_iff(1) by (metis option.distinct(1))
  ultimately obtain L3 where L3: "serialize (thread_node_codec (rt_borsh rt))
      (t\<lparr>tn_alloc_count := tn_alloc_count t + 1, tn_last_alloc_seq := ?q + 1\<rparr>) th L2 = Inr L3"
    using fmt.thread.serialize_succeeds [OF fmt.encodable_iff(1) [THEN iffD2], where a = th and L = L2]
    by fastforce
  have loads: "load_thread rt pid th L = Inr t" "load_alloc rt pid cur L = Inr (?n ?q)"
    using t node cur(1) by (simp_all add: load_thread_iff load_alloc_iff chain_address_def)
  show ?thesis
    using can_payD(1) [OF pay(2)] cur(2) new(2,3) th sp loads next_seq bump L1 L2 L3
    by (simp add: process_prepare_alloc_def Let_def assert_signer_def assert_writable_def
        assert_system_program_def assert_pda_def assert_uninitialized_def is_uninitialized_def)
qed

text \<open>The count of a chain's nodes is one ahead of the last number, and is a \<open>u32\<close> too.\<close>

lemma prepare_room:
  assumes "reachable rt pid L" "thread_at rt pid L (ai_key th) = Some t"
    and "process_prepare_alloc rt pid [payer, cur, new, th, sp] q L = Inr L'"
  shows "unat (tn_last_alloc_seq t) + 2 < 2 ^ 32"
proof -
  from books_reachable(1) [OF assms(1)] assms(2)
  have "unat (tn_alloc_count t) = unat (tn_last_alloc_seq t) + 1" by (simp add: chains_def)
  with prepare_alloc_ok [OF assms(3)] assms(2) show ?thesis by auto
qed

section \<open>Following\<close>

lemma pay_rent:
  assumes "can_pay rt a L n" "rt_rent rt = Inr rent" "unat (rent sz) \<le> n"
    and "is_writable d" "ai_key d \<noteq> ai_key a"
  obtains L' where "ensure_rent_exempt rt a d sz L = Inr L'"
    "can_pay rt a L' (n - unat (rent sz))"
    "\<And>k. acc_owner (L' k) = acc_owner (L k) \<and> acc_data (L' k) = acc_data (L k)"
proof (cases "rent sz \<le> lamports L d")
  case True
  with that [of L] can_pay_le [OF assms(1)] assms(2) show thesis
    by (simp add: ensure_rent_exempt_def)
next
  case False
  let ?top = "rent sz - lamports L d"
  from False have top: "unat ?top \<le> unat (rent sz)" "0 < ?top"
    by (simp_all add: unat_sub_le not_le word_neq_0_conv [symmetric])
  then obtain L' where run: "rt_transfer rt a d ?top L = Inr L'" and pay: "can_pay rt a L' (n - unat ?top)"
    using pay_transfer [OF assms(1) _ assms(4,5), of ?top] assms(3) by auto
  have "ensure_rent_exempt rt a d sz L = Inr L'"
    using False order_less_not_sym [OF not_le_imp_less [OF False]] top(2) run assms(2)
    by (simp add: ensure_rent_exempt_def Let_def)
  moreover have "can_pay rt a L' (n - unat (rent sz))"
    by (rule can_pay_le [OF pay]) (use top(1) in simp)
  ultimately show thesis using that transfer_contents [OF run] by blast
qed

lemma open_registry_live:
  assumes "can_pay rt user L n" "rt_rent rt = Inr rent" "unat (rent (FollowRegistry_size 0)) \<le> n"
    and reg: "ai_key reg = registry_address rt pid (ai_key user)" "is_writable reg"
      "ai_key reg \<noteq> ai_key user"
    and sp: "ai_key sp = rt_system_id rt"
    and old: "is_uninitialized rt reg L \<or>
      (\<exists>r. registry_at rt pid L (ai_key reg) = Some r \<and> fr_owner r = ai_key user)"
  obtains r L2 where "open_registry rt pid user reg sp L = Inr (r, L2)"
    "can_pay rt user L2 (n - unat (rent (FollowRegistry_size 0)))"
    "\<And>k. k \<noteq> ai_key reg \<Longrightarrow> acc_owner (L2 k) = acc_owner (L k) \<and> acc_data (L2 k) = acc_data (L k)"
proof (cases "is_uninitialized rt reg L")
  case True
  obtain bump where bump: "derive_follow_registry_pda rt pid (ai_key user) = (ai_key reg, bump)"
    using reg(1) by (metis registry_address_def prod.collapse)
  have size: "FollowRegistry_size 0 \<le> max_data_increase" "FollowRegistry_size 0 < 2 ^ 64"
    by (simp_all add: size_defs max_data_increase_def)
  from pay_create [OF assms(1-3) bump [unfolded derive_follow_registry_pda_def] reg(2) True reg(3) sp size(1)]
  obtain L1 where L1: "create_pda_account rt pid user reg sp (FollowRegistry_size 0)
      [FOLLOWS_SEED, as_ref (ai_key user), [bump]] L = Inr L1"
    and pay: "can_pay rt user L1 (n - unat (rent (FollowRegistry_size 0)))" by auto
  note made = create_pda_account_ok [OF L1 size(2)]
  have "enc (follow_registry_codec (rt_borsh rt)) (empty_registry (ai_key user)) \<noteq> None"
    by (rule fmt.encodable_iff(2) [THEN iffD2]) simp
  from pay_serialize [OF pay this fmt.registry.codec_axioms _ reg(3)] made(4) obtain L2 where
    L2: "serialize (follow_registry_codec (rt_borsh rt)) (empty_registry (ai_key user)) reg L1 = Inr L2"
      "can_pay rt user L2 (n - unat (rent (FollowRegistry_size 0)))"
      "\<And>k. k \<noteq> ai_key reg \<Longrightarrow> L2 k = L1 k"
    by auto
  show thesis
    by (rule that [of "empty_registry (ai_key user)" L2])
      (use True L1 L2 made(6) bump in simp_all)
next
  case False
  with old obtain r where r: "registry_at rt pid L (ai_key reg) = Some r" "fr_owner r = ai_key user"
    by blast
  have own: "owner L reg = pid" using registry_view.view_owner [OF r(1)] by (simp add: owner_def)
  have load: "load_follow_registry rt reg L = Inr r" using r(1) by (simp add: load_follow_registry_iff [OF own])
  show thesis
    by (rule that [of r L])
      (use False own load r(2) can_pay_le [OF assms(1)] in \<open>simp_all add: assert_owned_by_def\<close>)
qed

lemma count_follower_live:
  assumes "can_pay rt user L n" "rt_rent rt = Inr rent" "unat (rent FollowerShard_size) \<le> n"
    and sh: "ai_key sh = shard_address rt pid thread i" "is_writable sh" "ai_key sh \<noteq> ai_key user"
    and sp: "ai_key sp = rt_system_id rt"
    and old: "is_uninitialized rt sh L \<or> (\<exists>s. follower_shard_at rt pid L (ai_key sh) = Some s \<and>
      fs_thread s = thread \<and> fs_shard s = i \<and> unat (fs_count s) + 1 < 2 ^ 64)"
  shows "\<exists>L'. count_follower rt pid user sh sp thread i L = Inr L'"
proof (cases "is_uninitialized rt sh L")
  case True
  obtain bump where bump: "derive_follower_shard_pda rt pid thread i = (ai_key sh, bump)"
    using sh(1) by (metis shard_address_def prod.collapse)
  have size: "FollowerShard_size \<le> max_data_increase" "FollowerShard_size < 2 ^ 64"
    by (simp_all add: size_defs max_data_increase_def)
  from pay_create [OF assms(1-3) bump [unfolded derive_follower_shard_pda_def] sh(2) True sh(3) sp size(1)]
  obtain L1 where L1: "create_pda_account rt pid user sh sp FollowerShard_size
      [FOLLOWER_COUNT_SEED, as_ref thread, [i], [bump]] L = Inr L1" by auto
  note made = create_pda_account_ok [OF L1 size(2)]
  have "\<exists>L'. serialize (follower_shard_codec (rt_borsh rt)) (first_follower thread i) sh L1 = Inr L'"
    by (rule fmt.shard.serialize_succeeds [OF fmt.encodable(5)]) (simp add: made(4))
  with True L1 bump show ?thesis by simp
next
  case False
  with old obtain s where s: "follower_shard_at rt pid L (ai_key sh) = Some s"
      "fs_thread s = thread" "fs_shard s = i" "unat (fs_count s) + 1 < 2 ^ 64" by blast
  have load: "load_bound_follower_shard rt pid sh thread i L = Inr s"
    using s by (simp add: load_bound_follower_shard_iff)
  have n: "checked_add (fs_count s) 1 = Some (fs_count s + 1)"
    using s(4) by (simp add: checked_add_Some_iff)
  have "\<exists>L'. serialize (follower_shard_codec (rt_borsh rt)) (s\<lparr>fs_count := fs_count s + 1\<rparr>) sh L = Inr L'"
    by (rule fmt.shard.serialize_succeeds [OF fmt.encodable(5)])
      (use shard_at_shape(2) [OF s(1)] in \<open>simp add: data_def\<close>)
  with False load n show ?thesis by simp
qed

lemma subscribe_live:
  assumes "reachable rt pid L" and t: "thread_at rt pid L (ai_key th) = Some t"
    and rent: "rt_rent rt = Inr rent"
    and reg: "ai_key reg = registry_address rt pid (ai_key user)" "is_writable reg"
      "is_uninitialized rt reg L \<or>
        (\<exists>r. registry_at rt pid L (ai_key reg) = Some r \<and> fr_owner r = ai_key user)"
    and sh: "ai_key sh = shard_address rt pid (ai_key th) (follower_shard_index (ai_key user))"
      "is_writable sh"
      "is_uninitialized rt sh L \<or> (\<exists>s. follower_shard_at rt pid L (ai_key sh) = Some s \<and>
        fs_thread s = ai_key th \<and> fs_shard s = follower_shard_index (ai_key user) \<and>
        unat (fs_count s) + 1 < 2 ^ 64)"
    and sp: "ai_key sp = rt_system_id rt"
    and ne: "distinct [ai_key user, ai_key reg, ai_key sh]"
    and new: "ai_key th \<notin> set (follows rt pid L (ai_key reg))"
      "length (follows rt pid L (ai_key reg)) < MAX_FOLLOWS"
    and pay: "can_pay rt user L (unat (rent (FollowRegistry_size 0)) +
      unat (rent (FollowRegistry_size (length (follows rt pid L (ai_key reg)) + 1))) +
      unat (rent FollowerShard_size))"
  shows "\<exists>L'. process_subscribe rt pid [user, reg, sh, th, sp] L = Inr L'"
proof -
  let ?n0 = "unat (rent (FollowRegistry_size 0))" and ?n2 = "unat (rent FollowerShard_size)"
  let ?sz = "FollowRegistry_size (length (follows rt pid L (ai_key reg)) + 1)"
  have user: "ai_key reg \<noteq> ai_key user" using ne by auto
  from open_registry_live [OF pay rent _ reg(1,2) user sp reg(3)] obtain r L2 where
    L2: "open_registry rt pid user reg sp L = Inr (r, L2)"
    and pay2: "can_pay rt user L2 (unat (rent ?sz) + ?n2)"
    and keep2: "\<And>k. k \<noteq> ai_key reg \<Longrightarrow> acc_owner (L2 k) = acc_owner (L k) \<and> acc_data (L2 k) = acc_data (L k)"
    by (auto simp: add.assoc)
  note o = open_registry_ok [OF L2]
  then have r: "registry_at rt pid L2 (ai_key reg) = Some r" "fr_owner r = ai_key user"
    "fr_channels r = follows rt pid L (ai_key reg)" by simp_all
  let ?r' = "r\<lparr>fr_channels := fr_channels r @ [ai_key th]\<rparr>"
  have sz: "FollowRegistry_size (length (fr_channels ?r')) = ?sz" by (simp add: r(3))
  have "try_from_slice (follow_registry_codec (rt_borsh rt)) (data L2 reg) = Some r"
    using r(1) by (simp add: registry_at_def stored_Some_iff data_def)
  from fmt.registry.try_from_slice_size [OF this]
  have "?sz \<le> length (data L2 reg) + max_data_increase"
    by (simp add: r(3) size_defs max_data_increase_def)
  then obtain L3 where L3: "rt_resize rt reg ?sz L2 = Inr L3" using resize_live by blast
  note grown = resize_ok [OF L3]
  have "can_pay rt user L3 (unat (rent ?sz) + ?n2)"
    using ne by (intro can_pay_same [OF pay2]) (simp_all add: grown)
  from pay_rent [OF this rent le_add1 reg(2) user] obtain L4 where
    L4: "ensure_rent_exempt rt user reg ?sz L3 = Inr L4" "can_pay rt user L4 ?n2"
    and keep4: "\<And>k. acc_owner (L4 k) = acc_owner (L3 k) \<and> acc_data (L4 k) = acc_data (L3 k)"
    by auto
  have small: "enc (follow_registry_codec (rt_borsh rt)) ?r' \<noteq> None"
    by (rule fmt.encodable_iff(2) [THEN iffD2]) (use new(2) r(3) in \<open>simp add: MAX_FOLLOWS_def\<close>)
  have "length (data L4 reg) = ?sz" using keep4 by (simp add: data_def grown)
  then have fits: "FollowRegistry_size (length (fr_channels ?r')) \<le> length (data L4 reg)"
    using sz by simp
  from pay_serialize [OF L4(2) small fmt.registry.codec_axioms fits user] obtain L5 where
    L5: "serialize (follow_registry_codec (rt_borsh rt)) ?r' reg L4 = Inr L5" "can_pay rt user L5 ?n2"
      "\<And>k. k \<noteq> ai_key reg \<Longrightarrow> L5 k = L4 k"
    by blast
  have same: "acc_owner (L5 (ai_key sh)) = acc_owner (L (ai_key sh))"
    "acc_data (L5 (ai_key sh)) = acc_data (L (ai_key sh))"
    using ne L5(3) keep4 keep2 by (auto simp: grown)
  then have "is_uninitialized rt sh L5 = is_uninitialized rt sh L"
    "follower_shard_at rt pid L5 (ai_key sh) = follower_shard_at rt pid L (ai_key sh)"
    by (simp_all add: is_uninitialized_def owner_def data_def follower_shard_at_def stored_def)
  with count_follower_live [OF L5(2) rent order_refl sh(1,2) _ sp] sh(3) ne obtain L6 where
    L6: "count_follower rt pid user sh sp (ai_key th) (follower_shard_index (ai_key user)) L5 = Inr L6"
    by auto
  have fresh: "\<not> list_ex (\<lambda>c. c = ai_key th) (fr_channels r)" "\<not> MAX_FOLLOWS \<le> length (fr_channels r)"
    using new by (auto simp: r(3) list_ex_iff)
  have guards: "assert_signer user = Inr ()" "assert_writable user = Inr ()"
    "assert_writable reg = Inr ()" "assert_writable sh = Inr ()" "assert_system_program rt sp = Inr ()"
    "assert_pda reg (fst (derive_follow_registry_pda rt pid (ai_key user))) = Inr ()"
    "assert_pda sh (fst (derive_follower_shard_pda rt pid (ai_key th) (follower_shard_index (ai_key user)))) = Inr ()"
    "load_thread rt pid th L = Inr t"
    using can_payD(1,2) [OF pay] reg(1,2) sh(1,2) sp t
    by (simp_all add: assert_Inr_iffs load_thread_iff registry_address_def shard_address_def)
  show ?thesis
    unfolding process_subscribe_def Let_def
    using guards L2 fresh L3 L4(1) L5(1) L6 sz
    by (simp add: derive_split)
qed

end

section \<open>Properties\<close>

lemma example:
  "can_pay (ref_rt 0) (signer_info 20) guarded 999993523720"
  "thread_at (ref_rt 0) ref_pid guarded 30 = Some found_thread"
  "guarded 26448 = wallet_account 0" "guarded 748063 = wallet_account 0" "guarded 47511 = wallet_account 0"
proof -
  show "can_pay (ref_rt 0) (signer_info 20) guarded 999993523720"
    using guarded_total by (simp add: can_pay_def guarded_at run_simps)
  show "thread_at (ref_rt 0) ref_pid guarded 30 = Some found_thread"
    by (simp add: guarded_at founded_at run_simps found_thread_def)
  show "guarded 26448 = wallet_account 0" "guarded 748063 = wallet_account 0"
    "guarded 47511 = wallet_account 0"
    by (simp_all add: guarded_def founded_def opened_eq genesis_def)
qed

lemma info_fields: "ai_key (plain_info k) = k" "is_writable (plain_info k)" "ai_key (signer_info k) = k"
  by (simp_all add: plain_info_def signer_info_def)

lemma unused: "guarded k = wallet_account 0 \<Longrightarrow> is_uninitialized (ref_rt t) (plain_info k) guarded"
  by (simp add: is_uninitialized_def owner_def data_def plain_info_def wallet_account_def)

text \<open>C19. A chain can be extended as long as its numbers last: in every reachable state whoever pays the
  rent adds the next node, exactly while two more numbers fit into a \<open>u32\<close>, because the node
  count is one ahead of the last number.\<close>

theorem chain_can_be_extended:
  assumes "solana_live rt pid" "reachable rt pid L" "thread_at rt pid L (ai_key th) = Some t"
    and "ai_key cur = chain_address rt pid (ai_key th) (tn_last_alloc_seq t)" "is_writable cur"
    and "ai_key new = chain_address rt pid (ai_key th) (tn_last_alloc_seq t + 1)" "is_writable new"
    and "is_uninitialized rt new L" "is_writable th" "ai_key sp = rt_system_id rt"
    and "rt_rent rt = Inr rent" "can_pay rt payer L (unat (rent AllocNode_size))"
    and "ai_key new \<noteq> ai_key payer"
  shows "(\<exists>L'. process_prepare_alloc rt pid [payer, cur, new, th, sp] (tn_last_alloc_seq t) L = Inr L') \<longleftrightarrow>
    unat (tn_last_alloc_seq t) + 2 < 2 ^ 32"
  using solana_live.prepare_live [OF assms] solana_live.prepare_room [OF assms(1-3)] by blast

theorem chain_can_be_extended_witness:
  "\<exists>L'. process_prepare_alloc (ref_rt 0) ref_pid [signer_info 20, plain_info 26191, plain_info 26448,
     plain_info 30, plain_info 0] 0 guarded = Inr L'"
proof -
  have pay: "can_pay (ref_rt 0) (signer_info 20) guarded (unat (ref_rent AllocNode_size))"
    by (rule can_pay_le [OF example(1)]) (simp add: ref_rent_def size_defs unat_of_nat)
  show ?thesis
    using chain_can_be_extended [OF ref_runtime.solana_live_axioms history(2) [THEN conjunct1],
        of "plain_info 30" found_thread "plain_info 26191" "plain_info 26448" "plain_info 0" ref_rent
        "signer_info 20"] example(2,3) pay
    by (simp add: info_fields unused found_thread_def chain_address_def ref_system_id_def)
qed

text \<open>C20. Anyone can follow a thread: in every reachable state a wallet that pays for the accounts
  gets a thread onto its list, if it is not there and the list has room, whether or not the list
  and the counter exist already, and whatever lamports sit at their addresses.\<close>

theorem anyone_can_follow:
  assumes "solana_live rt pid" "reachable rt pid L" "thread_at rt pid L (ai_key th) = Some t"
    and "rt_rent rt = Inr rent"
    and "ai_key reg = registry_address rt pid (ai_key user)" "is_writable reg"
    and "is_uninitialized rt reg L \<or>
      (\<exists>r. registry_at rt pid L (ai_key reg) = Some r \<and> fr_owner r = ai_key user)"
    and "ai_key sh = shard_address rt pid (ai_key th) (follower_shard_index (ai_key user))"
    and "is_writable sh"
    and "is_uninitialized rt sh L \<or> (\<exists>s. follower_shard_at rt pid L (ai_key sh) = Some s \<and>
      fs_thread s = ai_key th \<and> fs_shard s = follower_shard_index (ai_key user) \<and>
      unat (fs_count s) + 1 < 2 ^ 64)"
    and "ai_key sp = rt_system_id rt" "distinct [ai_key user, ai_key reg, ai_key sh]"
    and "ai_key th \<notin> set (follows rt pid L (ai_key reg))"
    and "length (follows rt pid L (ai_key reg)) < MAX_FOLLOWS"
    and "can_pay rt user L (unat (rent (FollowRegistry_size 0)) +
      unat (rent (FollowRegistry_size (length (follows rt pid L (ai_key reg)) + 1))) +
      unat (rent FollowerShard_size))"
  shows "\<exists>L'. process_subscribe rt pid [user, reg, sh, th, sp] L = Inr L' \<and>
    follows rt pid L' (ai_key reg) = follows rt pid L (ai_key reg) @ [ai_key th]"
proof -
  from solana_live.subscribe_live [OF assms] obtain L' where
    run: "process_subscribe rt pid [user, reg, sh, th, sp] L = Inr L'" by blast
  from solana.subscribe_ok [OF solana_live.axioms(1) [OF assms(1)] run] run show ?thesis
    by (auto simp: follows_def [of rt pid L'])
qed

theorem anyone_can_follow_witness:
  "\<exists>L'. process_subscribe (ref_rt 0) ref_pid [signer_info 20, plain_info 748063, plain_info 47511,
     plain_info 30, plain_info 0] guarded = Inr L' \<and> follows (ref_rt 0) ref_pid L' 748063 = [30]"
proof -
  have at: "registry_address (ref_rt 0) ref_pid 20 = 748063"
    "shard_address (ref_rt 0) ref_pid 30 (follower_shard_index 20) = 47511"
    by (simp_all add: registry_address_def shard_address_def follower_shard_index_def
        N_FOLLOWER_SHARDS_def derive_defs seed_defs address_eval)
  have none: "follows (ref_rt 0) ref_pid guarded 748063 = []"
    by (simp add: follows_def example(4) run_simps)
  have pay: "can_pay (ref_rt 0) (signer_info 20) guarded (unat (ref_rent (FollowRegistry_size 0)) +
      unat (ref_rent (FollowRegistry_size 1)) + unat (ref_rent FollowerShard_size))"
    by (rule can_pay_le [OF example(1)]) (simp add: ref_rent_def size_defs unat_of_nat)
  show ?thesis
    using anyone_can_follow [OF ref_runtime.solana_live_axioms history(2) [THEN conjunct1],
        of "plain_info 30" found_thread ref_rent "plain_info 748063" "signer_info 20"
        "plain_info 47511" "plain_info 0"] example(2,4,5) pay none at
    by (simp add: info_fields unused MAX_FOLLOWS_def ref_system_id_def)
qed

end
