(* ===== verification/Confined.thy ===== *)
theory Confined
  imports Dispatch
begin

text \<open>
  What an instruction can depend on and what it can reach: the accounts it is given, and nothing else.
  Replacing the rest of the ledger by anything else replaces it in the result and changes nothing
  more. The runtime lets a call see the accounts passed to it only; the locale \<open>confined\<close> states
  that of the calls into code outside the repository, and the operations inherit it.
\<close>

section \<open>Another ledger outside some accounts\<close>

abbreviation patch :: "pubkey set \<Rightarrow> ledger \<Rightarrow> ledger \<Rightarrow> ledger" where
  "patch K M L \<equiv> override_on M L K"

text \<open>The same error, or \<open>g\<close> of the value.\<close>

definition carry :: "('a \<Rightarrow> 'b) \<Rightarrow> 'a res \<Rightarrow> 'b res" where
  "carry g r = attempt r (\<lambda>x. Inr (g x))"

definition moved :: "('a \<Rightarrow> 'b) \<Rightarrow> 'a res \<Rightarrow> 'b res \<Rightarrow> bool" where
  "moved g r r' \<longleftrightarrow> r' = carry g r"

named_theorems patch_simps

lemma carry_results [simp]: "carry g (Inl e) = Inl e" "carry g (Inr x) = Inr (g x)"
  by (simp_all add: carry_def)

lemma carry_attempt [patch_simps]:
  "carry g (attempt m f) = attempt m (\<lambda>x. carry g (f x))"
  by (cases m) simp_all

lemma attempt_carry [patch_simps]: "attempt (carry g m) f = attempt m (\<lambda>x. f (g x))"
  by (cases m) simp_all

lemma carry_if [patch_simps]:
  "carry g (if b then x else y) = (if b then carry g x else carry g y)"
  by simp

lemma attempt_if [patch_simps]:
  "attempt (if b then x else y) f = (if b then attempt x f else attempt y f)"
  "attempt (attempt m h) f = attempt m (\<lambda>x. attempt (h x) f)"
  by (simp, cases m) simp_all

declare Let_def [patch_simps] case_prod_beta' [patch_simps]

text \<open>The accounts of a call are taken one by one from the list.\<close>

lemma moved_next:
  assumes "ai_key ` set xs \<subseteq> K"
    and "\<And>a it. ai_key a \<in> K \<Longrightarrow> ai_key ` set it \<subseteq> K \<Longrightarrow> moved g (f a it) (f' a it)"
  shows "moved g (attempt (next_account_info xs) (\<lambda>(a, it). f a it))
    (attempt (next_account_info xs) (\<lambda>(a, it). f' a it))"
  using assms by (cases xs) (simp_all add: moved_def)

lemma moved_attempt:
  "(\<And>x. moved g (f x) (f' x)) \<Longrightarrow> moved g (attempt m f) (attempt m f')"
  by (cases m) (simp_all add: moved_def)

lemma moved_if:
  "moved g x x' \<Longrightarrow> moved g y y' \<Longrightarrow> moved g (if b then x else y) (if b then x' else y')"
  by simp

lemma moved_err: "moved g (Inl e) (Inl e)"
  by (simp add: moved_def)

text \<open>The accounts of a loop come from the list too.\<close>

lemma zip_keys:
  assumes "ai_key ` set xs \<subseteq> K"
  shows "ai_key ` fst ` set (zip xs ys) \<subseteq> K" "ai_key ` snd ` set (zip ys (take n xs)) \<subseteq> K"
    "i < length xs \<Longrightarrow> ai_key (xs ! i) \<in> K"
proof -
  show "ai_key ` fst ` set (zip xs ys) \<subseteq> K"
    using assms by (fastforce dest: set_zip_leftD)
  show "ai_key ` snd ` set (zip ys (take n xs)) \<subseteq> K"
    using assms by (fastforce dest: set_zip_rightD in_set_takeD)
  show "i < length xs \<Longrightarrow> ai_key (xs ! i) \<in> K"
    using assms by auto
qed

lemmas moved_steps = moved_next moved_if moved_err

section \<open>Reading and writing\<close>

lemma patch_reads [patch_simps]:
  assumes "ai_key a \<in> K"
  shows "lamports (patch K M L) a = lamports L a" "owner (patch K M L) a = owner L a"
    "data (patch K M L) a = data L a"
  using assms by (simp_all add: ledger_defs)

lemma patch_writes [patch_simps]:
  assumes "ai_key a \<in> K"
  shows "set_lamports a n (patch K M L) = patch K M (set_lamports a n L)"
    "set_data a bs (patch K M L) = patch K M (set_data a bs L)"
    "set_owner a k (patch K M L) = patch K M (set_owner a k L)"
  using assms by (auto simp: ledger_defs override_on_def)

lemma patch_move [patch_simps]:
  "j \<in> K \<Longrightarrow> k \<in> K \<Longrightarrow> move_lamports j k n (patch K M L) = patch K M (move_lamports j k n L)"
  by (auto simp: move_lamports_def Let_def override_on_def)

lemma patch_guards [patch_simps]:
  assumes "ai_key a \<in> K"
  shows "is_uninitialized rt a (patch K M L) = is_uninitialized rt a L"
    "assert_uninitialized rt a (patch K M L) = assert_uninitialized rt a L"
    "assert_owned_by a k (patch K M L) = assert_owned_by a k L"
    "read_tag a (patch K M L) = read_tag a L"
    "assert_upgrade_authority rt pid a b (patch K M L) = assert_upgrade_authority rt pid a b L"
  by (simp_all add: patch_reads [OF assms] is_uninitialized_def assert_uninitialized_def
      assert_owned_by_def read_tag_def assert_upgrade_authority_def)

lemma patch_loaders [patch_simps]:
  assumes "ai_key a \<in> K"
  shows "load_content rt pid a (patch K M L) = load_content rt pid a L"
    "load_thread_access rt a (patch K M L) = load_thread_access rt a L"
    "load_access_entry rt a (patch K M L) = load_access_entry rt a L"
    "load_bound_access_entry rt pid a k w (patch K M L) = load_bound_access_entry rt pid a k w L"
    "load_alloc_likes rt a (patch K M L) = load_alloc_likes rt a L"
    "load_follow_registry rt a (patch K M L) = load_follow_registry rt a L"
    "load_follower_shard rt a (patch K M L) = load_follower_shard rt a L"
    "load_bound_follower_shard rt pid a k i (patch K M L) = load_bound_follower_shard rt pid a k i L"
    "load_thread rt pid a (patch K M L) = load_thread rt pid a L"
    "load_alloc rt pid a (patch K M L) = load_alloc rt pid a L"
    "load_settings rt pid a (patch K M L) = load_settings rt pid a L"
    "load_author_thread rt pid b a (patch K M L) = load_author_thread rt pid b a L"
    "load_admin_access rt pid b a (patch K M L) = load_admin_access rt pid b a L"
    "load_admin_settings rt pid b a (patch K M L) = load_admin_settings rt pid b a L"
  by (simp_all add: patch_reads [OF assms] patch_guards [OF assms] load_content_def
      load_thread_access_def load_access_entry_def load_bound_access_entry_def load_alloc_likes_def
      load_follow_registry_def load_follower_shard_def load_bound_follower_shard_def
      load_thread_def load_alloc_def load_settings_def load_author_thread_def
      load_admin_access_def load_admin_settings_def)

lemma patch_serialize [patch_simps]:
  "ai_key a \<in> K \<Longrightarrow> serialize c x a (patch K M L) = carry (patch K M) (serialize c x a L)"
  by (simp add: serialize_def patch_simps split: option.split)

lemma patch_gate [patch_simps]:
  assumes "ai_key a \<in> K"
  shows "gating_of rt pid a k (patch K M L) = gating_of rt pid a k L"
    "standing_of rt pid a k b t (patch K M L) = standing_of rt pid a k b t L"
  by (simp_all add: patch_simps assms gating_of_def standing_of_def cong: if_cong)

lemma patch_sweep [patch_simps]:
  assumes "ai_key a \<in> K" "ai_key b \<in> K"
  shows "sweep_shard_excess a b n (patch K M L) = carry (patch K M) (sweep_shard_excess a b n L)"
  by (simp add: sweep_shard_excess_def patch_simps assms Let_def)

lemma patch_sweep_shards [patch_simps]:
  assumes "ai_key r \<in> K" "ai_key ` fst ` set xs \<subseteq> K"
  shows "sweep_shards rt pid validate r m xs (patch K M L) =
    carry (patch K M) (sweep_shards rt pid validate r m xs L)"
  using assms
proof (induction xs arbitrary: L)
  case (Cons p xs)
  then show ?case by (cases p) (simp add: patch_simps cong: if_cong)
qed simp

lemma patch_reset_likes [patch_simps]:
  "ai_key a \<in> K \<Longrightarrow> reset_likes rt pid n a (patch K M L) = carry (patch K M) (reset_likes rt pid n a L)"
  by (simp add: reset_likes_def patch_simps cong: if_cong)

lemma patch_optional [patch_simps]:
  assumes "ai_key ` set it \<subseteq> K"
  shows "(case case it of [] \<Rightarrow> None | a # _ \<Rightarrow> Some a of
       None \<Rightarrow> Inr (patch K M L) | Some a \<Rightarrow> reset_likes rt pid n a (patch K M L)) =
     carry (patch K M) (case case it of [] \<Rightarrow> None | a # _ \<Rightarrow> Some a of
       None \<Rightarrow> Inr L | Some a \<Rightarrow> reset_likes rt pid n a L)"
  using assms by (cases it) (simp_all add: patch_reset_likes)

section \<open>The code outside\<close>

text \<open>A call reads and writes the accounts it is passed, whatever else the ledger holds.\<close>

locale confined =
  fixes rt :: runtime and pid :: pubkey
  assumes transfer_confined: "ai_key a \<in> K \<Longrightarrow> ai_key b \<in> K \<Longrightarrow>
      rt_transfer rt a b n (patch K M L) = carry (patch K M) (rt_transfer rt a b n L)"
    and create_account_confined: "ai_key a \<in> K \<Longrightarrow> ai_key b \<in> K \<Longrightarrow>
      rt_create_account rt pid a b n m k ss (patch K M L) =
        carry (patch K M) (rt_create_account rt pid a b n m k ss L)"
    and allocate_confined: "ai_key a \<in> K \<Longrightarrow>
      rt_allocate rt pid a m ss (patch K M L) = carry (patch K M) (rt_allocate rt pid a m ss L)"
    and assign_confined: "ai_key a \<in> K \<Longrightarrow>
      rt_assign rt pid a k ss (patch K M L) = carry (patch K M) (rt_assign rt pid a k ss L)"
    and resize_confined: "ai_key a \<in> K \<Longrightarrow>
      rt_resize rt a l (patch K M L) = carry (patch K M) (rt_resize rt a l L)"
begin

lemmas calls_confined = transfer_confined create_account_confined allocate_confined
  assign_confined resize_confined

lemma patch_accounts:
  assumes "ai_key a \<in> K" "ai_key b \<in> K"
  shows "ensure_rent_exempt rt a b n (patch K M L) = carry (patch K M) (ensure_rent_exempt rt a b n L)"
    "close_program_account rt a b (patch K M L) = carry (patch K M) (close_program_account rt a b L)"
    "create_pda_account rt pid a b s n seeds (patch K M L) =
      carry (patch K M) (create_pda_account rt pid a b s n seeds L)"
    "collect_fee_to_shard rt m a b (patch K M L) = carry (patch K M) (collect_fee_to_shard rt m a b L)"
  by (simp_all add: patch_simps assms calls_confined ensure_rent_exempt_def
      close_program_account_def create_pda_account_def collect_fee_to_shard_def cong: if_cong)

lemma patch_fees:
  assumes "ai_key a \<in> K" "ai_key b \<in> K"
  shows "collect_base_fee rt n bps a b (patch K M L) = carry (patch K M) (collect_base_fee rt n bps a b L)"
    "ensure_shard_initialized rt pid a b s seeds bump (patch K M L) =
      carry (patch K M) (ensure_shard_initialized rt pid a b s seeds bump L)"
    "ai_key c \<in> K \<Longrightarrow> transfer_fee_split rt n bps a b c (patch K M L) =
      carry (patch K M) (transfer_fee_split rt n bps a b c L)"
    "ai_key c \<in> K \<Longrightarrow> ensure_fee_shards_initialized rt pid a b c s k i j x y (patch K M L) =
      carry (patch K M) (ensure_fee_shards_initialized rt pid a b c s k i j x y L)"
    "ai_key c \<in> K \<Longrightarrow> prepare_fee_shards rt pid a b c s k i j (patch K M L) =
      carry (patch K M) (prepare_fee_shards rt pid a b c s k i j L)"
  by (simp_all add: patch_simps assms patch_accounts collect_base_fee_def
      ensure_shard_initialized_def transfer_fee_split_def ensure_fee_shards_initialized_def
      prepare_fee_shards_def cong: if_cong)

lemmas patch_parts = patch_simps calls_confined patch_accounts patch_fees

lemma patch_counter:
  "ai_key a \<in> K \<Longrightarrow> adjust_whitelist_count rt a n (patch K M L) =
    carry (patch K M) (adjust_whitelist_count rt a n L)"
  by (simp add: patch_parts adjust_whitelist_count_def cong: if_cong)

lemma patch_entries:
  assumes "ai_key a \<in> K" "ai_key b \<in> K"
  shows "set_access_entry_status rt pid a b c k w st (patch K M L) =
      carry (map_prod id (patch K M)) (set_access_entry_status rt pid a b c k w st L)"
    "close_access_entry rt pid a b k w st (patch K M L) =
      carry (patch K M) (close_access_entry rt pid a b k w st L)"
  by (simp_all add: patch_parts assms set_access_entry_status_def
      close_access_entry_def cong: if_cong)

lemma patch_statuses:
  assumes "ai_key a \<in> K" "ai_key b \<in> K" "ai_key c \<in> K"
  shows "apply_access_entry_status rt pid a b c d w st (patch K M L) =
      carry (patch K M) (apply_access_entry_status rt pid a b c d w st L)"
    "remove_access_entry rt pid a b c w st (patch K M L) =
      carry (patch K M) (remove_access_entry rt pid a b c w st L)"
  by (simp_all add: patch_parts patch_counter patch_entries assms apply_access_entry_status_def
      remove_access_entry_def cong: if_cong)

lemma patch_fill_loop:
  assumes "ai_key (fc_payer c) \<in> K" "ai_key (fc_treasury_shard c) \<in> K"
    "ai_key (fc_author_fee_shard c) \<in> K" "ai_key ` snd ` set cs \<subseteq> K"
  shows "fill_loop rt pid c cs (patch K M L) = carry (patch K M) (fill_loop rt pid c cs L)"
  using assms(4)
proof (induction cs)
  case (Cons p cs)
  then show ?case
    by (cases p) (simp add: patch_parts assms(1-3) fill_candidate_def cong: if_cong)
qed simp

section \<open>Handlers\<close>

lemmas patch_all = patch_parts patch_counter patch_entries patch_statuses

text \<open>Each proof takes the accounts from the list, then moves the replacement through the body.\<close>

lemma moved_handlers:
  assumes "ai_key ` set xs \<subseteq> K"
  shows "moved (patch K M) (process_init_settings rt pid xs k L)
      (process_init_settings rt pid xs k (patch K M L))"
    "moved (patch K M) (process_set_admin rt pid xs k L)
      (process_set_admin rt pid xs k (patch K M L))"
    "moved (patch K M) (process_set_treasury rt pid xs k L)
      (process_set_treasury rt pid xs k (patch K M L))"
    "moved (patch K M) (update_platform_setting rt pid xs bps u L)
      (update_platform_setting rt pid xs bps u (patch K M L))"
    "moved (patch K M) (process_create_root_alloc rt pid xs fee i title L)
      (process_create_root_alloc rt pid xs fee i title (patch K M L))"
    "moved (patch K M) (process_prepare_alloc rt pid xs q L)
      (process_prepare_alloc rt pid xs q (patch K M L))"
    "moved (patch K M) (process_set_message_fee rt pid xs fee L)
      (process_set_message_fee rt pid xs fee (patch K M L))"
    "moved (patch K M) (process_set_like_fee rt pid xs fee L)
      (process_set_like_fee rt pid xs fee (patch K M L))"
    "moved (patch K M) (process_init_thread_access rt pid xs e i L)
      (process_init_thread_access rt pid xs e i (patch K M L))"
    "moved (patch K M) (process_set_thread_access rt pid xs e L)
      (process_set_thread_access rt pid xs e (patch K M L))"
    "moved (patch K M) (process_set_entry_fee rt pid xs fee L)
      (process_set_entry_fee rt pid xs fee (patch K M L))"
    "moved (patch K M) (process_add_to_whitelist rt pid xs w L)
      (process_add_to_whitelist rt pid xs w (patch K M L))"
    "moved (patch K M) (process_add_to_fee_whitelist rt pid xs w L)
      (process_add_to_fee_whitelist rt pid xs w (patch K M L))"
    "moved (patch K M) (process_add_to_blacklist rt pid xs w L)
      (process_add_to_blacklist rt pid xs w (patch K M L))"
    "moved (patch K M) (process_remove_from_whitelist rt pid xs w L)
      (process_remove_from_whitelist rt pid xs w (patch K M L))"
    "moved (patch K M) (process_remove_from_fee_whitelist rt pid xs w L)
      (process_remove_from_fee_whitelist rt pid xs w (patch K M L))"
    "moved (patch K M) (process_remove_from_blacklist rt pid xs w L)
      (process_remove_from_blacklist rt pid xs w (patch K M L))"
    "moved (patch K M) (process_request_access rt pid xs i j L)
      (process_request_access rt pid xs i j (patch K M L))"
    "moved (patch K M) (process_append_content rt pid xs chunk i j L)
      (process_append_content rt pid xs chunk i j (patch K M L))"
    "moved (patch K M) (process_close_account rt pid xs L)
      (process_close_account rt pid xs (patch K M L))"
    "moved (patch K M) (process_like_content rt pid xs q s i j m L)
      (process_like_content rt pid xs q s i j m (patch K M L))"
    "moved (patch K M) (process_subscribe rt pid xs L)
      (process_subscribe rt pid xs (patch K M L))"
    "moved (patch K M) (process_unsubscribe rt pid xs L)
      (process_unsubscribe rt pid xs (patch K M L))"
    "moved (patch K M) (process_sweep_treasury rt pid xs is L)
      (process_sweep_treasury rt pid xs is (patch K M L))"
    "moved (patch K M) (process_sweep_author_fees rt pid xs js L)
      (process_sweep_author_fees rt pid xs js (patch K M L))"
  unfolding process_init_settings_def process_set_admin_def process_set_treasury_def
    update_platform_setting_def process_create_root_alloc_def process_prepare_alloc_def
    process_set_message_fee_def process_set_like_fee_def process_init_thread_access_def
    process_set_thread_access_def process_set_entry_fee_def process_add_to_whitelist_def
    process_add_to_fee_whitelist_def process_add_to_blacklist_def
    process_remove_from_whitelist_def process_remove_from_fee_whitelist_def
    process_remove_from_blacklist_def process_request_access_def process_append_content_def
    process_close_account_def process_like_content_def process_subscribe_def
    process_unsubscribe_def process_sweep_treasury_def process_sweep_author_fees_def
  by ((rule moved_steps | rule assms | assumption)+,
    simp add: moved_def patch_all zip_keys cong: if_cong)+

lemma moved_fill_slot:
  assumes "ai_key ` set xs \<subseteq> K"
  shows "moved (patch K M) (process_fill_slot rt pid xs kd body cands i j ra rs m L)
    (process_fill_slot rt pid xs kd body cands i j ra rs m (patch K M L))"
  unfolding process_fill_slot_def
  by ((rule moved_steps moved_attempt | rule assms | assumption)+,
    simp add: moved_def patch_all patch_fill_loop zip_keys cong: if_cong)

lemma moved_dispatch:
  assumes "ai_key ` set xs \<subseteq> K"
  shows "moved (patch K M) (dispatch rt pid xs i L) (dispatch rt pid xs i (patch K M L))"
  by (cases i) (simp_all add: dispatch_def moved_handlers moved_fill_slot assms process_set_base_fee_def
      process_set_author_fee_cut_def process_set_entry_cut_def process_set_like_cut_def)

end

interpretation ref_confined: confined "ref_rt now" ref_pid
  by unfold_locales (simp_all add: patch_simps ref_transfer_def ref_create_account_def
      ref_allocate_def ref_assign_def ref_resize_def cong: if_cong)

end
