(* ===== verification/Writes.thy ===== *)
theory Writes
  imports Confined
begin

text \<open>
  What an instruction can write: the accounts it is given as writable. The System Program checks
  that for the calls it executes, and the handlers check it for what they write themselves, with one
  exception: \<open>close_account.rs\<close> credits its first account without asking whether it is writable.
\<close>

section \<open>Ledgers that agree outside some accounts\<close>

definition same_off :: "pubkey set \<Rightarrow> ledger \<Rightarrow> ledger \<Rightarrow> bool" where
  "same_off W L L' \<longleftrightarrow> (\<forall>k. k \<notin> W \<longrightarrow> L' k = L k)"

lemma same_off_refl [simp]: "same_off W L L"
  by (simp add: same_off_def)

lemma same_off_writes:
  assumes "same_off W L L1" "ai_key a \<in> W"
  shows "same_off W L (set_lamports a n L1)" "same_off W L (set_data a bs L1)"
    "same_off W L (set_owner a k L1)"
  using assms by (auto simp: same_off_def ledger_defs)

lemma same_off_move:
  "same_off W L L1 \<Longrightarrow> i \<in> W \<Longrightarrow> j \<in> W \<Longrightarrow> same_off W L (move_lamports i j n L1)"
  by (auto simp: same_off_def move_lamports_def Let_def)

text \<open>\<open>h\<close> selects the ledger of a result.\<close>

definition within :: "pubkey set \<Rightarrow> ledger \<Rightarrow> ('a \<Rightarrow> ledger) \<Rightarrow> 'a res \<Rightarrow> bool" where
  "within W L h r \<longleftrightarrow> (\<forall>x. r = Inr x \<longrightarrow> same_off W L (h x))"

definition may_write :: "pubkey set \<Rightarrow> account_info \<Rightarrow> bool" where
  "may_write W a \<longleftrightarrow> (is_writable a \<longrightarrow> ai_key a \<in> W)"

definition self :: "ledger \<Rightarrow> ledger" where
  "self L = L"

lemma within_Inl: "within W L h (Inl e)"
  and within_Inr: "same_off W L (h x) \<Longrightarrow> within W L h (Inr x)"
  by (simp_all add: within_def)

lemma within_next:
  assumes "\<forall>a\<in>set xs. may_write W a"
    and "\<And>a it. may_write W a \<Longrightarrow> \<forall>b\<in>set it. may_write W b \<Longrightarrow> within W L h (f a it)"
  shows "within W L h (attempt (next_account_info xs) (\<lambda>(a, it). f a it))"
  using assms by (cases xs) (simp_all add: within_Inl)

lemma within_ledger:
  "within W L self m \<Longrightarrow> (\<And>L1. same_off W L L1 \<Longrightarrow> within W L h (f L1)) \<Longrightarrow>
   within W L h (attempt m f)"
  by (cases m) (simp_all add: within_def self_def)

lemma within_pair:
  "within W L snd m \<Longrightarrow> (\<And>y L1. same_off W L L1 \<Longrightarrow> within W L h (f y L1)) \<Longrightarrow>
   within W L h (attempt m (\<lambda>(y, L1). f y L1))"
  by (cases m) (simp_all add: within_def case_prod_beta)

lemma within_guard:
  "(\<And>x. m = Inr x \<Longrightarrow> within W L h (f x)) \<Longrightarrow> within W L h (attempt m f)"
  by (cases m) (simp_all add: within_def)

lemma within_if:
  "(b \<Longrightarrow> within W L h x) \<Longrightarrow> (\<not> b \<Longrightarrow> within W L h y) \<Longrightarrow> within W L h (if b then x else y)"
  by simp

lemma within_let: "within W L h (f v) \<Longrightarrow> within W L h (Let v f)"
  by simp

lemma within_case_prod: "within W L h (f (fst p) (snd p)) \<Longrightarrow> within W L h (case_prod f p)"
  by (simp add: case_prod_beta)

lemmas within_steps = within_next within_if within_let within_Inl within_case_prod within_ledger
  within_pair within_guard

text \<open>What a step writes, under the guards passed before it.\<close>

named_theorems within_leaf

lemma guarded_writable [within_leaf]:
  "assert_writable a = Inr u \<Longrightarrow> is_writable a"
  "assert_fee_shard_accounts rt a b s = Inr u \<Longrightarrow> is_writable a"
  "assert_fee_shard_accounts rt b a s = Inr u \<Longrightarrow> is_writable a"
  "load_author_thread rt pid b a L = Inr t \<Longrightarrow> is_writable a"
  "load_admin_access rt pid b a L = Inr ta \<Longrightarrow> is_writable a"
  "load_admin_settings rt pid b a L = Inr ps \<Longrightarrow> is_writable a"
  by (auto simp: assert_fee_shard_accounts_def ok_simps)

declare within_Inr [within_leaf] self_def [within_leaf]

lemma may_write_key [within_leaf]: "is_writable a \<Longrightarrow> may_write W a \<Longrightarrow> ai_key a \<in> W"
  by (simp add: may_write_def)

lemma guarded_key: "assert_writable a = Inr u \<Longrightarrow> may_write W a \<Longrightarrow> ai_key a \<in> W"
  by (simp add: ok_simps may_write_key)

lemma may_write_of_key: "ai_key a \<in> W \<Longrightarrow> may_write W a"
  by (simp add: may_write_def)

lemma within_serialize [within_leaf]:
  "same_off W L L1 \<Longrightarrow> ai_key a \<in> W \<Longrightarrow> within W L self (serialize c x a L1)"
  by (auto simp: within_def self_def serialize_Inr_iff same_off_writes)

declare same_off_writes [within_leaf]

context solana
begin

lemma within_calls [within_leaf]:
  assumes "same_off W L L1"
  shows "may_write W a \<Longrightarrow> may_write W b \<Longrightarrow> within W L self (rt_transfer rt a b n L1)"
    "may_write W a \<Longrightarrow> may_write W b \<Longrightarrow> within W L self (rt_create_account rt pid a b n m k ss L1)"
    "may_write W a \<Longrightarrow> within W L self (rt_allocate rt pid a m ss L1)"
    "may_write W a \<Longrightarrow> within W L self (rt_assign rt pid a k ss L1)"
    "ai_key a \<in> W \<Longrightarrow> within W L self (rt_resize rt a l L1)"
  using assms
  by (auto simp: within_def self_def may_write_def same_off_def ledger_defs move_lamports_def Let_def
      dest!: transfer_ok create_account_ok allocate_ok assign_ok resize_ok)

lemma within_accounts [within_leaf]:
  assumes "same_off W L L1" "may_write W a" "may_write W b"
  shows "within W L self (ensure_rent_exempt rt a b n L1)"
    "within W L self (create_pda_account rt pid a b s n seeds L1)"
    "within W L self (collect_fee_to_shard rt m a b L1)"
  unfolding ensure_rent_exempt_def create_pda_account_def collect_fee_to_shard_def
  by (rule within_steps | rule assms | assumption | simp add: within_leaf assms; fail)+

lemma within_close [within_leaf]:
  assumes "same_off W L L1" "ai_key a \<in> W" "ai_key b \<in> W"
  shows "within W L self (close_program_account rt a b L1)"
  unfolding close_program_account_def
  by (rule within_steps | rule assms | assumption | simp add: within_leaf assms; fail)+

lemma within_collect [within_leaf]:
  assumes "same_off W L L1" "may_write W a" "may_write W b"
  shows "within W L self (collect_base_fee rt n bps a b L1)"
    "within W L self (ensure_shard_initialized rt pid a b s seeds bump L1)"
  unfolding collect_base_fee_def ensure_shard_initialized_def
  by (rule within_steps | rule assms | assumption | simp add: within_leaf assms; fail)+

lemma within_fees [within_leaf]:
  assumes "same_off W L L1" "may_write W a" "may_write W b" "may_write W c"
  shows "within W L self (transfer_fee_split rt n bps a b c L1)"
    "within W L self (ensure_fee_shards_initialized rt pid a b c s k i j x y L1)"
    "within W L self (prepare_fee_shards rt pid a b c s k i j L1)"
  unfolding transfer_fee_split_def prepare_fee_shards_def ensure_fee_shards_initialized_def
  by (rule within_steps | rule assms | assumption | simp add: within_leaf assms; fail)+

lemma within_counter [within_leaf]:
  assumes "same_off W L L1" "ai_key a \<in> W"
  shows "within W L self (adjust_whitelist_count rt a n L1)"
  unfolding adjust_whitelist_count_def
  by (rule within_steps | rule assms | assumption | simp add: within_leaf assms; fail)+

lemma within_set_status [within_leaf]:
  assumes "same_off W L L1" "may_write W a" "ai_key b \<in> W"
  shows "within W L snd (set_access_entry_status rt pid a b c k w st L1)"
  unfolding set_access_entry_status_def
  by (rule within_steps | rule assms | assumption | simp add: within_leaf assms may_write_of_key [OF assms(3)]; fail)+

lemma within_close_entry [within_leaf]:
  assumes "same_off W L L1" "ai_key a \<in> W" "ai_key b \<in> W"
  shows "within W L self (close_access_entry rt pid a b k w st L1)"
  unfolding close_access_entry_def
  by (rule within_steps | rule assms | assumption | simp add: within_leaf assms; fail)+

lemma within_statuses [within_leaf]:
  assumes "may_write W a" "may_write W b" "may_write W c"
  shows "within W L self (apply_access_entry_status rt pid a b c d w st L)"
    "within W L self (remove_access_entry rt pid a b c w st L)"
  unfolding apply_access_entry_status_def remove_access_entry_def
  by (rule within_steps | rule assms | assumption | simp add: within_leaf assms; fail)+

section \<open>Handlers\<close>

lemma within_handlers:
  assumes "\<forall>a\<in>set xs. may_write W a"
  shows "within W L self (process_init_settings rt pid xs k L)"
    "within W L self (process_set_admin rt pid xs k L)"
    "within W L self (process_set_treasury rt pid xs k L)"
    "within W L self (update_platform_setting rt pid xs bps u L)"
    "within W L self (process_create_root_alloc rt pid xs fee i title L)"
    "within W L self (process_prepare_alloc rt pid xs q L)"
    "within W L self (process_set_message_fee rt pid xs fee L)"
    "within W L self (process_set_like_fee rt pid xs fee L)"
    "within W L self (process_init_thread_access rt pid xs e i L)"
    "within W L self (process_set_thread_access rt pid xs e L)"
    "within W L self (process_set_entry_fee rt pid xs fee L)"
    "within W L self (process_add_to_whitelist rt pid xs w L)"
    "within W L self (process_add_to_fee_whitelist rt pid xs w L)"
    "within W L self (process_add_to_blacklist rt pid xs w L)"
    "within W L self (process_remove_from_whitelist rt pid xs w L)"
    "within W L self (process_remove_from_fee_whitelist rt pid xs w L)"
    "within W L self (process_remove_from_blacklist rt pid xs w L)"
    "within W L self (process_request_access rt pid xs i j L)"
    "within W L self (process_append_content rt pid xs chunk i j L)"
    "within W L self (process_like_content rt pid xs q s i j m L)"
    "within W L self (process_subscribe rt pid xs L)"
    "within W L self (process_unsubscribe rt pid xs L)"
  unfolding process_init_settings_def process_set_admin_def process_set_treasury_def
    update_platform_setting_def process_create_root_alloc_def process_prepare_alloc_def
    process_set_message_fee_def process_set_like_fee_def process_init_thread_access_def
    process_set_thread_access_def process_set_entry_fee_def process_add_to_whitelist_def
    process_add_to_fee_whitelist_def process_add_to_blacklist_def
    process_remove_from_whitelist_def process_remove_from_fee_whitelist_def
    process_remove_from_blacklist_def process_request_access_def process_append_content_def
    process_like_content_def process_subscribe_def process_unsubscribe_def
  by (rule within_steps | rule assms | assumption | simp add: within_leaf; fail)+

lemma zip_may_write:
  assumes "\<forall>a\<in>set xs. may_write W a"
  shows "\<forall>a\<in>fst ` set (zip xs ys). may_write W a" "\<forall>a\<in>snd ` set (zip ys (take n xs)). may_write W a"
  using assms by (fastforce dest: set_zip_leftD, fastforce dest: set_zip_rightD in_set_takeD)

lemma within_sweep_shards:
  assumes "same_off W L L1" "ai_key r \<in> W" "\<forall>a\<in>fst ` set xs. may_write W a"
  shows "within W L self (sweep_shards rt pid validate r m xs L1)"
  using assms(1,3)
proof (induction xs arbitrary: L1)
  case (Cons p xs)
  have step: "within W L self (sweep_shard_excess a r m L2)" if "ai_key a \<in> W" "same_off W L L2" for a L2
    unfolding sweep_shard_excess_def
    by (rule within_steps | simp add: within_leaf assms(2) that; fail)+
  obtain a i where p: "p = (a, i)" by (cases p)
  with Cons.prems have here: "same_off W L L1" "may_write W a" "\<forall>a\<in>fst ` set xs. may_write W a"
    by simp_all
  show ?case
    unfolding p sweep_shards.simps
    by (rule within_steps Cons.IH here(3) | assumption | simp add: within_leaf here(1,2) step; fail)+
qed (simp add: within_leaf)

lemma within_sweeps:
  assumes "\<forall>a\<in>set xs. may_write W a"
  shows "within W L self (process_sweep_treasury rt pid xs is L)"
    "within W L self (process_sweep_author_fees rt pid xs js L)"
  unfolding process_sweep_treasury_def process_sweep_author_fees_def
  by (rule within_steps | rule assms | assumption
    | rule within_sweep_shards [OF same_off_refl _ zip_may_write(1)] | rule guarded_key)+

lemma within_fill_loop:
  assumes "same_off W L L1" "may_write W (fc_payer c)" "may_write W (fc_treasury_shard c)"
    "may_write W (fc_author_fee_shard c)" "\<forall>a\<in>snd ` set cs. may_write W a"
  shows "within W L self (fill_loop rt pid c cs L1)"
  using assms(5)
proof (induction cs)
  case (Cons p cs)
  have step: "within W L self (fill_candidate rt pid c cand a b L1)" if "may_write W a" for cand a b
    unfolding fill_candidate_def
    by (rule within_steps | simp add: within_leaf assms(1-4) that; fail)+
  obtain cand a where p: "p = (cand, a)" by (cases p)
  with Cons.prems have here: "may_write W a" "\<forall>a\<in>snd ` set cs. may_write W a" by simp_all
  show ?case
    unfolding p fill_loop.simps
    by (rule within_steps Cons.IH [OF here(2)] step [OF here(1)])+
qed (simp add: within_Inl)

lemma within_fill_slot:
  assumes "\<forall>a\<in>set xs. may_write W a"
  shows "within W L self (process_fill_slot rt pid xs kd body cands i j ra rs m L)"
  unfolding process_fill_slot_def
  by (rule within_steps | rule assms | assumption
    | rule within_fill_loop [OF _ _ _ _ zip_may_write(2)] | simp add: within_leaf; fail)+

text \<open>The close: its first account is credited, writable or not.\<close>

lemma within_close_account:
  assumes "\<forall>a\<in>set xs. may_write W a" "ai_key ` set (take 1 xs) \<subseteq> W"
  shows "within W L self (process_close_account rt pid xs L)"
proof (cases xs)
  case (Cons a it)
  with assms have a: "ai_key a \<in> W" and it: "\<forall>b\<in>set it. may_write W b" by simp_all
  have reset: "within W L self (reset_likes rt pid n b L)" if "may_write W b" for n b
    unfolding reset_likes_def
    by (rule within_steps | simp add: within_leaf that; fail)+
  have optional: "within W L self (case case zs of [] \<Rightarrow> None | b # _ \<Rightarrow> Some b of
      None \<Rightarrow> Inr L | Some b \<Rightarrow> reset_likes rt pid n b L)" if "\<forall>b\<in>set zs. may_write W b" for zs n
    using that by (cases zs) (simp_all add: reset within_leaf)
  show ?thesis
    unfolding process_close_account_def Cons next_account_info.simps attempt_simps prod.case Let_def
    by (rule within_next within_if within_Inl | rule it | assumption | rule within_ledger, rule optional, assumption
      | rule within_guard | simp add: within_leaf a; fail)+
qed (simp add: process_close_account_def within_Inl)

lemma within_dispatch:
  assumes "\<forall>a\<in>set xs. may_write W a" "i = CloseAccount \<longrightarrow> ai_key ` set (take 1 xs) \<subseteq> W"
  shows "within W L self (dispatch rt pid xs i L)"
  using assms
  by (cases i) (simp_all add: dispatch_def within_handlers within_sweeps within_fill_slot within_close_account
      process_set_base_fee_def process_set_author_fee_cut_def process_set_entry_cut_def
      process_set_like_cut_def)

end

end
