(* ===== verification/Parallel.thy ===== *)
theory Parallel
  imports Writes
begin

text \<open>
  Calls beside each other. The runtime locks the accounts a call names, those it may write for
  itself alone, and runs calls whose locks do not meet at the same time. That is sound for this program: a
  call depends on its accounts only and writes its writable ones only, so a batch of calls without
  a conflict ends in one ledger, whatever the order.
\<close>

section \<open>One call\<close>

definition keys :: "account_info list \<Rightarrow> pubkey set" where
  "keys accounts = ai_key ` set accounts"

text \<open>What a call may write: its writable accounts, and the receiver of a closed message's rent.\<close>

definition written :: "account_info list \<Rightarrow> program_instruction \<Rightarrow> pubkey set" where
  "written accounts i = ai_key ` {a \<in> set accounts. is_writable a} \<union>
     (if i = CloseAccount then keys (take 1 accounts) else {})"

lemma written_keys: "written accounts i \<subseteq> keys accounts"
  by (auto simp: written_def keys_def dest: in_set_takeD)

lemma written_may_write: "\<forall>a\<in>set accounts. may_write (written accounts i) a"
  by (auto simp: written_def may_write_def)

context confined
begin

lemma dispatch_patch:
  "dispatch rt pid accounts i (patch (keys accounts) M L) =
     carry (patch (keys accounts) M) (dispatch rt pid accounts i L)"
  using moved_dispatch [of accounts "keys accounts"] by (simp add: moved_def keys_def)

lemma dispatch_elsewhere:
  assumes "\<forall>k\<in>keys accounts. M k = L k"
  shows "dispatch rt pid accounts i M = carry (patch (keys accounts) M) (dispatch rt pid accounts i L)"
proof -
  from assms have "patch (keys accounts) M L = M" by (auto simp: override_on_def)
  with dispatch_patch [where accounts = accounts and M = M and L = L and i = i] show ?thesis by simp
qed

end

context solana
begin

lemma dispatch_writes:
  "dispatch rt pid accounts i L = Inr L' \<Longrightarrow> k \<notin> written accounts i \<Longrightarrow> L' k = L k"
  using within_dispatch [OF written_may_write [of accounts i], of i L]
  by (auto simp: within_def self_def same_off_def written_def keys_def)

end

section \<open>Two calls\<close>

type_synonym call = "account_info list \<times> program_instruction"

fun run_calls :: "runtime \<Rightarrow> pubkey \<Rightarrow> call list \<Rightarrow> ledger \<Rightarrow> ledger res" where
  "run_calls rt pid [] L = Inr L"
| "run_calls rt pid ((accounts, i) # calls) L =
     attempt (dispatch rt pid accounts i L) (run_calls rt pid calls)"

definition independent :: "call \<Rightarrow> call \<Rightarrow> bool" where
  "independent c d \<longleftrightarrow> written (fst c) (snd c) \<inter> keys (fst d) = {} \<and>
     written (fst d) (snd d) \<inter> keys (fst c) = {}"

lemma independent_sym: "independent c d \<Longrightarrow> independent d c"
  by (auto simp: independent_def)

locale scheduled = solana + confined
begin

lemma dispatch_independent:
  assumes "dispatch rt pid xs i L = Inr L1" "independent (xs, i) (ys, j)"
  shows "dispatch rt pid ys j L1 = carry (patch (keys ys) L1) (dispatch rt pid ys j L)"
proof (rule dispatch_elsewhere)
  show "\<forall>k\<in>keys ys. L1 k = L k"
    using dispatch_writes [OF assms(1)] assms(2) by (auto simp: independent_def)
qed

lemma two_calls_commute:
  assumes "run_calls rt pid [c, d] L = Inr L'" "independent c d"
  shows "run_calls rt pid [d, c] L = Inr L'"
proof -
  obtain xs i ys j where cd: "c = (xs, i)" "d = (ys, j)" by (cases c, cases d)
  from assms(1) cd obtain L1 where L1: "dispatch rt pid xs i L = Inr L1"
    and L': "dispatch rt pid ys j L1 = Inr L'"
    by (auto simp: attempt_Inr_iff)
  from dispatch_independent [OF L1] assms(2) cd L' obtain L2 where
    L2: "dispatch rt pid ys j L = Inr L2" and two: "L' = patch (keys ys) L1 L2"
    by (cases "dispatch rt pid ys j L") auto
  have "dispatch rt pid xs i L2 = Inr (patch (keys xs) L2 L1)"
    using dispatch_independent [OF L2] independent_sym [OF assms(2)] cd L1 by simp
  moreover have "patch (keys xs) L2 L1 = L'"
  proof
    fix k
    have w: "k \<notin> written xs i \<Longrightarrow> L1 k = L k" "k \<notin> written ys j \<Longrightarrow> L2 k = L k"
      using dispatch_writes [OF L1] dispatch_writes [OF L2] by auto
    from assms(2) cd have "k \<in> keys xs \<Longrightarrow> k \<notin> written ys j" "k \<in> keys ys \<Longrightarrow> k \<notin> written xs i"
      by (auto simp: independent_def)
    moreover have "k \<notin> keys xs \<Longrightarrow> k \<notin> written xs i" "k \<notin> keys ys \<Longrightarrow> k \<notin> written ys j"
      using written_keys by auto
    ultimately show "patch (keys xs) L2 L1 k = L' k"
      using w two by (auto simp: override_on_def)
  qed
  ultimately show ?thesis using L2 cd by simp
qed

text \<open>A call that is independent of all before it can go first.\<close>

lemma run_calls_append:
  "run_calls rt pid (cs @ ds) L = attempt (run_calls rt pid cs L) (run_calls rt pid ds)"
proof (induction cs arbitrary: L)
  case (Cons c cs)
  then show ?case
    by (cases c; cases "dispatch rt pid (fst c) (snd c) L") simp_all
qed simp

lemma run_first:
  assumes "run_calls rt pid (cs @ [c]) L = Inr L'" "\<forall>d\<in>set cs. independent d c"
  shows "run_calls rt pid (c # cs) L = Inr L'"
  using assms
proof (induction cs arbitrary: L)
  case (Cons d cs)
  obtain xs i ys j where cd: "c = (xs, i)" "d = (ys, j)" by (cases c, cases d)
  from Cons.prems(1) cd obtain L1 where L1: "dispatch rt pid ys j L = Inr L1"
    and "run_calls rt pid (cs @ [c]) L1 = Inr L'"
    by (auto simp: attempt_Inr_iff)
  with Cons.IH Cons.prems(2) have "run_calls rt pid (c # cs) L1 = Inr L'" by simp
  then obtain L2 where L2: "dispatch rt pid xs i L1 = Inr L2"
    and rest: "run_calls rt pid cs L2 = Inr L'"
    by (auto simp: cd attempt_Inr_iff)
  from L1 L2 cd have "run_calls rt pid [d, c] L = Inr L2" by simp
  then have "run_calls rt pid [c, d] L = Inr L2"
    by (rule two_calls_commute) (use Cons.prems(2) in simp)
  then have "run_calls rt pid ([c, d] @ cs) L = Inr L'"
    using rest by (simp only: run_calls_append attempt_simps)
  then show ?case by simp
qed simp

lemma any_order:
  assumes "mset ds = mset cs" "sorted_wrt independent cs" "run_calls rt pid cs L = Inr L'"
  shows "run_calls rt pid ds L = Inr L'"
  using assms
proof (induction ds arbitrary: cs L)
  case (Cons d ds)
  then have "d \<in> set cs" by (metis list.set_intros(1) set_mset_mset)
  then obtain pre post where cs: "cs = pre @ d # post" by (meson split_list)
  have "\<forall>c\<in>set pre. independent c d"
    using Cons.prems(2) by (simp add: cs sorted_wrt_append)
  moreover from Cons.prems(3) have "run_calls rt pid ((pre @ [d]) @ post) L = Inr L'"
    by (simp add: cs)
  then obtain L1 where "run_calls rt pid (pre @ [d]) L = Inr L1"
    and post: "run_calls rt pid post L1 = Inr L'"
    by (auto simp only: run_calls_append [of "pre @ [d]"] attempt_Inr_iff)
  ultimately have "run_calls rt pid (d # pre) L = Inr L1" by (intro run_first)
  with post have "run_calls rt pid (d # (pre @ post)) L = Inr L'"
    using run_calls_append [of "d # pre" post L] by simp
  moreover have "mset ds = mset (pre @ post)" "sorted_wrt independent (pre @ post)"
    using Cons.prems(1,2) by (auto simp: cs sorted_wrt_append)
  ultimately show ?case
    using Cons.IH [of "pre @ post"] by (cases d) (auto simp: attempt_Inr_iff)
qed simp

end

interpretation ref_scheduled: scheduled "ref_rt now" ref_pid
  by unfold_locales

section \<open>Properties\<close>

text \<open>C8. A call is local. In a ledger with the same contents at the call's accounts it fails with the same
  error, or succeeds, leaves the same contents in its accounts and everything else as it was. Only
  its writable accounts change; the one other account that may is the first of a
  \<open>CloseAccount\<close>, which receives the rent and is not asked to be writable.\<close>

theorem calls_are_local:
  assumes "solana rt pid" "confined rt pid" "\<forall>a\<in>set accounts. M (ai_key a) = L (ai_key a)"
  shows "(case dispatch rt pid accounts i L of
      Inl e \<Rightarrow> dispatch rt pid accounts i M = Inl e
    | Inr L' \<Rightarrow> (\<exists>M'. dispatch rt pid accounts i M = Inr M' \<and>
        (\<forall>k. M' k = (if k \<in> keys accounts then L' k else M k)) \<and>
        (\<forall>k. L' k \<noteq> L k \<longrightarrow> (\<exists>a\<in>set accounts. ai_key a = k \<and>
          (is_writable a \<or> i = CloseAccount \<and> a = hd accounts)))))"
proof (cases "dispatch rt pid accounts i L")
  case (Inl e)
  with confined.dispatch_elsewhere [OF assms(2), of accounts M L i] assms(3) show ?thesis
    by (simp add: keys_def)
next
  case (Inr L')
  have "\<exists>a\<in>set accounts. ai_key a = k \<and> (is_writable a \<or> i = CloseAccount \<and> a = hd accounts)"
    if "L' k \<noteq> L k" for k
  proof -
    from that solana.dispatch_writes [OF assms(1) Inr] have "k \<in> written accounts i" by blast
    then show ?thesis
      by (cases accounts) (auto simp: written_def keys_def split: if_splits)
  qed
  with Inr confined.dispatch_elsewhere [OF assms(2), of accounts M L i] assms(3) show ?thesis
    by (simp add: keys_def override_on_def)
qed

theorem calls_are_local_witness:
  "\<exists>M'. dispatch (ref_rt 0) ref_pid [signer_info 20, plain_info 30] (SetMessageFee 6)
      (stage(21 := wallet_account 5)) = Inr M' \<and> M' 21 = wallet_account 5"
proof -
  let ?accounts = "[signer_info 20, plain_info 30]"
  let ?M = "stage(21 := wallet_account 5)"
  have same: "\<forall>a\<in>set ?accounts. ?M (ai_key a) = stage (ai_key a)"
    by (simp add: signer_info_def plain_info_def)
  have "is_ok (dispatch (ref_rt 0) ref_pid ?accounts (SetMessageFee 6) stage)"
    by (simp add: dispatch_def process_set_message_fee_def run_simps cong: run_congs)
  then obtain L' where "dispatch (ref_rt 0) ref_pid ?accounts (SetMessageFee 6) stage = Inr L'"
    by (auto simp: is_ok_iff)
  with calls_are_local [OF ref_runtime.solana_axioms ref_confined.confined_axioms same,
      of 0 "SetMessageFee 6"]
  show ?thesis by (auto simp: keys_def signer_info_def plain_info_def)
qed

text \<open>C9. Calls without a conflict can run in any order, or at once: when no call of a batch may
  write an account another one is given, a batch that succeeds in one order succeeds in every
  order, with the same ledger.\<close>

theorem conflict_free_calls_in_any_order:
  assumes "solana rt pid" "confined rt pid" "sorted_wrt independent calls"
    and "mset calls' = mset calls" "run_calls rt pid calls L = Inr L'"
  shows "run_calls rt pid calls' L = Inr L'"
  using scheduled.any_order [OF scheduled.intro [OF assms(1,2)] assms(4,3,5)] .

theorem conflict_free_calls_in_any_order_witness:
  "\<exists>L'. run_calls (ref_rt 0) ref_pid
     [([signer_info 20, plain_info 30], SetMessageFee 6), ([signer_info 25, plain_info 254147], SetBaseFee 7)] stage = Inr L' \<and>
     run_calls (ref_rt 0) ref_pid
     [([signer_info 25, plain_info 254147], SetBaseFee 7), ([signer_info 20, plain_info 30], SetMessageFee 6)] stage = Inr L'"
proof -
  let ?calls = "[([signer_info 20, plain_info 30], SetMessageFee 6),
    ([signer_info 25, plain_info 254147], SetBaseFee 7)]"
  have "is_ok (run_calls (ref_rt 0) ref_pid ?calls stage)"
    by (simp add: dispatch_def process_set_message_fee_def process_set_base_fee_def
        update_platform_setting_def MAX_FEE_CUT_BPS_def run_simps cong: run_congs)
  then obtain L' where run: "run_calls (ref_rt 0) ref_pid ?calls stage = Inr L'"
    by (auto simp: is_ok_iff)
  have "sorted_wrt independent ?calls"
    by (auto simp: independent_def written_def keys_def signer_info_def plain_info_def)
  from conflict_free_calls_in_any_order [OF ref_runtime.solana_axioms ref_confined.confined_axioms
      this _ run, of "rev ?calls"] run
  show ?thesis by auto
qed

end
