(* ===== verification/Charges.thy ===== *)
theory Charges
  imports Fees Settings
begin

text \<open>
  What a payer pays, to the lamport. A \<^emph>\<open>bill\<close> lists accounts, each with its size and with the
  fees due to it. Settling it tops every account up to the rent of its size, adds the fees, takes
  the sum from the payer and leaves all other balances alone.
\<close>

section \<open>Bills\<close>

definition shortfall :: "(nat \<Rightarrow> u64) \<Rightarrow> nat \<Rightarrow> ledger \<Rightarrow> account_info \<Rightarrow> nat" where
  "shortfall rent space L a = unat (rent space) - unat (lamports L a)"

definition settled ::
  "(nat \<Rightarrow> u64) \<Rightarrow> account_info \<Rightarrow> (account_info \<times> nat \<times> nat) list \<Rightarrow> ledger \<Rightarrow> ledger \<Rightarrow> bool" where
  "settled rent payer bill L L' \<longleftrightarrow>
     unat (lamports L payer) =
       unat (lamports L' payer) + (\<Sum>(a, space, fee)\<leftarrow>bill. shortfall rent space L a + fee) \<and>
     (\<forall>(a, space, fee)\<in>set bill.
       unat (lamports L' a) = unat (lamports L a) + shortfall rent space L a + fee) \<and>
     (\<forall>k. k \<notin> insert (ai_key payer) (ai_key ` fst ` set bill) \<longrightarrow>
       acc_lamports (L' k) = acc_lamports (L k))"

text \<open>The accounts of a bill are different from each other and from the payer, and each is either
  still to be created or holds its rent.\<close>

definition billable ::
  "runtime \<Rightarrow> (nat \<Rightarrow> u64) \<Rightarrow> account_info \<Rightarrow> (account_info \<times> nat \<times> nat) list \<Rightarrow> ledger \<Rightarrow> bool" where
  "billable rt rent payer bill L \<longleftrightarrow>
     distinct (ai_key payer # map (ai_key \<circ> fst) bill) \<and>
     (\<forall>(a, space, _)\<in>set bill. is_uninitialized rt a L \<or> rent space \<le> lamports L a)"

lemma capped_cuts:
  assumes "settings_capped s"
  shows "ps_base_fee_bps s \<le> 10000" "ps_author_fee_cut_bps s \<le> 10000"
    "ps_entry_cut_bps s \<le> 10000" "ps_like_cut_bps s \<le> 10000"
  using assms by (auto simp: settings_capped_def MAX_FEE_CUT_BPS_def elim: order_trans)

section \<open>One payment\<close>

text \<open>\<open>d\<close> lamports from the payer to one other account, and no other balance changes.\<close>

definition paid_to :: "account_info \<Rightarrow> account_info \<Rightarrow> nat \<Rightarrow> ledger \<Rightarrow> ledger \<Rightarrow> bool" where
  "paid_to payer a d L L' \<longleftrightarrow>
     unat (lamports L payer) = unat (lamports L' payer) + d \<and>
     unat (lamports L' a) = unat (lamports L a) + d \<and>
     (\<forall>k. k \<noteq> ai_key payer \<and> k \<noteq> ai_key a \<longrightarrow> acc_lamports (L' k) = acc_lamports (L k))"

lemma paid_nothing: "(\<And>k. acc_lamports (L' k) = acc_lamports (L k)) \<Longrightarrow> paid_to payer a 0 L L'"
  by (simp add: paid_to_def lamports_def)

lemma paid_elsewhere:
  "paid_to payer a d L L' \<Longrightarrow> ai_key b \<noteq> ai_key payer \<Longrightarrow> ai_key b \<noteq> ai_key a \<Longrightarrow>
   lamports L' b = lamports L b"
  by (simp add: paid_to_def lamports_def)

text \<open>Payments one after the other, from the same payer.\<close>

fun payments :: "account_info \<Rightarrow> (account_info \<times> nat) list \<Rightarrow> ledger \<Rightarrow> ledger \<Rightarrow> bool" where
  "payments payer [] L L' \<longleftrightarrow> (\<forall>k. acc_lamports (L' k) = acc_lamports (L k))"
| "payments payer ((a, d) # ps) L L' \<longleftrightarrow>
     (\<exists>L1. paid_to payer a d L L1 \<and> payments payer ps L1 L')"

lemma payments_append:
  "payments payer ps L L1 \<Longrightarrow> payments payer qs L1 L' \<Longrightarrow> payments payer (ps @ qs) L L'"
proof (induction ps arbitrary: L)
  case Nil
  have same: "payments payer qs L L'" if "\<forall>k. acc_lamports (L1 k) = acc_lamports (L k)" "payments payer qs L1 L'"
    for L L1
    using that
  proof (induction qs arbitrary: L L1)
    case (Cons q qs)
    then show ?case by (cases q) (auto simp: paid_to_def lamports_def)
  qed simp
  from same [OF _ Nil(2), of L] Nil(1) show ?case by simp
next
  case (Cons p ps)
  then show ?case by (cases p) auto
qed

lemma payments_balance:
  assumes "payments payer ps L L'" "\<forall>(a, d)\<in>set ps. ai_key a \<noteq> ai_key payer"
  shows "unat (lamports L payer) = unat (lamports L' payer) + (\<Sum>(a, d)\<leftarrow>ps. d)"
    and "k \<noteq> ai_key payer \<Longrightarrow> unat (acc_lamports (L' k)) =
      unat (acc_lamports (L k)) + (\<Sum>(a, d)\<leftarrow>ps. if ai_key a = k then d else 0)"
proof -
  have "unat (lamports L payer) = unat (lamports L' payer) + (\<Sum>(a, d)\<leftarrow>ps. d) \<and>
    (k \<noteq> ai_key payer \<longrightarrow> unat (acc_lamports (L' k)) =
      unat (acc_lamports (L k)) + (\<Sum>(a, d)\<leftarrow>ps. if ai_key a = k then d else 0))"
    using assms
  proof (induction ps arbitrary: L)
    case (Cons p ps)
    obtain a d where p: "p = (a, d)" by (cases p)
    with Cons.prems(1) obtain L1 where 1: "paid_to payer a d L L1" and 2: "payments payer ps L1 L'"
      by auto
    from 1 Cons.IH [OF 2] Cons.prems(2) p show ?case
      by (auto simp: paid_to_def lamports_def)
  qed (simp add: lamports_def)
  then show "unat (lamports L payer) = unat (lamports L' payer) + (\<Sum>(a, d)\<leftarrow>ps. d)"
    and "k \<noteq> ai_key payer \<Longrightarrow> unat (acc_lamports (L' k)) =
      unat (acc_lamports (L k)) + (\<Sum>(a, d)\<leftarrow>ps. if ai_key a = k then d else 0)"
    by simp_all
qed

lemma payments_elsewhere:
  assumes "payments payer ps L L'" "\<forall>(a, d)\<in>set ps. ai_key a \<noteq> ai_key payer"
    and "ai_key b \<notin> insert (ai_key payer) (ai_key ` fst ` set ps)"
  shows "lamports L' b = lamports L b"
proof -
  have "(\<Sum>(a, d)\<leftarrow>ps. if ai_key a = ai_key b then d else 0) = 0"
    using assms(3) by (induction ps) auto
  with payments_balance(2) [OF assms(1,2), of "ai_key b"] assms(3) show ?thesis
    by (simp add: lamports_def word_unat_eq_iff)
qed

text \<open>Two vaults and one new account, as the handlers that charge fees have them.\<close>

lemma bill_settled:
  assumes "payments payer ps L L'" "distinct [ai_key payer, ai_key ts, ai_key fs, ai_key x]"
    and "mset ps = {#(ts, shortfall rent 0 L ts), (fs, shortfall rent 0 L fs),
      (x, shortfall rent n L x), (ts, d), (fs, e)#}"
  shows "settled rent payer [(ts, 0, d), (fs, 0, e), (x, n, 0)] L L'"
proof -
  have sums: "(\<Sum>p\<leftarrow>ps. f p) = (\<Sum>p\<in>#{#(ts, shortfall rent 0 L ts), (fs, shortfall rent 0 L fs),
      (x, shortfall rent n L x), (ts, d), (fs, e)#}. f p)" for f :: "account_info \<times> nat \<Rightarrow> nat"
    by (simp flip: assms(3) add: sum_mset_sum_list [symmetric])
  have "set ps = {(ts, shortfall rent 0 L ts), (fs, shortfall rent 0 L fs),
      (x, shortfall rent n L x), (ts, d), (fs, e)}"
    by (simp flip: set_mset_mset add: assms(3))
  then have ne: "\<forall>(a, d)\<in>set ps. ai_key a \<noteq> ai_key payer" using assms(2) by auto
  note b = payments_balance [OF assms(1) ne, unfolded sums]
  have "acc_lamports (L' k) = acc_lamports (L k)"
    if "k \<notin> {ai_key payer, ai_key ts, ai_key fs, ai_key x}" for k
    using b(2) [of k] that by (auto simp: word_unat_eq_iff)
  moreover have each: "unat (lamports L' a) = unat (lamports L a) + shortfall rent m L a + f"
    if "(a, m, f) \<in> {(ts, 0, d), (fs, 0, e), (x, n, 0)}" for a m f
    using b(2) [of "ai_key a"] that assms(2) by (auto simp: lamports_def)
  ultimately show ?thesis
    using b(1) each [of ts 0 d] each [of fs 0 e] each [of x n 0] by (auto simp: settled_def)
qed

lemma paid_then:
  "paid_to payer a d L L1 \<Longrightarrow> paid_to payer a e L1 L' \<Longrightarrow> paid_to payer a (d + e) L L'"
  by (simp add: paid_to_def)

text \<open>Steps that move no lamports.\<close>

lemma paid_cong:
  assumes "paid_to payer a d L L1" "\<And>k. acc_lamports (L' k) = acc_lamports (L1 k)"
  shows "paid_to payer a d L L'"
  using assms by (simp add: paid_to_def lamports_def)

context solana
begin

lemma paid_transfer:
  assumes "rt_transfer rt payer a n L = Inr L'" "ai_key payer \<noteq> ai_key a"
  shows "paid_to payer a (unat n) L L'"
  using transfer_ok [OF assms(1)] assms(2)
  by (auto simp: paid_to_def lamports_def move_lamports_acc unat_add_lt unat_sub_le
      word_le_nat_alt)

lemma paid_create:
  assumes "create_pda_account rt pid payer a sp space seeds L = Inr L'"
    and "rt_rent rt = Inr rent" "ai_key payer \<noteq> ai_key a"
  shows "paid_to payer a (shortfall rent space L a) L L'"
proof (cases "lamports L a = 0")
  case True
  with assms(1,2)
  have "rt_create_account rt pid payer a (rent space) (of_nat space) pid [seeds] L = Inr L'"
    by (auto simp: create_pda_account_def ok_simps Let_def)
  from create_account_ok [OF this] True assms(3) show ?thesis
    by (auto simp: paid_to_def shortfall_def lamports_def move_lamports_acc unat_sub_le
        word_le_nat_alt)
next
  case False
  with assms(1,2) obtain L1 L2 where
    L1: "(if lamports L a < rent space
          then rt_transfer rt payer a (rent space - lamports L a) L else Inr L) = Inr L1"
    and L2: "rt_allocate rt pid a (of_nat space) [seeds] L1 = Inr L2"
    and L': "rt_assign rt pid a pid [seeds] L2 = Inr L'"
    by (auto simp: create_pda_account_def ok_simps Let_def)
  have "paid_to payer a (shortfall rent space L a) L L1"
  proof (cases "lamports L a < rent space")
    case True
    with L1 paid_transfer [OF _ assms(3), of "rent space - lamports L a" L L1] show ?thesis
      by (simp add: shortfall_def unat_sub_le)
  next
    case False
    with L1 show ?thesis by (simp add: shortfall_def word_le_nat_alt not_less paid_nothing)
  qed
  then show ?thesis
    by (rule paid_cong) (use allocate_ok [OF L2] assign_ok [OF L'] in auto)
qed

text \<open>A fee into a vault that holds its rent, and the opening of a vault.\<close>

lemma paid_fee:
  assumes "collect_fee_to_shard rt n payer shard L = Inr L'"
    and "rt_rent rt = Inr rent" "rent 0 \<le> lamports L shard" "ai_key payer \<noteq> ai_key shard"
  shows "paid_to payer shard (unat n) L L'"
proof -
  have "(if n > 0 then collect_fee_to_shard rt n payer shard L else Inr L) = Inr L'"
  proof (cases "n = 0")
    case True
    with assms(1) show ?thesis by (simp add: collect_fee_to_shard_def)
  next
    case False
    with assms(1) show ?thesis by (simp add: word_neq_0_conv)
  qed
  from collect_fee_moves [OF this assms(2-4)] show ?thesis by (simp add: paid_to_def)
qed

lemma paid_open:
  assumes "ensure_shard_initialized rt pid payer shard sp seeds bump L = Inr L'"
    and "rt_rent rt = Inr rent" "ai_key payer \<noteq> ai_key shard"
    and "is_uninitialized rt shard L \<or> rent 0 \<le> lamports L shard"
  shows "paid_to payer shard (shortfall rent 0 L shard) L L'" "rent 0 \<le> lamports L' shard"
proof -
  show "paid_to payer shard (shortfall rent 0 L shard) L L'"
    using assms paid_create
    by (auto simp: ensure_shard_initialized_def shortfall_def word_le_nat_alt
        intro: paid_nothing split: if_splits)
  show "rent 0 \<le> lamports L' shard"
    by (rule ensure_shard_funded [OF assms(1-4)])
qed

section \<open>The payments of a handler\<close>

text \<open>Both vaults, then both parts of a fee.\<close>

lemma uninitialized_elsewhere:
  assumes "\<And>k. k \<noteq> ai_key a \<Longrightarrow> acc_owner (L' k) = acc_owner (L k) \<and> acc_data (L' k) = acc_data (L k)"
    and "ai_key b \<noteq> ai_key a"
  shows "is_uninitialized rt b L' = is_uninitialized rt b L"
  using assms by (simp add: is_uninitialized_def owner_def data_def)

lemma open_elsewhere:
  assumes "ensure_shard_initialized rt pid payer a sp seeds bump L = Inr L'"
    and "ai_key b \<noteq> ai_key a"
  shows "is_uninitialized rt b L' = is_uninitialized rt b L"
proof (cases "is_uninitialized rt a L")
  case True
  with assms(1) have "create_pda_account rt pid payer a sp 0 (seeds @ [[bump]]) L = Inr L'"
    by (simp add: ensure_shard_initialized_def)
  from create_pda_account_ok(6) [OF this] assms(2) show ?thesis
    by (intro uninitialized_elsewhere) auto
qed (use assms(1) in \<open>simp add: ensure_shard_initialized_def\<close>)

lemma paid_vaults:
  assumes "ensure_fee_shards_initialized rt pid payer ts fs sp thread i j tb fb L = Inr L'"
    and "rt_rent rt = Inr rent" "distinct [ai_key payer, ai_key ts, ai_key fs]"
    and "is_uninitialized rt ts L \<or> rent 0 \<le> lamports L ts"
    and "is_uninitialized rt fs L \<or> rent 0 \<le> lamports L fs"
  shows "payments payer [(ts, shortfall rent 0 L ts), (fs, shortfall rent 0 L fs)] L L'"
    "rent 0 \<le> lamports L' ts" "rent 0 \<le> lamports L' fs"
    "ai_key b \<notin> {ai_key ts, ai_key fs} \<Longrightarrow> is_uninitialized rt b L' = is_uninitialized rt b L"
proof -
  from assms(1) obtain L1 where
    1: "ensure_shard_initialized rt pid payer ts sp
      [TREASURY_SHARD_SEED, le_bytes 2 (unat i)] tb L = Inr L1"
    and 2: "ensure_shard_initialized rt pid payer fs sp
      [AUTHOR_FEE_SEED, as_ref thread, [j]] fb L1 = Inr L'"
    by (auto simp: ensure_fee_shards_initialized_def attempt_Inr_iff)
  have ne: "ai_key payer \<noteq> ai_key ts" "ai_key payer \<noteq> ai_key fs" "ai_key fs \<noteq> ai_key payer"
    "ai_key fs \<noteq> ai_key ts" "ai_key ts \<noteq> ai_key payer" "ai_key ts \<noteq> ai_key fs"
    using assms(3) by auto
  note t = paid_open [OF 1 assms(2) ne(1) assms(4)]
  have fs: "lamports L1 fs = lamports L fs"
    by (rule paid_elsewhere [OF t(1) ne(3,4)])
  then have f: "is_uninitialized rt fs L1 \<or> rent 0 \<le> lamports L1 fs"
    using assms(5) open_elsewhere [OF 1 ne(4)] by simp
  note u = paid_open [OF 2 assms(2) ne(2) f]
  from t(1) u(1) fs
  show "payments payer [(ts, shortfall rent 0 L ts), (fs, shortfall rent 0 L fs)] L L'"
    by (auto simp: shortfall_def)
  show "rent 0 \<le> lamports L' ts"
    using t(2) paid_elsewhere [OF u(1) ne(5,6)] by simp
  show "rent 0 \<le> lamports L' fs" by (rule u(2))
  show "is_uninitialized rt b L' = is_uninitialized rt b L"
    if "ai_key b \<notin> {ai_key ts, ai_key fs}"
    using that open_elsewhere [OF 1, of b] open_elsewhere [OF 2, of b] by simp
qed

lemma paid_split:
  assumes "transfer_fee_split rt amount cut_bps payer fs ts L = Inr L'"
    and "rt_rent rt = Inr rent" "distinct [ai_key payer, ai_key ts, ai_key fs]"
    and "rent 0 \<le> lamports L ts" "rent 0 \<le> lamports L fs" "cut_bps \<le> 10000"
  shows "payments payer [(ts, unat amount * unat cut_bps div 10000),
    (fs, unat amount - unat amount * unat cut_bps div 10000)] L L'"
proof -
  obtain a p where split: "compute_fee_split amount cut_bps = (a, p)" by fastforce
  with compute_fee_split_eq [OF assms(6), of amount]
  have parts: "unat p = unat amount * unat cut_bps div 10000"
    "unat a = unat amount - unat amount * unat cut_bps div 10000" by simp_all
  from assms(1) split obtain L1 where
    L1: "(if p > 0 then collect_fee_to_shard rt p payer ts L else Inr L) = Inr L1"
    and L2: "(if a > 0 then collect_fee_to_shard rt a payer fs L1 else Inr L1) = Inr L'"
    by (auto simp: transfer_fee_split_def attempt_Inr_iff)
  have 1: "paid_to payer ts (unat p) L L1"
    using collect_fee_moves [OF L1 assms(2,4)] assms(3) by (simp add: paid_to_def)
  have "lamports L1 fs = lamports L fs"
    using assms(3) by (intro paid_elsewhere [OF 1]) auto
  then have "rent 0 \<le> lamports L1 fs" using assms(5) by simp
  from collect_fee_moves [OF L2 assms(2) this] assms(3)
  have "paid_to payer fs (unat a) L1 L'" by (simp add: paid_to_def)
  with 1 parts show ?thesis by auto
qed

lemma paid_parts:
  assumes "(if amount > 0 then transfer_fee_split rt amount cut_bps payer fs ts L else Inr L) = Inr L'"
    and "rt_rent rt = Inr rent" "distinct [ai_key payer, ai_key ts, ai_key fs]"
    and "rent 0 \<le> lamports L ts" "rent 0 \<le> lamports L fs" "cut_bps \<le> 10000"
  shows "payments payer [(ts, unat amount * unat cut_bps div 10000),
    (fs, unat amount - unat amount * unat cut_bps div 10000)] L L'"
proof (cases "amount > 0")
  case True
  with assms(1) paid_split [OF _ assms(2-6), of amount L'] show ?thesis by simp
next
  case False
  with assms(1) have "amount = 0" "L' = L" by (simp_all add: not_less)
  then show ?thesis by (auto intro!: exI [of _ L] paid_nothing)
qed

lemma split_uninitialized:
  assumes "transfer_fee_split rt amount cut_bps payer fs ts L = Inr L'"
  shows "is_uninitialized rt b L' = is_uninitialized rt b L"
proof -
  obtain a p where split: "compute_fee_split amount cut_bps = (a, p)" by fastforce
  with assms have "acc_owner (L' (ai_key b)) = acc_owner (L (ai_key b)) \<and>
      acc_data (L' (ai_key b)) = acc_data (L (ai_key b))"
    by (auto simp: transfer_fee_split_def attempt_Inr_iff collect_fee_contents split: if_splits)
  then show ?thesis by (simp add: is_uninitialized_def owner_def data_def)
qed

text \<open>A new account with its struct.\<close>

lemma paid_struct:
  assumes "create_pda_account rt pid payer a sp space seeds L = Inr L1"
    and "serialize c x a L1 = Inr L'" "rt_rent rt = Inr rent" "ai_key payer \<noteq> ai_key a"
  shows "paid_to payer a (shortfall rent space L a) L L'"
  by (rule paid_cong [OF paid_create [OF assms(1,3,4)]]) (simp add: serialize_keeps [OF assms(2)])

text \<open>Without any assumption about rent, each vault gains at least its part.\<close>

lemma parts_at_least:
  assumes "(if amount > 0 then transfer_fee_split rt amount cut_bps payer fs ts L else Inr L) = Inr L'"
    and "cut_bps \<le> 10000" "ai_key payer \<notin> {ai_key ts, ai_key fs}"
  shows "unat (lamports L ts) + unat amount * unat cut_bps div 10000 \<le> unat (lamports L' ts)"
    "unat (lamports L fs) + (unat amount - unat amount * unat cut_bps div 10000)
      \<le> unat (lamports L' fs)"
proof -
  have "unat (lamports L ts) + unat amount * unat cut_bps div 10000 \<le> unat (lamports L' ts) \<and>
    unat (lamports L fs) + (unat amount - unat amount * unat cut_bps div 10000)
      \<le> unat (lamports L' fs)"
  proof (cases "amount > 0")
    case True
    with assms transfer_fee_split_paid [of amount cut_bps payer fs ts L L'] show ?thesis
      by (simp add: compute_fee_split_eq [OF assms(2), of amount])
  next
    case False
    with assms(1) have "amount = 0" "L' = L" by (simp_all add: not_less)
    then show ?thesis by simp
  qed
  then show "unat (lamports L ts) + unat amount * unat cut_bps div 10000 \<le> unat (lamports L' ts)"
    "unat (lamports L fs) + (unat amount - unat amount * unat cut_bps div 10000)
      \<le> unat (lamports L' fs)" by simp_all
qed

end

end
