(* ===== verification/Bills.thy ===== *)
theory Bills
  imports Messages Charges
begin

text \<open>
  What posting, liking and buying admission cost. Each handler settles one bill: the treasury's
  vault gets the platform's part of the fee, the author's vault the rest, and the new account its
  rent; vaults and new account are topped up to their rent. Both vaults are the program's own,
  named by the indices in the instruction.
\<close>

definition vaults_named ::
  "runtime \<Rightarrow> pubkey \<Rightarrow> pubkey \<Rightarrow> account_info \<Rightarrow> u16 \<Rightarrow> account_info \<Rightarrow> u8 \<Rightarrow> bool" where
  "vaults_named rt pid thread ts i fs j \<longleftrightarrow>
     i < N_TREASURY_SHARDS \<and> ai_key ts = fst (derive_treasury_shard_pda rt pid i) \<and>
     j < N_AUTHOR_FEE_SHARDS \<and> ai_key fs = fst (derive_author_fee_pda rt pid thread j)"

text \<open>The bill for a fee: the platform's part, rounded down, is the first vault's, the rest the
  second's; the new account is billed its rent only.\<close>

definition fee_bill :: "account_info \<Rightarrow> account_info \<Rightarrow> nat \<Rightarrow> nat \<Rightarrow> nat \<Rightarrow> account_info \<Rightarrow> nat \<Rightarrow>
    (account_info \<times> nat \<times> nat) list" where
  "fee_bill ts fs base fee bps a space =
     [(ts, 0, base + fee * bps div 10000), (fs, 0, fee - fee * bps div 10000), (a, space, 0)]"

text \<open>Every fee of a bill reaches its account, whatever the accounts held before.\<close>

definition fees_arrive :: "(account_info \<times> nat \<times> nat) list \<Rightarrow> ledger \<Rightarrow> ledger \<Rightarrow> bool" where
  "fees_arrive bill L L' \<longleftrightarrow>
     (\<forall>(a, _, fee)\<in>set bill. unat (lamports L a) + fee \<le> unat (lamports L' a))"

lemma fees_arrive_split:
  assumes "bps \<le> 10000" "unat (lamports L a) \<le> unat (lamports L' a)"
    and "unat (lamports L ts) + unat (snd (compute_fee_split fee bps)) \<le> unat (lamports L' ts)"
    and "unat (lamports L fs) + unat (fst (compute_fee_split fee bps)) \<le> unat (lamports L' fs)"
  shows "fees_arrive (fee_bill ts fs 0 (unat fee) (unat bps) a space) L L'"
  using assms(2-4)
  by (simp add: fees_arrive_def fee_bill_def compute_fee_split_eq [OF assms(1)])

context solana
begin

text \<open>Liking.\<close>

lemma like_content_bill:
  assumes "process_like_content rt pid (payer # lk # ca # th # st # ts # fs # sp # rest)
      alloc_seq slot i j max_fee L = Inr L'"
    and "content_at rt pid L (ai_key ca) = Some n" "thread_at rt pid L (ai_key th) = Some t"
    and "settings_at rt pid L (ai_key st) = Some s"
    and fee: "fee = (if tn_like_fee t > 0 \<and> ai_key payer \<noteq> ch_author (cn_header n)
      then tn_like_fee t else 0)"
    and bill: "bill = fee_bill ts fs 0 (unat fee) (unat (ps_like_cut_bps s)) lk AllocLikes_size"
  shows "vaults_named rt pid (ai_key th) ts i fs j"
    and "fee \<le> max_fee"
    and "ps_like_cut_bps s \<le> 10000 \<Longrightarrow> rt_rent rt = Inr rent \<Longrightarrow> billable rt rent payer bill L \<Longrightarrow>
      settled rent payer bill L L'"
proof -
  from assms(1-4) obtain L1 L3 l x L4 where
    shards: "prepare_fee_shards rt pid payer ts fs sp (ai_key th) i j L = Inr L1"
    and make: "(if is_uninitialized rt lk L1 then
        attempt (create_pda_account rt pid payer lk sp AllocLikes_size
          [LIKES_SEED, as_ref (ai_key th), le_bytes 4 (unat alloc_seq),
            [snd (derive_likes_pda rt pid (ai_key th) alloc_seq)]] L1)
          (serialize (alloc_likes_codec (rt_borsh rt)) (no_likes alloc_seq) lk)
       else Inr L1) = Inr L3"
    and put: "serialize (alloc_likes_codec (rt_borsh rt)) x lk L3 = Inr L4"
    and pay: "(if tn_like_fee t > 0 \<and> ai_key payer \<noteq> ch_author (cn_header n) then
        if tn_like_fee t > max_fee then err FeeExceedsMax
        else transfer_fee_split rt (tn_like_fee t) (ps_like_cut_bps s) payer fs ts L4
       else Inr L4) = Inr L'"
    by (simp add: process_like_content_def Let_def derive_split attempt_Inr_iff
        next_account_info_Inr_iff assert_Inr_iffs if_Inl_Inr_iff(1) load_thread_iff load_settings_iff
        load_content_Inr_iff load_alloc_likes_iff not_le cong: if_cong)
      (elim exE conjE, rule that, (assumption | simp only: is_uninitialized_def length_0_conv)+)
  from shards obtain tb fb where
    vaults: "ensure_fee_shards_initialized rt pid payer ts fs sp (ai_key th) i j tb fb L = Inr L1"
    and "vaults_named rt pid (ai_key th) ts i fs j"
    by (auto simp: prepare_fee_shards_def attempt_Inr_iff validate_fee_shards_iff vaults_named_def)
  then show "vaults_named rt pid (ai_key th) ts i fs j" by blast
  show "fee \<le> max_fee" using pay fee by (auto split: if_splits)
  show "settled rent payer bill L L'"
    if cap: "ps_like_cut_bps s \<le> 10000" and rent: "rt_rent rt = Inr rent"
      and b: "billable rt rent payer bill L"
  proof -
    from b have d: "distinct [ai_key payer, ai_key ts, ai_key fs, ai_key lk]"
      and r: "is_uninitialized rt ts L \<or> rent 0 \<le> lamports L ts"
        "is_uninitialized rt fs L \<or> rent 0 \<le> lamports L fs"
        "is_uninitialized rt lk L \<or> rent AllocLikes_size \<le> lamports L lk"
      by (auto simp: billable_def bill fee_bill_def)
    note v = paid_vaults [OF vaults rent _ r(1,2)]
    have v: "payments payer [(ts, shortfall rent 0 L ts), (fs, shortfall rent 0 L fs)] L L1"
      "rent 0 \<le> lamports L1 ts" "rent 0 \<le> lamports L1 fs"
      "is_uninitialized rt lk L1 = is_uninitialized rt lk L"
      using v d by auto
    have lk: "lamports L1 lk = lamports L lk"
      using d by (intro payments_elsewhere [OF v(1)]) auto
    have made: "payments payer [(lk, shortfall rent AllocLikes_size L lk)] L1 L4"
    proof (cases "is_uninitialized rt lk L1")
      case True
      with make obtain L2 seeds y where
        "create_pda_account rt pid payer lk sp AllocLikes_size seeds L1 = Inr L2"
        "serialize (alloc_likes_codec (rt_borsh rt)) y lk L2 = Inr L3"
        by (auto simp: attempt_Inr_iff)
      from paid_struct [OF this rent] d lk serialize_keeps(2) [OF put] show ?thesis
        by (auto simp: shortfall_def)
    next
      case False
      with make v(4) r(3) serialize_keeps(2) [OF put] show ?thesis
        by (auto simp: shortfall_def word_le_nat_alt intro!: exI [of _ L1] paid_nothing)
    qed
    have "lamports L4 ts = lamports L1 ts" "lamports L4 fs = lamports L1 fs"
      using d by (auto intro!: payments_elsewhere [OF made])
    with v(2,3) have f: "rent 0 \<le> lamports L4 ts" "rent 0 \<le> lamports L4 fs" by simp_all
    have "(if fee > 0 then transfer_fee_split rt fee (ps_like_cut_bps s) payer fs ts L4 else Inr L4)
        = Inr L'"
      using pay fee by (auto split: if_splits)
    note paid = paid_parts [OF this rent _ f cap]
    from d have "distinct [ai_key payer, ai_key ts, ai_key fs]" by simp
    from payments_append [OF v(1) payments_append [OF made paid [OF this]]]
    show ?thesis unfolding bill fee_bill_def add_0 by (rule bill_settled) (use d in simp_all)
  qed
qed

text \<open>Buying admission.\<close>

lemma request_access_bill:
  assumes "process_request_access rt pid (payer # access # entry # th # st # ts # fs # sp # rest)
      i j L = Inr L'"
    and "access_at rt pid L (ai_key access) = Some x" "settings_at rt pid L (ai_key st) = Some s"
    and bill: "bill = fee_bill ts fs 0 (unat (ta_entry_fee x)) (unat (ps_entry_cut_bps s)) entry
      AccessEntry_size"
  shows "vaults_named rt pid (ai_key th) ts i fs j"
    and "ps_entry_cut_bps s \<le> 10000 \<Longrightarrow> rt_rent rt = Inr rent \<Longrightarrow>
      billable rt rent payer bill L \<Longrightarrow> settled rent payer bill L L'"
proof -
  from assms(1-3) obtain L1 L2 prev L3 where new: "is_uninitialized rt entry L"
    and shards: "prepare_fee_shards rt pid payer ts fs sp (ai_key th) i j L = Inr L1"
    and pay: "transfer_fee_split rt (ta_entry_fee x) (ps_entry_cut_bps s) payer fs ts L1 = Inr L2"
    and put: "set_access_entry_status rt pid payer entry sp (ai_key th) (ai_key payer)
        ACCESS_ALLOWED L2 = Inr (prev, L3)"
    and adjust: "adjust_whitelist_count rt access 1 L3 = Inr L'"
    by (auto simp: process_request_access_def Let_def case_prod_beta attempt_Inr_iff
        next_account_info_Inr_iff assert_Inr_iffs if_Inl_Inr_iff load_thread_iff load_settings_iff
        load_thread_access_iff split: if_splits)
  from shards obtain tb fb where
    vaults: "ensure_fee_shards_initialized rt pid payer ts fs sp (ai_key th) i j tb fb L = Inr L1"
    and named: "vaults_named rt pid (ai_key th) ts i fs j"
    by (auto simp: prepare_fee_shards_def attempt_Inr_iff validate_fee_shards_iff vaults_named_def)
  show "vaults_named rt pid (ai_key th) ts i fs j"
    by (rule named)
  show "settled rent payer bill L L'"
    if cap: "ps_entry_cut_bps s \<le> 10000" and rent: "rt_rent rt = Inr rent"
      and b: "billable rt rent payer bill L"
  proof -
    from b have d: "distinct [ai_key payer, ai_key ts, ai_key fs, ai_key entry]"
      and r: "is_uninitialized rt ts L \<or> rent 0 \<le> lamports L ts"
        "is_uninitialized rt fs L \<or> rent 0 \<le> lamports L fs"
      by (auto simp: billable_def bill fee_bill_def)
    from d have d3: "distinct [ai_key payer, ai_key ts, ai_key fs]" by simp
    note v = paid_vaults [OF vaults rent d3 r]
    note paid = paid_split [OF pay rent d3 v(2,3) cap]
    note both = payments_append [OF v(1) paid, simplified append.simps]
    have same: "lamports L2 entry = lamports L entry"
      by (rule payments_elsewhere [OF both]) (use d in auto)
    have "is_uninitialized rt entry L2"
      using new v(4) [of entry] d split_uninitialized [OF pay] by fastforce
    then obtain La seeds y where
      "create_pda_account rt pid payer entry sp AccessEntry_size seeds L2 = Inr La"
      "serialize (access_entry_codec (rt_borsh rt)) y entry La = Inr L3"
      using put by (auto simp: set_access_entry_status_def Let_def case_prod_beta ok_simps)
    from paid_struct [OF this rent] d same
    have "paid_to payer entry (shortfall rent AccessEntry_size L entry) L2 L3"
      by (simp add: shortfall_def)
    moreover have "acc_lamports (L' k) = acc_lamports (L3 k)" for k
      using adjust by (auto simp: adjust_whitelist_count_def ok_simps Let_def serialize_keeps(2))
    ultimately have "payments payer [(entry, shortfall rent AccessEntry_size L entry)] L2 L'"
      by (auto intro: paid_cong)
    from payments_append [OF both this]
    show ?thesis unfolding bill fee_bill_def add_0 by (rule bill_settled) (use d in simp_all)
  qed
qed

text \<open>Posting.\<close>

lemma fill_candidate_steps:
  assumes "fill_candidate rt pid c cand a bump L = Inr L'"
    and msg: "msg = (if fc_fee_exempt c then 0 else tn_message_fee (fc_thread c))"
  obtains L1 L2 L3 where
    "create_pda_account rt pid (fc_payer c) a (fc_system_program c)
       (ContentNode_size (length (fc_body c)))
       [CONTENT_SEED, as_ref (fc_thread_key c), le_bytes 4 (unat (cs_alloc_seq cand)),
         [cs_slot cand], [bump]] L = Inr L1"
    and "serialize (content_node_codec (rt_borsh rt)) (new_content c cand) a L1 = Inr L2"
    and "collect_base_fee rt (fc_rent c (ContentNode_size (length (fc_body c))))
       (ps_base_fee_bps (fc_settings c)) (fc_payer c) (fc_treasury_shard c) L2 = Inr L3"
    and "(if msg > 0 then transfer_fee_split rt msg (ps_author_fee_cut_bps (fc_settings c))
       (fc_payer c) (fc_author_fee_shard c) (fc_treasury_shard c) L3 else Inr L3) = Inr L'"
  using assms(1)
  by (auto simp: fill_candidate_def Let_def attempt_Inr_iff ok_or_Inr_iff if_Inl_Inr_iff
      msg [symmetric])

lemma fill_candidate_bill:
  assumes "fill_candidate rt pid c cand a bump L = Inr L'"
    and msg: "msg = (if fc_fee_exempt c then 0 else tn_message_fee (fc_thread c))"
    and base: "base = unat (fc_rent c (ContentNode_size (length (fc_body c)))) *
      unat (ps_base_fee_bps (fc_settings c)) div 10000"
    and share: "share = unat msg * unat (ps_author_fee_cut_bps (fc_settings c)) div 10000"
    and cap: "settings_capped (fc_settings c)"
    and rent: "rt_rent rt = Inr (fc_rent c)"
    and d: "distinct [ai_key (fc_payer c), ai_key (fc_treasury_shard c),
      ai_key (fc_author_fee_shard c), ai_key a]"
    and r: "fc_rent c 0 \<le> lamports L (fc_treasury_shard c)"
      "fc_rent c 0 \<le> lamports L (fc_author_fee_shard c)"
  shows "payments (fc_payer c)
    [(a, shortfall (fc_rent c) (ContentNode_size (length (fc_body c))) L a),
     (fc_treasury_shard c, base + share),
     (fc_author_fee_shard c, unat msg - share)] L L'"
proof -
  let ?space = "ContentNode_size (length (fc_body c))"
  let ?p = "fc_payer c" and ?ts = "fc_treasury_shard c" and ?fs = "fc_author_fee_shard c"
  obtain L1 L2 L3 where
    make: "create_pda_account rt pid ?p a (fc_system_program c) ?space
       [CONTENT_SEED, as_ref (fc_thread_key c), le_bytes 4 (unat (cs_alloc_seq cand)),
         [cs_slot cand], [bump]] L = Inr L1"
    and put: "serialize (content_node_codec (rt_borsh rt)) (new_content c cand) a L1 = Inr L2"
    and collect: "collect_base_fee rt (fc_rent c ?space) (ps_base_fee_bps (fc_settings c)) ?p ?ts L2
      = Inr L3"
    and pay: "(if msg > 0 then transfer_fee_split rt msg (ps_author_fee_cut_bps (fc_settings c))
       ?p ?fs ?ts L3 else Inr L3) = Inr L'"
    by (rule fill_candidate_steps [OF assms(1) msg])
  note bps = capped_cuts [OF cap]
  have 1: "paid_to ?p a (shortfall (fc_rent c) ?space L a) L L2"
    by (rule paid_struct [OF make put rent]) (use d in simp)
  have "lamports L2 ?ts = lamports L ?ts" "lamports L2 ?fs = lamports L ?fs"
    using d by (auto intro!: paid_elsewhere [OF 1])
  with r have r2: "fc_rent c 0 \<le> lamports L2 ?ts" "fc_rent c 0 \<le> lamports L2 ?fs" by simp_all
  have "collect_fee_to_shard rt (of_nat base) ?p ?ts L2 = Inr L3"
    using collect by (simp add: collect_base_fee_def Let_def base)
  from paid_fee [OF this rent r2(1)] d
  have 2: "paid_to ?p ?ts base L2 L3" by (simp add: base unat_fee_cut [OF bps(1)])
  have "lamports L3 ?fs = lamports L2 ?fs"
    using d by (auto intro!: paid_elsewhere [OF 2])
  moreover have "lamports L2 ?ts \<le> lamports L3 ?ts"
    using 2 by (simp add: paid_to_def word_le_nat_alt)
  ultimately have r3: "fc_rent c 0 \<le> lamports L3 ?ts" "fc_rent c 0 \<le> lamports L3 ?fs"
    using r2 by auto
  have "payments ?p [(?ts, share), (?fs, unat msg - share)] L3 L'"
    using paid_parts [OF pay rent _ r3 bps(2)] d by (simp add: share)
  with 1 paid_then [OF 2] show ?thesis by auto
qed

lemma fill_candidate_at_least:
  assumes "fill_candidate rt pid c cand a bump L = Inr L'"
    and msg: "msg = (if fc_fee_exempt c then 0 else tn_message_fee (fc_thread c))"
    and base: "base = unat (fc_rent c (ContentNode_size (length (fc_body c)))) *
      unat (ps_base_fee_bps (fc_settings c)) div 10000"
    and share: "share = unat msg * unat (ps_author_fee_cut_bps (fc_settings c)) div 10000"
    and cap: "settings_capped (fc_settings c)"
    and ne: "ai_key (fc_payer c) \<notin> {ai_key (fc_treasury_shard c), ai_key (fc_author_fee_shard c)}"
  shows "unat (lamports L (fc_treasury_shard c)) + base + share
      \<le> unat (lamports L' (fc_treasury_shard c))"
    "unat (lamports L (fc_author_fee_shard c)) + (unat msg - share)
      \<le> unat (lamports L' (fc_author_fee_shard c))"
proof -
  let ?space = "ContentNode_size (length (fc_body c))"
  let ?p = "fc_payer c" and ?ts = "fc_treasury_shard c" and ?fs = "fc_author_fee_shard c"
  obtain L1 L2 L3 where
    make: "create_pda_account rt pid ?p a (fc_system_program c) ?space
       [CONTENT_SEED, as_ref (fc_thread_key c), le_bytes 4 (unat (cs_alloc_seq cand)),
         [cs_slot cand], [bump]] L = Inr L1"
    and put: "serialize (content_node_codec (rt_borsh rt)) (new_content c cand) a L1 = Inr L2"
    and collect: "collect_base_fee rt (fc_rent c ?space) (ps_base_fee_bps (fc_settings c)) ?p ?ts L2
      = Inr L3"
    and pay: "(if msg > 0 then transfer_fee_split rt msg (ps_author_fee_cut_bps (fc_settings c))
       ?p ?fs ?ts L3 else Inr L3) = Inr L'"
    by (rule fill_candidate_steps [OF assms(1) msg])
  note bps = capped_cuts [OF cap]
  from ne have ne': "ai_key ?ts \<noteq> ai_key ?p" "ai_key ?fs \<noteq> ai_key ?p" by auto
  have "effect pid {ai_key a} {ai_key ?p} L L3"
    by (rule effect_trans [OF effect_trans [OF create_pda_account_effect [OF make]
        serialize_effect [OF put]] collect_base_fee_effect [OF collect]]) simp_all
  from effect_balance [OF this, of ?fs] parts_at_least(2) [OF pay bps(2) ne] ne'
  show "unat (lamports L ?fs) + (unat msg - share) \<le> unat (lamports L' ?fs)"
    by (simp add: share)
  have "effect pid {ai_key a} {ai_key ?p} L L2"
    by (rule effect_trans [OF create_pda_account_effect [OF make] serialize_effect [OF put]])
      simp_all
  from effect_balance [OF this, of ?ts] collect_base_fee_paid [OF collect bps(1)]
    parts_at_least(1) [OF pay bps(2) ne] ne'
  show "unat (lamports L ?ts) + base + share \<le> unat (lamports L' ?ts)"
    by (simp add: share base)
qed

lemma fill_slot_vaults:
  assumes "process_fill_slot rt pid (payer # th # st # ts # fs # sp # rest) kind body cands i j ra rs
    max_fee L = Inr L'"
  shows "vaults_named rt pid (ai_key th) ts i fs j"
  using assms
  by (auto simp: process_fill_slot_def Let_def case_prod_beta attempt_Inr_iff
      next_account_info_Inr_iff if_Inl_Inr_iff validate_fee_shards_iff vaults_named_def)

lemma fill_slot_bill:
  assumes "process_fill_slot rt pid accounts kind body cands i j ra rs max_fee L = Inr L'"
  shows "\<exists>payer th st ts fs sp rest t s rent cand a msg base bill.
    accounts = payer # th # st # ts # fs # sp # rest \<and> is_signer payer \<and>
    thread_at rt pid L (ai_key th) = Some t \<and> settings_at rt pid L (ai_key st) = Some s \<and>
    may_post rt pid L (ai_key th) (tn_author t) (ai_key payer) \<and> rt_rent rt = Inr rent \<and>
    vaults_named rt pid (ai_key th) ts i fs j \<and>
    (cand, a) \<in> set (zip cands rest) \<and> content_at rt pid L' (ai_key a) \<noteq> None \<and>
    msg = (if fee_exempt rt pid L (ai_key th) (tn_author t) (ai_key payer) then 0
      else unat (tn_message_fee t)) \<and>
    base = unat (rent (ContentNode_size (length body))) * unat (ps_base_fee_bps s) div 10000 \<and>
    bill = fee_bill ts fs base msg (unat (ps_author_fee_cut_bps s)) a
      (ContentNode_size (length body)) \<and>
    (settings_capped s \<longrightarrow> base + msg \<le> unat max_fee \<and>
      (ai_key payer \<notin> ai_key ` fst ` set bill \<longrightarrow> fees_arrive bill L L') \<and>
      (billable rt rent payer bill L \<longrightarrow> settled rent payer bill L L'))"
proof -
  from fill_slot_ok [OF assms] obtain
      payer th st ts fs sp :: account_info and rest t s rent now L1 c tb fb where
    acc: "accounts = payer # th # st # ts # fs # sp # rest" "is_signer payer"
      "thread_at rt pid L (ai_key th) = Some t" "settings_at rt pid L (ai_key st) = Some s"
      "may_post rt pid L (ai_key th) (tn_author t) (ai_key payer)" "rt_rent rt = Inr rent"
    and len: "length body \<le> MAX_BODY_LEN"
    and vaults: "ensure_fee_shards_initialized rt pid payer ts fs sp (ai_key th) i j tb fb L = Inr L1"
    and c: "c = \<lparr>fc_payer = payer, fc_thread_key = ai_key th, fc_thread = t, fc_settings = s,
      fc_treasury_shard = ts, fc_author_fee_shard = fs, fc_system_program = sp,
      fc_fee_exempt = fee_exempt rt pid L (ai_key th) (tn_author t) (ai_key payer),
      fc_created_at = now, fc_rent = rent, fc_kind = kind, fc_body = body,
      fc_reply_alloc_seq = ra, fc_reply_slot = rs, fc_max_fee = max_fee\<rparr>"
    and loop: "fill_loop rt pid c (zip cands rest) L1 = Inr L'"
    by (elim exE conjE)
  note named = fill_slot_vaults [OF assms [unfolded acc(1)]]
  from fill_loop_ok [OF loop] obtain before cand a after bump where
    zip: "zip cands rest = before @ (cand, a) # after"
    and fill: "fill_candidate rt pid c cand a bump L1 = Inr L'" by blast
  let ?fee = "if fc_fee_exempt c then 0 else tn_message_fee (fc_thread c)"
  let ?space = "ContentNode_size (length body)"
  let ?base = "unat (rent ?space) * unat (ps_base_fee_bps s) div 10000"
  let ?share = "unat ?fee * unat (ps_author_fee_cut_bps s) div 10000"
  let ?bill = "fee_bill ts fs ?base (unat ?fee) (unat (ps_author_fee_cut_bps s)) a ?space"
  have sel: "fc_payer c = payer" "fc_treasury_shard c = ts" "fc_author_fee_shard c = fs"
    "fc_settings c = s" "fc_rent c = rent" "fc_body c = body" "fc_max_fee c = max_fee"
    by (simp_all add: c)
  have fee: "unat ?fee = (if fee_exempt rt pid L (ai_key th) (tn_author t) (ai_key payer) then 0
      else unat (tn_message_fee t))" by (simp add: c)
  note f = fill_candidate_ok [OF fill, unfolded sel, OF len]
  have e1: "effect pid {} {ai_key payer} L L1" by (rule ensure_fee_shards_effect [OF vaults]) simp
  have "?base + unat ?fee \<le> unat max_fee" if "settings_capped s"
    using f(4) [OF capped_cuts(1) [OF that]] by (simp split: if_splits)
  moreover have "fees_arrive ?bill L L'"
    if cap: "settings_capped s" and "ai_key payer \<notin> ai_key ` fst ` set ?bill"
  proof -
    from that(2) have ne: "ai_key payer \<notin> {ai_key ts, ai_key fs}" "ai_key ts \<noteq> ai_key payer"
      "ai_key fs \<noteq> ai_key payer" "ai_key a \<noteq> ai_key payer" by (auto simp: fee_bill_def)
    have e2: "effect pid {ai_key a} {ai_key payer} L1 L'" by (rule f(3)) simp
    from fill_candidate_at_least [OF fill refl refl refl, unfolded sel, OF cap ne(1)]
      effect_balance [OF e1, of ts] effect_balance [OF e1, of fs] effect_balance [OF e1, of a]
      effect_balance [OF e2, of a] ne(2-4)
    show ?thesis by (auto simp: fees_arrive_def fee_bill_def)
  qed
  moreover have "settled rent payer ?bill L L'"
    if cap: "settings_capped s" and b: "billable rt rent payer ?bill L"
  proof -
    from b have d: "distinct [ai_key payer, ai_key ts, ai_key fs, ai_key a]"
      "distinct [ai_key payer, ai_key ts, ai_key fs]"
      and r: "is_uninitialized rt ts L \<or> rent 0 \<le> lamports L ts"
        "is_uninitialized rt fs L \<or> rent 0 \<le> lamports L fs"
      by (auto simp: billable_def fee_bill_def)
    note v = paid_vaults [OF vaults acc(6) d(2) r]
    have "lamports L1 a = lamports L a"
      by (rule payments_elsewhere [OF v(1)]) (use d in auto)
    with fill_candidate_bill [OF fill refl refl refl, unfolded sel, OF cap acc(6) d(1) v(2,3)]
    have "payments payer [(a, shortfall rent ?space L a), (ts, ?base + ?share),
        (fs, unat ?fee - ?share)] L1 L'" by (simp add: shortfall_def)
    from payments_append [OF v(1) this]
    show ?thesis unfolding fee_bill_def by (rule bill_settled) (use d in simp_all)
  qed
  ultimately show ?thesis
    using acc named zip f(1) unfolding fee
    by (intro exI conjI) (assumption | simp | blast)+
qed

end

section \<open>Properties\<close>

lemma stage_capped: "settings_capped stage_settings"
  by (simp add: settings_capped_def stage_settings_def MAX_FEE_CUT_BPS_def)

text \<open>C33. A wallet that admits itself pays for it: the thread must sell entry, the wallet must be
  without an entry, and a success leaves it on the whitelist, counted, for exactly one entry fee,
  split between the treasury's vault and the author's vault of this very thread. Beyond the fee it
  pays the rent of its entry and of a vault that is new; nobody else's balance changes.\<close>

theorem self_service_entry_is_paid:
  assumes "solana rt pid" "process_request_access rt pid accounts i j L = Inr L'"
  shows "\<exists>payer access entry th st ts fs sp rest x s bill.
    accounts = payer # access # entry # th # st # ts # fs # sp # rest \<and> is_signer payer \<and>
    access_at rt pid L (ai_key access) = Some x \<and> ta_thread x = ai_key th \<and>
    settings_at rt pid L (ai_key st) = Some s \<and> ta_entry_fee x \<noteq> 0 \<and>
    vaults_named rt pid (ai_key th) ts i fs j \<and>
    entry_status rt pid L (ai_key th) (ai_key payer) = None \<and>
    entry_status rt pid L' (ai_key th) (ai_key payer) = Some ACCESS_ALLOWED \<and>
    access_at rt pid L' (ai_key access) = Some (x\<lparr>ta_whitelist_count :=
      moved_count (ta_whitelist_count x) 1\<rparr>) \<and>
    effect pid {ai_key entry, ai_key access} {ai_key payer} L L' \<and>
    bill = fee_bill ts fs 0 (unat (ta_entry_fee x)) (unat (ps_entry_cut_bps s)) entry
      AccessEntry_size \<and>
    (settings_capped s \<longrightarrow>
      (ai_key payer \<notin> ai_key ` fst ` set bill \<longrightarrow> fees_arrive bill L L') \<and>
      (\<forall>rent. rt_rent rt = Inr rent \<and> billable rt rent payer bill L \<longrightarrow>
        settled rent payer bill L L'))"
proof -
  from solana.request_access_ok [OF assms] obtain
      payer access entry th st ts fs sp :: account_info and rest x s where
    a: "accounts = payer # access # entry # th # st # ts # fs # sp # rest" "is_signer payer"
      "access_at rt pid L (ai_key access) = Some x" "ta_thread x = ai_key th"
      "settings_at rt pid L (ai_key st) = Some s" "ta_entry_fee x \<noteq> 0"
    and eff: "effect pid {ai_key entry, ai_key access} {ai_key payer} L L'"
    and key: "ai_key entry = fst (derive_access_entry_pda rt pid (ai_key th) (ai_key payer))"
    and new: "is_uninitialized rt entry L"
    and e: "entry_at rt pid L' (ai_key entry) =
      Some (entry_for (ai_key th) (ai_key payer) ACCESS_ALLOWED)"
    and x': "access_at rt pid L' (ai_key access) = Some (x\<lparr>ta_whitelist_count :=
      moved_count (ta_whitelist_count x) (counter_delta None (Some ACCESS_ALLOWED))\<rparr>)"
    and paid: "ai_key payer \<noteq> ai_key ts \<and> ai_key payer \<noteq> ai_key fs \<longrightarrow>
      unat (lamports L ts) + unat (snd (compute_fee_split (ta_entry_fee x) (ps_entry_cut_bps s)))
        \<le> unat (lamports L' ts) \<and>
      unat (lamports L fs) + unat (fst (compute_fee_split (ta_entry_fee x) (ps_entry_cut_bps s)))
        \<le> unat (lamports L' fs)"
    by (elim exE conjE)
  let ?bill = "fee_bill ts fs 0 (unat (ta_entry_fee x)) (unat (ps_entry_cut_bps s)) entry
    AccessEntry_size"
  have st: "entry_status rt pid L (ai_key th) (ai_key payer) = None"
    "entry_status rt pid L' (ai_key th) (ai_key payer) = Some ACCESS_ALLOWED"
    using solana.uninitialized_no_view(1) [OF assms(1) new] e
    by (simp_all add: entry_status_def key entry_for_def)
  have one: "counter_delta None (Some ACCESS_ALLOWED) = 1" by (simp add: counter_delta_def)
  note b = solana.request_access_bill [OF assms(1) assms(2) [unfolded a(1)] a(3,5) refl]
  have "fees_arrive ?bill L L'"
    if cap: "settings_capped s" and ne: "ai_key payer \<notin> ai_key ` fst ` set ?bill"
    by (rule fees_arrive_split [OF capped_cuts(3) [OF cap]])
      (use paid ne effect_balance [OF eff, of entry] in \<open>auto simp: fee_bill_def\<close>)
  moreover have "settled rent payer ?bill L L'"
    if "settings_capped s" "rt_rent rt = Inr rent" "billable rt rent payer ?bill L" for rent
    by (rule b(2) [OF capped_cuts(3) [OF that(1)] that(2,3)])
  ultimately show ?thesis using a b(1) st x' [unfolded one] eff by blast
qed

theorem self_service_entry_is_paid_witness:
  "\<exists>L'. process_request_access (ref_rt 0) ref_pid
     [signer_info 21, plain_info 870984, plain_info 438257, plain_info 30, plain_info 254147,
      plain_info 32017, plain_info 624592, plain_info 0] 3 1 stage = Inr L' \<and>
   entry_status (ref_rt 0) ref_pid L' 30 21 = Some ACCESS_ALLOWED \<and>
   unat (lamports L' (plain_info 32017)) = 891380 + 700 \<and>
   unat (lamports L' (plain_info 624592)) = 891780 + 6300 \<and>
   unat (lamports L' (signer_info 21)) + 7000 + 1350240 = 1000000000000"
proof -
  have run: "is_ok (process_request_access (ref_rt 0) ref_pid
     [signer_info 21, plain_info 870984, plain_info 438257, plain_info 30, plain_info 254147,
      plain_info 32017, plain_info 624592, plain_info 0] 3 1 stage)"
    by (simp add: run_simps cong: run_congs)
  have views: "access_at (ref_rt 0) ref_pid stage 870984 = Some stage_access"
    "settings_at (ref_rt 0) ref_pid stage 254147 = Some stage_settings"
    by (simp_all add: run_simps)
  have bill: "billable (ref_rt 0) ref_rent (signer_info 21) (fee_bill (plain_info 32017)
      (plain_info 624592) 0 7000 1000 (plain_info 438257) AccessEntry_size) stage"
    by (simp add: billable_def fee_bill_def run_simps)
  from self_service_entry_is_paid [OF ref_runtime.solana_axioms is_ok_ok_value [OF run]]
  have "settled ref_rent (signer_info 21) (fee_bill (plain_info 32017)
      (plain_info 624592) 0 7000 1000 (plain_info 438257) AccessEntry_size) stage
      (ok_value (process_request_access (ref_rt 0) ref_pid
     [signer_info 21, plain_info 870984, plain_info 438257, plain_info 30, plain_info 254147,
      plain_info 32017, plain_info 624592, plain_info 0] 3 1 stage)) \<and>
    entry_status (ref_rt 0) ref_pid (ok_value (process_request_access (ref_rt 0) ref_pid
     [signer_info 21, plain_info 870984, plain_info 438257, plain_info 30, plain_info 254147,
      plain_info 32017, plain_info 624592, plain_info 0] 3 1 stage)) 30 21 = Some ACCESS_ALLOWED"
    using bill views stage_capped
    by (auto simp: signer_info_def plain_info_def stage_access_def stage_settings_def)
  moreover have "lamports stage (plain_info 32017) = 891380" "lamports stage (plain_info 624592) = 891780"
    "lamports stage (signer_info 21) = 1000000000000"
    "shortfall ref_rent 0 stage (plain_info 32017) = 0"
    "shortfall ref_rent 0 stage (plain_info 624592) = 0"
    "shortfall ref_rent AccessEntry_size stage (plain_info 438257) = 1350240"
    by (simp_all add: shortfall_def run_simps)
  ultimately show ?thesis
    using is_ok_ok_value [OF run] by (auto simp: settled_def fee_bill_def)
qed

text \<open>C34. The poster pays what the settings and the thread say, and never more than the cap
  given with the instruction: the base fee on the message's rent and the platform's part of the
  message fee go to the treasury's vault, the rest of the message fee to the vault of the thread's
  author, nothing of the latter two if the poster is exempt, and base fee and message fee together
  are within \<open>max_fee\<close>. Beyond that the poster pays the rent of the message and of a vault that is
  new, and nobody else's balance changes.\<close>

theorem posting_pays_within_cap:
  assumes "solana rt pid"
    and "process_fill_slot rt pid accounts kind body cands i j ra rs max_fee L = Inr L'"
  shows "\<exists>payer th st ts fs sp rest t s rent cand a msg base bill.
    accounts = payer # th # st # ts # fs # sp # rest \<and> is_signer payer \<and>
    thread_at rt pid L (ai_key th) = Some t \<and> settings_at rt pid L (ai_key st) = Some s \<and>
    may_post rt pid L (ai_key th) (tn_author t) (ai_key payer) \<and> rt_rent rt = Inr rent \<and>
    vaults_named rt pid (ai_key th) ts i fs j \<and>
    (cand, a) \<in> set (zip cands rest) \<and> content_at rt pid L' (ai_key a) \<noteq> None \<and>
    msg = (if fee_exempt rt pid L (ai_key th) (tn_author t) (ai_key payer) then 0
      else unat (tn_message_fee t)) \<and>
    base = unat (rent (ContentNode_size (length body))) * unat (ps_base_fee_bps s) div 10000 \<and>
    bill = fee_bill ts fs base msg (unat (ps_author_fee_cut_bps s)) a
      (ContentNode_size (length body)) \<and>
    (settings_capped s \<longrightarrow> base + msg \<le> unat max_fee \<and>
      (ai_key payer \<notin> ai_key ` fst ` set bill \<longrightarrow> fees_arrive bill L L') \<and>
      (billable rt rent payer bill L \<longrightarrow> settled rent payer bill L L'))"
  by (rule solana.fill_slot_bill [OF assms])

theorem posting_pays_within_cap_witness:
  "\<exists>L'. process_fill_slot (ref_rt 1000) ref_pid
     [signer_info 23, plain_info 30, plain_info 254147, plain_info 32017, plain_info 624592,
      plain_info 0, plain_info 398325, plain_info 870984, plain_info 438771]
     0 [97] [\<lparr>cs_alloc_seq = 0, cs_slot = 1\<rparr>] 3 1 0 0 1000000 stage = Inr L' \<and>
   settled ref_rent (signer_info 23) [(plain_info 32017, 0, 151728 + 500),
     (plain_info 624592, 0, 4500), (plain_info 398325, ContentNode_size 1, 0)] stage L'"
proof -
  let ?accounts = "[signer_info 23, plain_info 30, plain_info 254147, plain_info 32017,
      plain_info 624592, plain_info 0, plain_info 398325, plain_info 870984, plain_info 438771]"
  have run: "is_ok (process_fill_slot (ref_rt 1000) ref_pid ?accounts
     0 [97] [\<lparr>cs_alloc_seq = 0, cs_slot = 1\<rparr>] 3 1 0 0 1000000 stage)"
    by (simp add: run_simps cong: run_congs)
  have views: "thread_at (ref_rt 1000) ref_pid stage 30 = Some stage_thread"
    "settings_at (ref_rt 1000) ref_pid stage 254147 = Some stage_settings"
    by (simp_all add: run_simps)
  have fee: "\<not> fee_exempt (ref_rt 1000) ref_pid stage 30 20 23"
    by (simp add: fee_exempt_def entry_status_def run_simps)
  have base: "unat (ref_rent (ContentNode_size (Suc 0))) * 1000 div 10000 = 151728"
    by (simp add: ref_rent_def size_defs unat_of_nat)
  have bill: "billable (ref_rt 1000) ref_rent (signer_info 23) (fee_bill (plain_info 32017)
      (plain_info 624592) 151728 5000 1000 (plain_info 398325) (ContentNode_size (Suc 0))) stage"
    by (simp add: billable_def fee_bill_def run_simps)
  from posting_pays_within_cap [OF ref_runtime.solana_axioms is_ok_ok_value [OF run]]
  have "settled ref_rent (signer_info 23) (fee_bill (plain_info 32017)
      (plain_info 624592) 151728 5000 1000 (plain_info 398325) (ContentNode_size (Suc 0))) stage
      (ok_value (process_fill_slot (ref_rt 1000) ref_pid ?accounts
       0 [97] [\<lparr>cs_alloc_seq = 0, cs_slot = 1\<rparr>] 3 1 0 0 1000000 stage))"
    using bill views stage_capped fee base
    by (auto simp: signer_info_def plain_info_def stage_thread_def stage_settings_def)
  with is_ok_ok_value [OF run] show ?thesis
    by (auto simp: fee_bill_def)
qed

text \<open>C38. A like adds one to its slot's counter and to no other (and none at the counter's
  maximum). Whoever likes another's message pays the thread's like fee, once: it is within the
  given cap and is split as the settings say between the treasury's vault and the vault of the
  thread's author. Authors like their own messages for free. Beyond the fee the payer pays the rent
  of the counters and of a vault that is new, and nobody else's balance changes.\<close>

theorem like_adds_one:
  assumes "solana rt pid"
    and "process_like_content rt pid accounts alloc_seq slot i j max_fee L = Inr L'"
  shows "\<exists>payer lk ca th st ts fs sp rest n t s fee bill.
    accounts = payer # lk # ca # th # st # ts # fs # sp # rest \<and> is_signer payer \<and>
    content_at rt pid L (ai_key ca) = Some n \<and>
    ai_key ca = fst (derive_content_pda rt pid (ai_key th) alloc_seq slot) \<and>
    ai_key lk = fst (derive_likes_pda rt pid (ai_key th) alloc_seq) \<and>
    thread_at rt pid L (ai_key th) = Some t \<and> settings_at rt pid L (ai_key st) = Some s \<and>
    vaults_named rt pid (ai_key th) ts i fs j \<and>
    (\<forall>k < CONTENT_SLOTS. unat (like_counts rt pid L' (ai_key lk) ! k) =
      (if k = unat slot then min (unat (like_counts rt pid L (ai_key lk) ! k) + 1) (2 ^ 32 - 1)
       else unat (like_counts rt pid L (ai_key lk) ! k))) \<and>
    effect pid {ai_key lk} {ai_key payer} L L' \<and>
    fee = (if tn_like_fee t > 0 \<and> ai_key payer \<noteq> ch_author (cn_header n) then tn_like_fee t else 0) \<and>
    fee \<le> max_fee \<and>
    bill = fee_bill ts fs 0 (unat fee) (unat (ps_like_cut_bps s)) lk AllocLikes_size \<and>
    (settings_capped s \<longrightarrow>
      (ai_key payer \<notin> ai_key ` fst ` set bill \<longrightarrow> fees_arrive bill L L') \<and>
      (\<forall>rent. rt_rent rt = Inr rent \<and> billable rt rent payer bill L \<longrightarrow>
        settled rent payer bill L L'))"
proof -
  from solana.like_content_ok [OF assms] obtain
      payer lk ca th st ts fs sp :: account_info and rest n t s l where
    a: "accounts = payer # lk # ca # th # st # ts # fs # sp # rest" "is_signer payer"
      "content_at rt pid L (ai_key ca) = Some n"
      "ai_key ca = fst (derive_content_pda rt pid (ai_key th) alloc_seq slot)"
      "ai_key lk = fst (derive_likes_pda rt pid (ai_key th) alloc_seq)"
      "thread_at rt pid L (ai_key th) = Some t" "settings_at rt pid L (ai_key st) = Some s"
    and slot: "unat slot < CONTENT_SLOTS" and l: "likes_at rt pid L' (ai_key lk) = Some l"
    and counts: "al_counts l = (like_counts rt pid L (ai_key lk))
      [unat slot := saturating_add (like_counts rt pid L (ai_key lk) ! unat slot) 1]"
    and eff: "effect pid {ai_key lk} {ai_key payer} L L'"
    and paid: "tn_like_fee t > 0 \<and> ai_key payer \<noteq> ch_author (cn_header n) \<longrightarrow>
      tn_like_fee t \<le> max_fee \<and> (ai_key payer \<notin> {ai_key ts, ai_key fs} \<longrightarrow>
      unat (lamports L ts) + unat (snd (compute_fee_split (tn_like_fee t) (ps_like_cut_bps s)))
        \<le> unat (lamports L' ts) \<and>
      unat (lamports L fs) + unat (fst (compute_fee_split (tn_like_fee t) (ps_like_cut_bps s)))
        \<le> unat (lamports L' fs))"
    by (elim exE conjE)
  let ?fee = "if tn_like_fee t > 0 \<and> ai_key payer \<noteq> ch_author (cn_header n) then tn_like_fee t else 0"
  let ?bill = "fee_bill ts fs 0 (unat ?fee) (unat (ps_like_cut_bps s)) lk AllocLikes_size"
  note b = solana.like_content_bill [OF assms(1) assms(2) [unfolded a(1)] a(3,6,7) refl refl]
  have new: "\<forall>k < CONTENT_SLOTS. unat (like_counts rt pid L' (ai_key lk) ! k) =
      (if k = unat slot then min (unat (like_counts rt pid L (ai_key lk) ! k) + 1) (2 ^ 32 - 1)
       else unat (like_counts rt pid L (ai_key lk) ! k))"
    using slot solana.likes_at_shape(4) [OF assms(1)]
    by (auto simp: like_counts_def [of rt pid L'] l counts nth_list_update unat_saturating_add
        like_counts_def split: option.splits)
  have "fees_arrive ?bill L L'"
    if cap: "settings_capped s" and ne: "ai_key payer \<notin> ai_key ` fst ` set ?bill"
  proof -
    from ne have "ai_key payer \<notin> {ai_key ts, ai_key fs}" "ai_key ts \<notin> {ai_key payer}"
      "ai_key fs \<notin> {ai_key payer}" "ai_key lk \<notin> {ai_key payer}" by (auto simp: fee_bill_def)
    with paid effect_balance [OF eff, of ts] effect_balance [OF eff, of fs]
      effect_balance [OF eff, of lk] show ?thesis
      by (intro fees_arrive_split [OF capped_cuts(4) [OF cap]]) (auto simp: compute_fee_split_0)
  qed
  moreover have "settled rent payer ?bill L L'"
    if "settings_capped s" "rt_rent rt = Inr rent" "billable rt rent payer ?bill L" for rent
    by (rule b(3) [OF capped_cuts(4) [OF that(1)] that(2,3)])
  ultimately show ?thesis using a b(1,2) new eff by blast
qed

theorem like_adds_one_witness:
  "\<exists>L'. process_like_content (ref_rt 0) ref_pid
     [signer_info 23, plain_info 164693, plain_info 398068, plain_info 30, plain_info 254147,
      plain_info 32017, plain_info 624592, plain_info 0] 0 0 3 1 5000 stage = Inr L' \<and>
   unat (like_counts (ref_rt 0) ref_pid L' 164693 ! 0) = 5 \<and>
   unat (lamports L' (plain_info 32017)) = 891380 + 300 \<and>
   unat (lamports L' (plain_info 624592)) = 891780 + 2700 \<and>
   unat (lamports L' (signer_info 23)) + 3000 = 1000000000000"
proof -
  let ?accounts = "[signer_info 23, plain_info 164693, plain_info 398068, plain_info 30,
      plain_info 254147, plain_info 32017, plain_info 624592, plain_info 0]"
  have run: "is_ok (process_like_content (ref_rt 0) ref_pid ?accounts 0 0 3 1 5000 stage)"
    by (simp add: run_simps cong: run_congs)
  have views: "content_at (ref_rt 0) ref_pid stage 398068 = Some stage_message"
    "thread_at (ref_rt 0) ref_pid stage 30 = Some stage_thread"
    "settings_at (ref_rt 0) ref_pid stage 254147 = Some stage_settings"
    by (simp_all add: run_simps)
  have four: "like_counts (ref_rt 0) ref_pid stage 164693 ! 0 = 4"
    by (simp add: like_counts_def run_simps)
  have bill: "billable (ref_rt 0) ref_rent (signer_info 23) (fee_bill (plain_info 32017)
      (plain_info 624592) 0 3000 1000 (plain_info 164693) AllocLikes_size) stage"
    by (simp add: billable_def fee_bill_def run_simps)
  let ?L' = "ok_value (process_like_content (ref_rt 0) ref_pid ?accounts 0 0 3 1 5000 stage)"
  from like_adds_one [OF ref_runtime.solana_axioms is_ok_ok_value [OF run]]
  have "settled ref_rent (signer_info 23) (fee_bill (plain_info 32017)
      (plain_info 624592) 0 3000 1000 (plain_info 164693) AllocLikes_size) stage ?L' \<and>
    unat (like_counts (ref_rt 0) ref_pid ?L' 164693 ! 0) = 5"
    using bill views stage_capped four
    by (auto simp: signer_info_def plain_info_def stage_thread_def stage_settings_def
        stage_message_def CONTENT_SLOTS_def)
  moreover have "lamports stage (plain_info 32017) = 891380" "lamports stage (plain_info 624592) = 891780"
    "lamports stage (signer_info 23) = 1000000000000"
    "shortfall ref_rent 0 stage (plain_info 32017) = 0"
    "shortfall ref_rent 0 stage (plain_info 624592) = 0"
    "shortfall ref_rent AllocLikes_size stage (plain_info 164693) = 0"
    by (simp_all add: shortfall_def run_simps)
  ultimately show ?thesis
    using is_ok_ok_value [OF run] by (auto simp: settled_def fee_bill_def)
qed

end
