(* ===== verification/Spec2Isabelle.thy ===== *)
theory Spec2Isabelle
  imports Money History Growing Parallel Bills
begin

text \<open>
  Verification of the Txtcel on-chain program (\<open>src/src\<close>): a forum on Solana, a native program
  without framework.

  \<^bold>\<open>The program.\<close> \<open>lib.rs\<close> decodes an instruction (\<open>instruction.rs\<close>, Borsh) and calls one handler
  of \<open>processor/\<close>. A handler takes accounts off the list it is given, checks them with the guards
  of \<open>state/asserts.rs\<close> and the loaders of \<open>state/loaders.rs\<close>, moves lamports with
  \<open>state/fees.rs\<close> and \<open>state/account_utils.rs\<close>, and writes the structs of \<open>state/accounts.rs\<close>
  and \<open>content/mod.rs\<close> back as bytes. It keeps no state of its own: everything is in accounts,
  most of them at addresses derived from seeds (\<open>state/pda.rs\<close>). A \<^emph>\<open>thread\<close> owns a chain of
  alloc nodes numbered from 0 to \<open>last_alloc_seq\<close>; each node has 32 slots, and a message is the
  content account at the address of its thread, node and slot. A thread can have an access
  account (the \<^emph>\<open>gate\<close>) with one entry account per wallet. Fees go to vaults, sharded by an index,
  which are swept to the treasury or to the thread's author. Likes are counted per node, followed
  threads are listed per user, and followers are counted per thread in eight shards.

  \<^bold>\<open>State and effects.\<close> A ledger maps addresses to accounts (balance, owner, bytes); an
  \<open>account_info\<close> is an address with its signer and writable flags, so two infos of one address
  share one account, as on chain. A handler is a function from the accounts, the fields of its
  instruction and the ledger to \<open>program_error + ledger\<close>: every \<open>Err\<close> is an \<open>Inl\<close>, a panic
  is the error \<open>Panicked\<close>, and a failing instruction has no effect because it returns no ledger.
  Integers have Rust's widths; checked, saturating and wrapping operations are written as such.
\<close>

section \<open>The theories\<close>

text \<open>
  \<^bold>\<open>Ground.\<close>
  \<^item> \<open>Prelude\<close>: Rust's integers, \<open>Result\<close> with \<open>?\<close> (\<open>attempt\<close>), \<open>Vec\<close> operations; the
    collections \<open>ok_simps\<close> (what an \<open>Ok\<close> says) and \<open>run_simps\<close> (evaluation).
  \<^item> \<open>Errors\<close>: \<open>error.rs\<close>. \<open>Borsh\<close>: codecs, the contract \<open>codec\<close> and the format's primitives.
    \<open>Runtime\<close>: accounts, ledger, the calls into code outside the repository. \<open>Layout\<close>:
    \<open>constants.rs\<close>, \<open>accounts.rs\<close>, the structs of \<open>content/mod.rs\<close>, each with the codec it
    derives and its size.
  \<^item> \<open>Ledger\<close>: how a run may change the ledger: \<open>quiet\<close> (which accounts), \<open>spends\<close> (whose
    balance falls), \<open>total\<close> (the sum), and \<open>effect\<close>, the three together. \<open>Views\<close>: the struct an
    account means, and the contract \<open>account_view\<close>.
  \<^item> \<open>Reference\<close>, \<open>Stage\<close>: a concrete runtime that meets the contracts, and a concrete world for
    witnesses.

  \<^bold>\<open>Components\<close>, in the order in which they call each other.
  \<^item> \<open>Asserts\<close>: \<open>state/asserts.rs\<close>. \<open>Pda\<close>: \<open>state/pda.rs\<close>. \<open>Account_Utils\<close>:
    \<open>state/account_utils.rs\<close>. \<open>Loaders\<close>: the loading half of \<open>state/loaders.rs\<close>. \<open>Fees\<close>:
    \<open>state/fees.rs\<close>.
  \<^item> \<open>Settings\<close>: \<open>init_settings.rs\<close>, \<open>set_admin.rs\<close>, \<open>set_treasury.rs\<close>, \<open>set_platform_fees.rs\<close>.
    \<open>Threads\<close>: \<open>create_root_alloc.rs\<close>, \<open>prepare_alloc.rs\<close>, \<open>set_message_fee.rs\<close>,
    \<open>set_like_fee.rs\<close>. \<open>Acl\<close> and \<open>Whitelist\<close>: the access half of \<open>state/loaders.rs\<close> and the
    ten access handlers. \<open>Content\<close>: \<open>content/\<close>. \<open>Posting\<close>: \<open>fill_slot.rs\<close>. \<open>Messages\<close>:
    \<open>append_content.rs\<close>, \<open>close_account.rs\<close>, \<open>like_content.rs\<close>. \<open>Sweep\<close>: the two sweeps.
    \<open>Follow\<close>: \<open>subscribe.rs\<close>, \<open>unsubscribe.rs\<close>.
  \<^item> \<open>Instruction\<close>: \<open>instruction.rs\<close>. \<open>Dispatch\<close>: \<open>lib.rs\<close>, and the table of instructions,
    \<open>serves\<close>, which decoder and dispatch together implement.
  \<^item> \<open>Charges\<close>: payments to the lamport; a \<^emph>\<open>bill\<close> lists accounts with their sizes and the fees due
    to them, and \<open>settled\<close> says that the payer has topped them up to their rent, has paid the fees,
    and that no other balance changed. \<open>Bills\<close>: posting, liking and buying admission settle their
    bills, into the program's own vaults.

  \<^bold>\<open>The whole program.\<close>
  \<^item> \<open>Kinds\<close>: which kinds of accounts each instruction writes, and that lamports are conserved.
  \<^item> \<open>System\<close>: steps, reachable states and the books (dense chains, exact whitelist counters,
    exact follower counts, capped fees). \<open>Placement\<close>: every struct is at its own address.
  \<^item> \<open>Board\<close> and \<open>Steps\<close>: the abstract specification. A board maps addresses to items;
    \<open>board_step\<close> says for each instruction who must have signed, what must be on the board and
    what is on it afterwards. Every handler implements its step (\<open>forum_dispatch\<close>).
  \<^item> \<open>Authority\<close>: whose signature each change takes, read off the steps. \<open>Forum\<close>: reachable boards,
    the refinement as a whole, and that nothing is orphaned. \<open>Scenario\<close>: a short history of calls.
  \<^item> \<open>Panics\<close>: calls never panic and fail with the program's own codes. \<open>Money\<close>: balances fall by
    consent only. \<open>History\<close>: time; what is older than the append window is never rewritten.
  \<^item> \<open>Paying\<close> and \<open>Liveness\<close>: that payments go through, that an admitted wallet can post, that an
    author can close, and that chains end. \<open>Leaving\<close>: that a follower can unfollow and an access
    admin can take any entry back. \<open>Growing\<close>: that a chain can be extended and a thread followed.
  \<^item> \<open>Confined\<close>: a call depends on the accounts it is given and reaches no others (what is
    outside may be replaced, \<open>patch\<close>). \<open>Writes\<close>: of those it changes the writable ones only
    (\<open>within\<close>), a closing payer apart. \<open>Parallel\<close>: both together as the locality of a call, and
    batches of calls without a conflict, which the runtime executes at once and the ledger cannot
    tell from any sequence.
\<close>

section \<open>How the proofs go\<close>

text \<open>
  Each operation has a lemma \<open>..._ok\<close>: what a successful run has checked, what the views are
  afterwards, and its \<open>effect\<close>. Where the contract is two-sided there is an \<open>..._iff\<close> lemma. The
  loaders compute views, so handlers are stated with views and never with bytes; bytes occur in
  \<open>Borsh\<close>, \<open>Layout\<close> and \<open>Instruction\<close> only, where the codecs are shown to be inverse.
  Properties of the whole program go through \<open>dispatch\<close>. Either an instruction that does not write
  a kind keeps it (\<open>kept\<close>) and the few that do are read off their \<open>..._ok\<close> lemmas; so the
  invariants of \<open>System\<close> and \<open>Placement\<close>, instances of one contract, \<open>kind_invariant\<close>. Or the
  property is proved of \<open>board_step\<close>, by one induction over its rules, and carried over.

  \<^bold>\<open>Interfaces\<close> (locales), each interpreted on the program's definitions:
  \<^item> \<open>codec\<close>, \<open>tagged_codec\<close>, \<open>borsh_format\<close>: encoding and decoding; for every struct of
    \<open>Layout\<close> and for the instructions.
  \<^item> \<open>account_view\<close>: a view depends on an account's owner and data; for the nine kinds of
    accounts, the tag byte and the board.
  \<^item> \<open>gated_update\<close>: load behind an authority, change, store; for settings, threads and access
    accounts. \<open>shard_kind\<close>: an index names a vault; for treasury and author vaults.
    \<open>content_body\<close>: the trait of \<open>content/body.rs\<close>; for text and for any Borsh body.
  \<^item> \<open>kind_invariant\<close>: an invariant over one group of kinds; for the books and the placements.
  \<^item> \<open>solana\<close>, \<open>solana_live\<close>, \<open>returning\<close>, \<open>confined\<close>, and \<open>scheduled\<close>, which is \<open>solana\<close> and
    \<open>confined\<close>: the runtime; for the runtime of \<open>Reference\<close>.
\<close>

section \<open>What is assumed of the code outside\<close>

text \<open>
  The record \<open>runtime\<close> holds what the program calls: Borsh's primitives, the derivation of
  addresses, rent, clock, the System Program's four instructions and \<open>AccountInfo::resize\<close>.
  \<^item> \<open>solana\<close> says what a call that succeeds has checked and done. Nothing is assumed of the
    hash behind the addresses: no property needs two seeds to have different addresses.
  \<^item> \<open>solana_live\<close> adds when calls succeed; properties that promise success use it.
  \<^item> \<open>returning\<close> says that the calls return an error instead of panicking; it is used for the
    absence of panics only.
  \<^item> \<open>confined\<close> says that such a call reads and writes only the accounts it is passed; it is used
    for locality and parallel execution only. Whether an account may be written is the flag the
    transaction gives it; that the program leaves read-only accounts alone is proved, not assumed.
  \<^item> Where money is concerned, transaction signers are keys and not derived addresses, because
    nobody has the private key of a derived address.

  \<^bold>\<open>Reachable states\<close> start from any ledger without an account of the program. A step is a
  successful instruction with any accounts and bytes, at any clock that is not before 1970 and
  with any rent, or anything that other programs can do between two of them: they may change
  their own accounts and all balances, and hand over zeroed accounts.

  \<^bold>\<open>Bounds.\<close> A thread has fewer than \<open>2 ^ 32\<close> allowed entries at any time (\<open>countable_lists\<close>):
  the counter is a \<open>u32\<close> that wraps to 0 there, and so many entries would cost over six million SOL in
  rent. Promises of success add that all balances together, or the two of the transfer in question,
  are below \<open>2 ^ 64\<close> (\<open>can_pay\<close>). A chain can be extended exactly while its last number plus two is
  below \<open>2 ^ 32\<close>: the node count is one ahead of the last number and is checked as well. There
  is no fuel anywhere: every loop of the program runs over a list it was given, so its model is a
  structural recursion and ends.
\<close>

section \<open>Not modelled\<close>

text \<open>
  \<open>processor/mod.rs\<close> and \<open>state/mod.rs\<close> hold only module declarations and re-exports. The macros
  \<open>entrypoint!\<close> and \<open>security_txt!\<close> of \<open>lib.rs\<close> expand to code of other crates: the decoding of
  the transaction's accounts, and a text in the binary. Compute and stack limits are the runtime's.
  The \<open>RefCell\<close>s around an account's balance and bytes are not modelled, because no handler holds
  two borrows of one account at a time.
\<close>

end
